(* ===== verification/Prelude.thy ===== *)
theory Prelude
  imports Complex_Main "HOL-Library.AList"
begin

text \<open>
  Shared ground of the development: the exceptions of the program as values, the
  state-and-exception shape of its coroutines with the few combinators the components use,
  Python dictionaries as insertion-ordered association lists, the collection
  \<open>part_defs\<close>, and generic list lemmas. Times and other Python floats are exact rationals.
\<close>

named_theorems part_defs \<open>operations on a part of a larger state\<close>

section \<open>Exceptions and effectful computations\<close>

datatype exn =
    TimeoutException
  | ConnectError
  | RequestError string
  | JWTError
  | RedisError
  | RuntimeError string
  | ValueError string
  | ValidationError string
  | KeyError string
  | TypeError
  | ZeroDivisionError
  | RegexError
  | OSError
  | HTTPException int string
  | OtherError string

text \<open>
  The part of Python's class hierarchy the handlers' \<open>except\<close> clauses rely on:
  \<open>re.error\<close>, \<open>OSError\<close> and the rest are plain exceptions, while pydantic's
  \<open>ValidationError\<close> is a subclass of \<open>ValueError\<close>.
\<close>

fun is_value_error :: "exn \<Rightarrow> bool" where
  "is_value_error (ValueError _) = True"
| "is_value_error (ValidationError _) = True"
| "is_value_error _ = False"

type_synonym 'a outcome = "exn + 'a"

type_synonym ('s, 'a) act = "'s \<Rightarrow> 'a outcome \<times> 's"

definition ret :: "'a \<Rightarrow> ('s, 'a) act" where
  "ret a s = (Inr a, s)"

definition throw :: "exn \<Rightarrow> ('s, 'a) act" where
  "throw e s = (Inl e, s)"

definition and_then :: "('s, 'a) act \<Rightarrow> ('a \<Rightarrow> ('s, 'b) act) \<Rightarrow> ('s, 'b) act" where
  "and_then m f s = (case m s of (Inl e, s') \<Rightarrow> (Inl e, s') | (Inr a, s') \<Rightarrow> f a s')"

text \<open>\<open>catching m h\<close> is \<open>try: m\<close> with \<open>except Exception as e: h e\<close>.\<close>

definition catching :: "('s, 'a) act \<Rightarrow> (exn \<Rightarrow> ('s, 'a) act) \<Rightarrow> ('s, 'a) act" where
  "catching m h s = (case m s of (Inl e, s') \<Rightarrow> h e s' | (Inr a, s') \<Rightarrow> (Inr a, s'))"

lemma ret_apply [simp]: "ret a s = (Inr a, s)"
  by (simp add: ret_def)

lemma throw_apply [simp]: "throw e s = (Inl e, s)"
  by (simp add: throw_def)

lemma and_then_Inr [simp]: "m s = (Inr a, s') \<Longrightarrow> and_then m f s = f a s'"
  by (simp add: and_then_def)

lemma and_then_Inl [simp]: "m s = (Inl e, s') \<Longrightarrow> and_then m f s = (Inl e, s')"
  by (simp add: and_then_def)

lemma catching_Inr [simp]: "m s = (Inr a, s') \<Longrightarrow> catching m h s = (Inr a, s')"
  by (simp add: catching_def)

lemma catching_Inl [simp]: "m s = (Inl e, s') \<Longrightarrow> catching m h s = h e s'"
  by (simp add: catching_def)

lemma and_then_assoc:
  "and_then (and_then m f) g s = and_then m (\<lambda>a. and_then (f a) g) s"
  by (simp add: and_then_def split: prod.splits sum.splits)

lemma map_sum_Inr_iff: "map_sum f g x = Inr y \<longleftrightarrow> (\<exists>z. x = Inr z \<and> y = g z)"
  by (cases x) auto

section \<open>Python dictionaries\<close>

text \<open>
  A \<open>dict\<close> keeps its keys in insertion order; assigning to a present key keeps its place,
  assigning to a new key appends. \<open>AList.update\<close> and \<open>AList.delete\<close> do exactly this
  on association lists with distinct keys.
\<close>

type_synonym ('k, 'v) dict = "('k \<times> 'v) list"

abbreviation dict_get :: "('k, 'v) dict \<Rightarrow> 'k \<Rightarrow> 'v option" where
  "dict_get d k \<equiv> map_of d k"

definition dict_get_default :: "('k, 'v) dict \<Rightarrow> 'k \<Rightarrow> 'v \<Rightarrow> 'v" where
  "dict_get_default d k v = (case map_of d k of None \<Rightarrow> v | Some x \<Rightarrow> x)"

abbreviation dict_set :: "'k \<Rightarrow> 'v \<Rightarrow> ('k, 'v) dict \<Rightarrow> ('k, 'v) dict" where
  "dict_set k v d \<equiv> AList.update k v d"

abbreviation dict_pop :: "'k \<Rightarrow> ('k, 'v) dict \<Rightarrow> ('k, 'v) dict" where
  "dict_pop k d \<equiv> AList.delete k d"

definition dict_of :: "('k \<times> 'v) list \<Rightarrow> ('k, 'v) dict" where
  "dict_of items = fold (\<lambda>(k, v) d. dict_set k v d) items []"

definition dict_ok :: "('k, 'v) dict \<Rightarrow> bool" where
  "dict_ok d = distinct (map fst d)"

lemma dict_ok_Nil [simp]: "dict_ok []"
  by (simp add: dict_ok_def)

lemma dict_ok_set [simp]: "dict_ok d \<Longrightarrow> dict_ok (dict_set k v d)"
  by (simp add: dict_ok_def distinct_update)

lemma dict_ok_pop [simp]: "dict_ok d \<Longrightarrow> dict_ok (dict_pop k d)"
  by (simp add: dict_ok_def distinct_delete)

lemma dict_ok_filter [simp]: "dict_ok d \<Longrightarrow> dict_ok (filter P d)"
  by (simp add: dict_ok_def distinct_map_filter)

lemma dict_get_filter_key:
  "dict_get (filter (\<lambda>(k, v). P k) d) k = (if P k then dict_get d k else None)"
  by (induction d) auto

lemma dict_set_new: "k \<notin> fst ` set d \<Longrightarrow> dict_set k v d = d @ [(k, v)]"
  by (induction d) auto

lemma dict_set_all:
  "distinct (map fst xs) \<Longrightarrow> fst ` set xs \<inter> fst ` set d = {} \<Longrightarrow> fold (\<lambda>(k, v) d. dict_set k v d) xs d = d @ xs"
  by (induction xs arbitrary: d) (auto simp: dict_set_new)

section \<open>Lists\<close>

lemma distinct_map_replace:
  assumes "distinct (map f xs)" and "f y = k \<or> f y \<notin> f ` set xs"
  shows "distinct (map f (map (\<lambda>x. if f x = k then y else x) xs))"
  using assms
proof (induction xs)
  case Nil
  then show ?case by simp
next
  case (Cons x xs)
  let ?r = "\<lambda>x. if f x = k then y else x"
  have IH: "distinct (map f (map ?r xs))"
    using Cons by auto
  have "f (?r x) \<notin> f ` ?r ` set xs"
  proof
    assume "f (?r x) \<in> f ` ?r ` set xs"
    then obtain z where "z \<in> set xs" and "f (?r x) = f (?r z)" by blast
    moreover from this(1) have "f x \<noteq> f z" and "f z \<in> f ` set xs" using Cons.prems(1) by auto
    ultimately show False using Cons.prems by (auto split: if_splits)
  qed
  then have "f (?r x) \<notin> set (map f (map ?r xs))" by (simp only: set_map simp_thms)
  with IH show ?case by (simp only: list.map distinct.simps simp_thms)
qed

end
