(* ===== verification/Json.thy ===== *)
theory Json
  imports PyStr
begin

text \<open>
  Decoded JSON and YAML values as the program passes them around: plugin configuration
  dictionaries, JWT claims, administrative payloads. Objects keep their keys in order.
\<close>

datatype json =
    JNull
  | JBool bool
  | JInt int
  | JFloat rat
  | JStr string
  | JList "json list"
  | JObj "(string \<times> json) list"

text \<open>Python truth of a value.\<close>

fun truthy :: "json \<Rightarrow> bool" where
  "truthy JNull = False"
| "truthy (JBool b) = b"
| "truthy (JInt i) = (i \<noteq> 0)"
| "truthy (JFloat r) = (r \<noteq> 0)"
| "truthy (JStr s) = (s \<noteq> [])"
| "truthy (JList xs) = (xs \<noteq> [])"
| "truthy (JObj kvs) = (kvs \<noteq> [])"

text \<open>The numbers of Python arithmetic; \<open>True\<close> and \<open>False\<close> count as 1 and 0.\<close>

fun num :: "json \<Rightarrow> rat option" where
  "num (JBool b) = Some (if b then 1 else 0)"
| "num (JInt i) = Some (of_int i)"
| "num (JFloat r) = Some r"
| "num _ = None"

definition true_div :: "json \<Rightarrow> json \<Rightarrow> rat outcome" where
  "true_div a b =
     (case (num a, num b) of
        (Some x, Some y) \<Rightarrow> if y = 0 then Inl ZeroDivisionError else Inr (x / y)
      | _ \<Rightarrow> Inl TypeError)"

text \<open>\<open>config.get(key, default)\<close> on a configuration dictionary.\<close>

definition cfg_get :: "(string, json) dict \<Rightarrow> string \<Rightarrow> json \<Rightarrow> json" where
  "cfg_get cfg k d = dict_get_default cfg k d"

text \<open>Iterating over a value, and whether it can be a dictionary key.\<close>

fun iter_json :: "json \<Rightarrow> json list outcome" where
  "iter_json (JList xs) = Inr xs"
| "iter_json (JStr s) = Inr (map (\<lambda>c. JStr [c]) s)"
| "iter_json (JObj kvs) = Inr (map (\<lambda>(k, _). JStr k) kvs)"
| "iter_json _ = Inl TypeError"

fun hashable :: "json \<Rightarrow> bool" where
  "hashable (JList _) = False"
| "hashable (JObj _) = False"
| "hashable _ = True"

text \<open>\<open>n >= v\<close> for an integer, \<open>int(v)\<close>, and \<open>int(s)\<close> for text (sign and digits).\<close>

definition int_ge :: "int \<Rightarrow> json \<Rightarrow> bool outcome" where
  "int_ge n v = (case num v of None \<Rightarrow> Inl TypeError | Some r \<Rightarrow> Inr (of_int n \<ge> r))"

definition int_of_str :: "string \<Rightarrow> int outcome" where
  "int_of_str s =
     (let t = strip s; neg = (take 1 t = ''-''); ds = (if neg \<or> take 1 t = ''+'' then drop 1 t else t)
      in if ds \<noteq> [] \<and> list_all is_digit ds
         then Inr (if neg then - int (nat_of_digits ds) else int (nat_of_digits ds))
         else Inl (ValueError ''invalid literal for int()''))"

fun to_int :: "json \<Rightarrow> int outcome" where
  "to_int (JInt i) = Inr i"
| "to_int (JBool b) = Inr (if b then 1 else 0)"
| "to_int (JFloat r) = Inr (if 0 \<le> r then \<lfloor>r\<rfloor> else \<lceil>r\<rceil>)"
| "to_int (JStr s) = int_of_str s"
| "to_int _ = Inl TypeError"

text \<open>The value with the keys of every object in ascending order (\<open>sort_keys=True\<close>).\<close>

primrec json_sort :: "json \<Rightarrow> json" where
  "json_sort JNull = JNull"
| "json_sort (JBool b) = JBool b"
| "json_sort (JInt i) = JInt i"
| "json_sort (JFloat r) = JFloat r"
| "json_sort (JStr s) = JStr s"
| "json_sort (JList xs) = JList (map json_sort xs)"
| "json_sort (JObj kvs) = JObj (sort_key fst (map (map_prod id json_sort) kvs))"

text \<open>A string between double quotes in JSON text (\<open>ensure_ascii=False\<close>).\<close>

definition hex_digit :: "nat \<Rightarrow> char" where
  "hex_digit n = (if n < 10 then char_of (48 + n) else char_of (87 + n))"

definition json_escape_char :: "char \<Rightarrow> string" where
  "json_escape_char c =
     (let n = (of_char c :: nat)
      in if n = 34 \<or> n = 92 then [CHR 0x5C, c]
         else if n = 10 then [CHR 0x5C, CHR ''n'']
         else if n = 13 then [CHR 0x5C, CHR ''r'']
         else if n = 9 then [CHR 0x5C, CHR ''t'']
         else if n = 8 then [CHR 0x5C, CHR ''b'']
         else if n = 12 then [CHR 0x5C, CHR ''f'']
         else if n < 32 then [CHR 0x5C] @ ''u00'' @ [hex_digit (n div 16), hex_digit (n mod 16)]
         else [c])"

definition json_escape :: "string \<Rightarrow> string" where
  "json_escape s = concat (map json_escape_char s)"

text \<open>The body \<open>{"detail":...}\<close> that most error responses carry.\<close>

definition detail_body :: "string \<Rightarrow> string" where
  "detail_body d = [CHR ''{'', CHR 0x22] @ ''detail'' @ [CHR 0x22, CHR '':'', CHR 0x22] @
     json_escape d @ [CHR 0x22, CHR ''}'']"

text \<open>
  The text of a value as \<open>JSONResponse\<close> writes it: no white space, no escapes outside strings
  but the required ones. Floats are rendered by the interpreter.
\<close>

definition json_quote :: "string \<Rightarrow> string" where
  "json_quote s = [CHR 0x22] @ json_escape s @ [CHR 0x22]"

primrec json_text :: "(rat \<Rightarrow> string) \<Rightarrow> json \<Rightarrow> string" where
  "json_text fs JNull = ''null''"
| "json_text fs (JBool b) = (if b then ''true'' else ''false'')"
| "json_text fs (JInt i) = str_int i"
| "json_text fs (JFloat r) = fs r"
| "json_text fs (JStr s) = json_quote s"
| "json_text fs (JList xs) = ''['' @ join_with '','' (map (json_text fs) xs) @ '']''"
| "json_text fs (JObj kvs) = ''{'' @
     join_with '','' (map (\<lambda>(k, t). json_quote k @ '':'' @ t) (map (map_prod id (json_text fs)) kvs)) @ ''}''"

lemma true_div_Inr: "true_div a b = Inr r \<Longrightarrow> \<exists>x y. num a = Some x \<and> num b = Some y \<and> y \<noteq> 0 \<and> r = x / y"
  by (auto simp: true_div_def split: option.splits if_splits)

end
