(* ===== verification/Config.thy ===== *)
theory Config
  imports Json
begin

text \<open>
  The configuration models of \<open>gateway/config/loader.py\<close>: the pydantic classes as
  records, their defaults as the \<open>default_\<close> constants, their field validators as
  fallible functions.
\<close>

section \<open>Route model\<close>

record MatchConfig =
  m_protocol :: string
  m_host :: "string option"
  m_path :: string
  m_methods :: "string list"
  m_headers :: "(string, string) dict"

definition default_MatchConfig :: MatchConfig where
  "default_MatchConfig =
     \<lparr>m_protocol = ''HTTP'', m_host = None, m_path = ''/'',
      m_methods = [''GET'', ''POST'', ''PUT'', ''DELETE'', ''PATCH''], m_headers = []\<rparr>"

record UpstreamTarget =
  t_url :: string
  t_weight :: int

definition default_weight :: int where
  "default_weight = 100"

record RetryConfig =
  rc_count :: int
  rc_backoff_factor :: rat
  rc_status_codes :: "int list"

definition default_RetryConfig :: RetryConfig where
  "default_RetryConfig = \<lparr>rc_count = 3, rc_backoff_factor = 3 / 10, rc_status_codes = [502, 503, 504]\<rparr>"

record GRPCProxyConfig =
  g_cardinality :: string
  g_timeout :: "rat option"
  g_wait_for_ready :: bool
  g_secure :: "bool option"
  g_root_cert_file :: "string option"
  g_inject_request_id :: bool
  g_drop_metadata :: "string list"

definition default_GRPCProxyConfig :: GRPCProxyConfig where
  "default_GRPCProxyConfig =
     \<lparr>g_cardinality = ''unary_unary'', g_timeout = None, g_wait_for_ready = True, g_secure = None,
      g_root_cert_file = None, g_inject_request_id = True,
      g_drop_metadata = [''host'', '':authority'']\<rparr>"

definition cardinalities :: "string list" where
  "cardinalities = [''unary_unary'', ''unary_stream'', ''stream_unary'', ''stream_stream'']"

definition validate_cardinality :: "string \<Rightarrow> string outcome" where
  "validate_cardinality value =
     (let normalized = lower value
      in if normalized \<notin> set cardinalities
         then Inl (ValueError (''Unsupported gRPC cardinality: '' @ value)) else Inr normalized)"

record WebSocketProxyConfig =
  w_connect_timeout :: rat
  w_inject_request_id :: bool
  w_forward_headers :: "string list"
  w_extra_headers :: "(string, string) dict"

definition default_WebSocketProxyConfig :: WebSocketProxyConfig where
  "default_WebSocketProxyConfig =
     \<lparr>w_connect_timeout = 10, w_inject_request_id = True, w_forward_headers = [], w_extra_headers = []\<rparr>"

record UpstreamConfig =
  u_type :: string
  u_targets :: "UpstreamTarget list"
  u_timeout :: rat
  u_retry :: RetryConfig
  u_load_balance :: string
  u_hash_on :: string
  u_hash_key :: "string option"

definition default_UpstreamConfig :: "UpstreamTarget list \<Rightarrow> UpstreamConfig" where
  "default_UpstreamConfig targets =
     \<lparr>u_type = ''REST'', u_targets = targets, u_timeout = 30, u_retry = default_RetryConfig,
      u_load_balance = ''round_robin'', u_hash_on = ''client_ip'', u_hash_key = None\<rparr>"

definition hash_on_values :: "string list" where
  "hash_on_values = [''client_ip'', ''request_id'', ''header'', ''query_param'', ''path'']"

definition validate_hash_on :: "string \<Rightarrow> string outcome" where
  "validate_hash_on value =
     (let normalized = lower value
      in if normalized \<notin> set hash_on_values
         then Inl (ValueError (''Unsupported upstream hash_on: '' @ value)) else Inr normalized)"

record PluginConfig =
  pc_name :: string
  pc_enabled :: bool
  pc_config :: "(string, json) dict"

record RouteConfig =
  r_id :: string
  r_description :: string
  r_match :: MatchConfig
  r_upstream :: UpstreamConfig
  r_grpc :: GRPCProxyConfig
  r_websocket :: WebSocketProxyConfig
  r_plugins :: "PluginConfig list"
  r_strip_prefix :: bool
  r_preserve_host :: bool

definition default_RouteConfig :: "string \<Rightarrow> MatchConfig \<Rightarrow> UpstreamConfig \<Rightarrow> RouteConfig" where
  "default_RouteConfig rid m u =
     \<lparr>r_id = rid, r_description = [], r_match = m, r_upstream = u, r_grpc = default_GRPCProxyConfig,
      r_websocket = default_WebSocketProxyConfig, r_plugins = [], r_strip_prefix = False,
      r_preserve_host = False\<rparr>"

record GatewayConfig =
  gc_name :: string
  gc_version :: string
  gc_global_plugins :: "PluginConfig list"

definition default_GatewayConfig :: GatewayConfig where
  "default_GatewayConfig = \<lparr>gc_name = ''Open API Gateway'', gc_version = ''1.0.0'', gc_global_plugins = []\<rparr>"

section \<open>Lemmas\<close>

text \<open>A field validator that normalises to lower case and checks membership.\<close>

locale lower_case_validator =
  fixes validate :: "string \<Rightarrow> string outcome" and allowed :: "string list"
  assumes accepts: "lower v \<in> set allowed \<Longrightarrow> validate v = Inr (lower v)"
    and rejects: "lower v \<notin> set allowed \<Longrightarrow> \<exists>msg. validate v = Inl (ValueError msg)"
begin

lemma result_allowed: "validate v = Inr w \<Longrightarrow> w \<in> set allowed \<and> w = lower v"
  using accepts rejects by (cases "lower v \<in> set allowed") fastforce+

lemma idempotent: "validate v = Inr w \<Longrightarrow> validate w = Inr w"
  using result_allowed [of v w] accepts [of w] by auto

lemma case_blind: "lower v = lower w \<Longrightarrow> validate v = Inr x \<Longrightarrow> validate w = Inr x"
  using result_allowed [of v x] accepts [of w] by auto

lemma rejects_iff: "(\<exists>e. validate v = Inl e) \<longleftrightarrow> lower v \<notin> set allowed"
  using accepts rejects by (cases "lower v \<in> set allowed") fastforce+

end

interpretation cardinality: lower_case_validator validate_cardinality cardinalities
  by unfold_locales (auto simp: validate_cardinality_def Let_def)

interpretation hash_on: lower_case_validator validate_hash_on hash_on_values
  by unfold_locales (auto simp: validate_hash_on_def Let_def)

end
