(* ===== verification/Loader.thy ===== *)
theory Loader
  imports Config "HOL-Library.Multiset"
begin

text \<open>
  \<open>ConfigLoader\<close> of \<open>gateway/config/loader.py\<close>: placeholder expansion, loading from the
  central store or from files, and the route table operations with their persistence. YAML,
  pydantic validation, JSON text and the outside world (files, environment, Redis) are arguments;
  each method is one step, since the code runs it under the loader's lock.
\<close>

section \<open>What the loader calls\<close>

datatype redis_cmd = DeleteKey string | HSet string string string | SetKey string string

record 'w loader_deps =
  yaml_load :: "string \<Rightarrow> json outcome"
  yaml_dump :: "json \<Rightarrow> string"
  json_loads :: "string \<Rightarrow> json outcome"
  route_validate :: "(string, json) dict \<Rightarrow> RouteConfig outcome"
  gateway_validate :: "(string, json) dict \<Rightarrow> GatewayConfig outcome"
  route_dump :: "RouteConfig \<Rightarrow> json"
  route_dump_json :: "RouteConfig \<Rightarrow> string"
  gateway_dump_json :: "GatewayConfig \<Rightarrow> string"
  read_file :: "'w \<Rightarrow> string \<Rightarrow> string option outcome"
  write_file :: "string \<Rightarrow> string \<Rightarrow> ('w, unit) act"
  getenv :: "'w \<Rightarrow> string \<Rightarrow> string option"
  redis_hgetall :: "'w \<Rightarrow> string \<Rightarrow> (string, string) dict outcome"
  redis_get :: "'w \<Rightarrow> string \<Rightarrow> string option outcome"
  redis_pipeline :: "redis_cmd list \<Rightarrow> ('w, unit) act"

record 'w ConfigLoader =
  l_routes_path :: string
  l_gateway_path :: string
  l_routes :: "RouteConfig list"
  l_gateway_cfg :: GatewayConfig
  outside :: 'w

definition new_ConfigLoader :: "string \<Rightarrow> string \<Rightarrow> 'w \<Rightarrow> 'w ConfigLoader" where
  "new_ConfigLoader rp gp w =
     \<lparr>l_routes_path = rp, l_gateway_path = gp, l_routes = [], l_gateway_cfg = default_GatewayConfig,
      outside = w\<rparr>"

section \<open>Placeholders\<close>

definition is_name_start :: "char \<Rightarrow> bool" where
  "is_name_start c =
     (let n = (of_char c :: nat) in 65 \<le> n \<and> n \<le> 90 \<or> 97 \<le> n \<and> n \<le> 122 \<or> n = 95)"

definition is_name_char :: "char \<Rightarrow> bool" where
  "is_name_char c = (is_name_start c \<or> is_digit c)"

text \<open>The pattern after its opening \<open>${\<close>: name, optional default, rest of the text.\<close>

definition match_placeholder :: "string \<Rightarrow> (string \<times> string option \<times> string) option" where
  "match_placeholder s =
     (if s = [] \<or> \<not> is_name_start (hd s) then None
      else (let name = takeWhile is_name_char s
            in case dropWhile is_name_char s of
                 [] \<Rightarrow> None
               | c # r \<Rightarrow>
                   if c = CHR ''}'' then Some (name, None, r)
                   else if startswith (c # r) '':-'' then
                     (let d = takeWhile (\<lambda>x. x \<noteq> CHR ''}'') (drop 1 r)
                      in case dropWhile (\<lambda>x. x \<noteq> CHR ''}'') (drop 1 r) of
                           [] \<Rightarrow> None
                         | _ # r' \<Rightarrow> if CHR 0x0A \<in> set d then None else Some (name, Some d, r'))
                   else None))"

definition resolve_placeholder :: "'w loader_deps \<Rightarrow> 'w \<Rightarrow> string \<Rightarrow> string \<Rightarrow> string option \<Rightarrow> string outcome" where
  "resolve_placeholder d w source name dflt =
     (case read_file d w (''/var/run/secrets/oag/'' @ lower name) of
        Inr (Some text) \<Rightarrow> Inr (strip text)
      | _ \<Rightarrow>
          (case getenv d w name of
             Some resolved \<Rightarrow> Inr resolved
           | None \<Rightarrow>
               (case dflt of
                  Some v \<Rightarrow> Inr v
                | None \<Rightarrow> Inl (ValueError (''Missing required secret or environment variable '' @
                     name @ '' while loading '' @ source)))))"

lemma match_placeholder_shorter: "match_placeholder s = Some (n, dflt, r) \<Longrightarrow> length r < length s"
proof -
  assume m: "match_placeholder s = Some (n, dflt, r)"
  then obtain c t where ct: "dropWhile is_name_char s = c # t"
    by (auto simp: match_placeholder_def Let_def split: list.splits if_splits)
  then have lt: "length t < length s" by (metis length_dropWhile_le length_Cons Suc_le_eq)
  have "length r \<le> length t"
  proof (cases "c = CHR ''}''")
    case True
    with m ct show ?thesis by (auto simp: match_placeholder_def Let_def split: if_splits)
  next
    case False
    with m ct obtain x where "dropWhile (\<lambda>x. x \<noteq> CHR ''}'') (drop 1 t) = x # r"
      by (auto simp: match_placeholder_def Let_def split: if_splits list.splits)
    then have "Suc (length r) \<le> length (drop 1 t)" by (metis length_Cons length_dropWhile_le)
    then show ?thesis by simp
  qed
  with lt show ?thesis by simp
qed

function expand_env_text :: "'w loader_deps \<Rightarrow> 'w \<Rightarrow> string \<Rightarrow> string \<Rightarrow> string outcome" where
  "expand_env_text d w source [] = Inr []"
| "expand_env_text d w source (c # s) =
     (case (if startswith (c # s) ''${'' then match_placeholder (drop 1 s) else None) of
        None \<Rightarrow> map_sum id ((#) c) (expand_env_text d w source s)
      | Some (name, dflt, rest) \<Rightarrow>
          (case resolve_placeholder d w source name dflt of
             Inl e \<Rightarrow> Inl e
           | Inr v \<Rightarrow> map_sum id ((@) v) (expand_env_text d w source rest)))"
  by pat_completeness auto
termination
  by (relation "measure (\<lambda>(d, w, source, s). length s)")
     (auto split: if_splits dest!: match_placeholder_shorter)

fun expand_env_payload :: "'w loader_deps \<Rightarrow> 'w \<Rightarrow> string \<Rightarrow> json \<Rightarrow> json outcome"
  and expand_env_list :: "'w loader_deps \<Rightarrow> 'w \<Rightarrow> string \<Rightarrow> json list \<Rightarrow> json list outcome"
  and expand_env_items :: "'w loader_deps \<Rightarrow> 'w \<Rightarrow> string \<Rightarrow> (string \<times> json) list \<Rightarrow>
    (string \<times> json) list outcome" where
  "expand_env_payload d w source (JStr s) = map_sum id JStr (expand_env_text d w source s)"
| "expand_env_payload d w source (JList xs) = map_sum id JList (expand_env_list d w source xs)"
| "expand_env_payload d w source (JObj kvs) = map_sum id JObj (expand_env_items d w source kvs)"
| "expand_env_payload d w source v = Inr v"
| "expand_env_list d w source [] = Inr []"
| "expand_env_list d w source (x # xs) =
     (case expand_env_payload d w source x of
        Inl e \<Rightarrow> Inl e
      | Inr y \<Rightarrow> map_sum id ((#) y) (expand_env_list d w source xs))"
| "expand_env_items d w source [] = Inr []"
| "expand_env_items d w source ((k, x) # kvs) =
     (case expand_env_payload d w source x of
        Inl e \<Rightarrow> Inl e
      | Inr y \<Rightarrow> map_sum id ((#) (k, y)) (expand_env_items d w source kvs))"

section \<open>Loading\<close>

fun map_outcome :: "('a \<Rightarrow> 'b outcome) \<Rightarrow> 'a list \<Rightarrow> 'b list outcome" where
  "map_outcome f [] = Inr []"
| "map_outcome f (x # xs) =
     (case f x of Inl e \<Rightarrow> Inl e | Inr y \<Rightarrow> map_sum id ((#) y) (map_outcome f xs))"

definition bind_outcome :: "'a outcome \<Rightarrow> ('a \<Rightarrow> 'b outcome) \<Rightarrow> 'b outcome" where
  "bind_outcome x f = (case x of Inl e \<Rightarrow> Inl e | Inr a \<Rightarrow> f a)"

text \<open>\<open>Model(**value)\<close> and \<open>value.get(key, default)\<close> on a decoded value.\<close>

fun with_kwargs :: "((string, json) dict \<Rightarrow> 'a outcome) \<Rightarrow> json \<Rightarrow> 'a outcome" where
  "with_kwargs f (JObj kvs) = f kvs"
| "with_kwargs f _ = Inl TypeError"

fun json_dict_get :: "json \<Rightarrow> string \<Rightarrow> json \<Rightarrow> json outcome" where
  "json_dict_get (JObj kvs) k v = Inr (dict_get_default kvs k v)"
| "json_dict_get _ k v = Inl (OtherError ''AttributeError'')"

definition read_yaml :: "'w loader_deps \<Rightarrow> 'w \<Rightarrow> string \<Rightarrow> string \<Rightarrow> json outcome" where
  "read_yaml d w source text =
     bind_outcome (yaml_load d text)
       (\<lambda>v. expand_env_payload d w source (if truthy v then v else JObj []))"

definition load_routes :: "'w loader_deps \<Rightarrow> 'w ConfigLoader \<Rightarrow> RouteConfig list outcome" where
  "load_routes d s =
     bind_outcome (read_file d (outside s) (l_routes_path s))
       (\<lambda>file. case file of
          None \<Rightarrow> Inr []
        | Some text \<Rightarrow>
            bind_outcome (read_yaml d (outside s) (l_routes_path s) text)
              (\<lambda>raw. bind_outcome (json_dict_get raw ''routes'' (JList []))
                 (\<lambda>rs. bind_outcome (iter_json rs) (map_outcome (with_kwargs (route_validate d))))))"

definition load_gateway :: "'w loader_deps \<Rightarrow> 'w ConfigLoader \<Rightarrow> GatewayConfig outcome" where
  "load_gateway d s =
     bind_outcome (read_file d (outside s) (l_gateway_path s))
       (\<lambda>file. case file of
          None \<Rightarrow> Inr default_GatewayConfig
        | Some text \<Rightarrow>
            bind_outcome (read_yaml d (outside s) (l_gateway_path s) text)
              (with_kwargs (gateway_validate d)))"

definition reload :: "'w loader_deps \<Rightarrow> ('w ConfigLoader, unit) act" where
  "reload d s =
     (case load_routes d s of
        Inl e \<Rightarrow> (Inl e, s)
      | Inr rs \<Rightarrow>
          (let s1 = s\<lparr>l_routes := rs\<rparr>
           in case load_gateway d s1 of
                Inl e \<Rightarrow> (Inl e, s1)
              | Inr g \<Rightarrow> (Inr (), s1\<lparr>l_gateway_cfg := g\<rparr>)))"

definition parse_stored :: "'w loader_deps \<Rightarrow> ((string, json) dict \<Rightarrow> 'a outcome) \<Rightarrow> string \<Rightarrow> 'a outcome" where
  "parse_stored d validate text = bind_outcome (json_loads d text) (with_kwargs validate)"

text \<open>The attempt to load from the central store; \<open>True\<close> is its early return.\<close>

definition load_central :: "'w loader_deps \<Rightarrow> ('w ConfigLoader, bool) act" where
  "load_central d s =
     (case redis_hgetall d (outside s) ''oag:config:routes'' of
        Inl e \<Rightarrow> (Inl e, s)
      | Inr raw_routes \<Rightarrow>
          if raw_routes = [] then (Inr False, s)
          else (case map_outcome (parse_stored d (route_validate d)) (map snd raw_routes) of
                  Inl e \<Rightarrow> (Inl e, s)
                | Inr rs \<Rightarrow>
                    (let s1 = s\<lparr>l_routes := rs\<rparr>
                     in case redis_get d (outside s) ''oag:config:gateway'' of
                          Inl e \<Rightarrow> (Inl e, s1)
                        | Inr None \<Rightarrow> (Inr True, s1)
                        | Inr (Some raw_gw) \<Rightarrow>
                            if raw_gw = [] then (Inr True, s1)
                            else (case parse_stored d (gateway_validate d) raw_gw of
                                    Inl e \<Rightarrow> (Inl e, s1)
                                  | Inr g \<Rightarrow> (Inr True, s1\<lparr>l_gateway_cfg := g\<rparr>)))))"

definition load_config :: "'w loader_deps \<Rightarrow> ('w ConfigLoader, unit) act" where
  "load_config d =
     and_then (catching (load_central d) (\<lambda>e. ret False))
       (\<lambda>loaded. if loaded then ret () else reload d)"

definition save_commands :: "'w loader_deps \<Rightarrow> 'w ConfigLoader \<Rightarrow> redis_cmd list" where
  "save_commands d s =
     DeleteKey ''oag:config:routes'' #
     map (\<lambda>r. HSet ''oag:config:routes'' (r_id r) (route_dump_json d r)) (l_routes s) @
     [SetKey ''oag:config:gateway'' (gateway_dump_json d (l_gateway_cfg s))]"

definition save_to_redis :: "'w loader_deps \<Rightarrow> ('w ConfigLoader, unit) act" where
  "save_to_redis d s =
     (case redis_pipeline d (save_commands d s) (outside s) of (r, w) \<Rightarrow> (r, s\<lparr>outside := w\<rparr>))"

section \<open>The route table\<close>

definition validate_route_payload :: "'w loader_deps \<Rightarrow> (string, json) dict \<Rightarrow> RouteConfig outcome" where
  "validate_route_payload d payload = route_validate d payload"

definition render_routes_yaml :: "'w loader_deps \<Rightarrow> RouteConfig list \<Rightarrow> string" where
  "render_routes_yaml d rs = yaml_dump d (JObj [(''routes'', JList (map (route_dump d) rs))])"

text \<open>Write the file, then replace the table in memory; an error of the write leaves the table.\<close>

definition save_routes :: "'w loader_deps \<Rightarrow> RouteConfig list \<Rightarrow> ('w ConfigLoader, unit) act" where
  "save_routes d rs s =
     (case write_file d (l_routes_path s) (render_routes_yaml d rs) (outside s) of
        (Inl e, w) \<Rightarrow> (Inl e, s\<lparr>outside := w\<rparr>)
      | (Inr _, w) \<Rightarrow> (Inr (), s\<lparr>outside := w, l_routes := rs\<rparr>))"

definition create_route :: "'w loader_deps \<Rightarrow> RouteConfig \<Rightarrow> ('w ConfigLoader, unit) act" where
  "create_route d route s =
     (if list_ex (\<lambda>existing. r_id existing = r_id route) (l_routes s)
      then (Inl (ValueError (''Route '' @ r_id route @ '' already exists'')), s)
      else save_routes d (l_routes s @ [route]) s)"

definition update_route :: "'w loader_deps \<Rightarrow> string \<Rightarrow> RouteConfig \<Rightarrow> ('w ConfigLoader, unit) act" where
  "update_route d current_route_id route s =
     (if r_id route \<noteq> current_route_id \<and> list_ex (\<lambda>existing. r_id existing = r_id route) (l_routes s)
      then (Inl (ValueError (''Route '' @ r_id route @ '' already exists'')), s)
      else
        (let next_routes = map (\<lambda>existing. if r_id existing = current_route_id then route else existing)
               (l_routes s);
             found = list_ex (\<lambda>existing. r_id existing = current_route_id) (l_routes s)
         in if \<not> found then (Inl (KeyError current_route_id), s) else save_routes d next_routes s))"

definition delete_route :: "'w loader_deps \<Rightarrow> string \<Rightarrow> ('w ConfigLoader, unit) act" where
  "delete_route d rid s =
     (let next_routes = filter (\<lambda>route. r_id route \<noteq> rid) (l_routes s)
      in if length next_routes = length (l_routes s) then (Inl (KeyError rid), s)
         else save_routes d next_routes s)"

definition find_route :: "RouteConfig list \<Rightarrow> string \<Rightarrow> RouteConfig option" where
  "find_route rs rid = find (\<lambda>route. r_id route = rid) rs"

section \<open>Placeholder lemmas\<close>

lemma expand_env_text_plain: "CHR ''$'' \<notin> set s \<Longrightarrow> expand_env_text d w source s = Inr s"
  by (induction s) (auto simp: startswith_def)

fun json_plain :: "json \<Rightarrow> bool" where
  "json_plain (JStr s) = (CHR ''$'' \<notin> set s)"
| "json_plain (JList xs) = list_all json_plain xs"
| "json_plain (JObj kvs) = list_all (\<lambda>(_, v). json_plain v) kvs"
| "json_plain _ = True"

lemma expand_plain:
  "json_plain v \<Longrightarrow> expand_env_payload d w source v = Inr v"
  "list_all json_plain xs \<Longrightarrow> expand_env_list d w source xs = Inr xs"
  "list_all (\<lambda>(_, v). json_plain v) kvs \<Longrightarrow> expand_env_items d w source kvs = Inr kvs"
  by (induction d w source v and d w source xs and d w source kvs
      rule: expand_env_payload_expand_env_list_expand_env_items.induct)
     (simp_all add: expand_env_text_plain)

text \<open>What was saved is what is read back from the same file, when nothing in it looks like a placeholder.\<close>

definition yaml_laws :: "'w loader_deps \<Rightarrow> bool" where
  "yaml_laws d \<longleftrightarrow> (\<forall>v. yaml_load d (yaml_dump d v) = Inr v) \<and>
     (\<forall>path text w w'. write_file d path text w = (Inr (), w') \<longrightarrow> read_file d w' path = Inr (Some text))"

definition dumps_plain :: "'w loader_deps \<Rightarrow> RouteConfig \<Rightarrow> bool" where
  "dumps_plain d route \<longleftrightarrow> json_plain (route_dump d route) \<and> with_kwargs (route_validate d) (route_dump d route) = Inr route"

lemma match_placeholder_simple:
  assumes "name \<noteq> []" and "is_name_start (hd name)" and "list_all is_name_char name"
  shows "match_placeholder (name @ ''}'' @ rest) = Some (name, None, rest)"
proof -
  have "\<not> is_name_char (CHR ''}'')" by (simp add: is_name_char_def is_name_start_def is_digit_def Let_def)
  then have "takeWhile is_name_char (name @ ''}'' @ rest) = name"
    and "dropWhile is_name_char (name @ ''}'' @ rest) = CHR ''}'' # rest"
    using assms(3) by (simp_all add: list_all_iff takeWhile_append dropWhile_append)
  then show ?thesis using assms by (cases name) (simp_all add: match_placeholder_def Let_def)
qed

section \<open>Loading lemmas\<close>

lemma map_outcome_Inr_iff:
  "map_outcome f xs = Inr ys \<longleftrightarrow> length ys = length xs \<and> (\<forall>i < length xs. f (xs ! i) = Inr (ys ! i))"
proof (induction xs arbitrary: ys)
  case Nil
  then show ?case by auto
next
  case (Cons x xs)
  show ?case
  proof (cases "f x")
    case (Inl e)
    then show ?thesis by auto
  next
    case (Inr y)
    have "map_outcome f (x # xs) = Inr ys \<longleftrightarrow> (\<exists>zs. ys = y # zs \<and> map_outcome f xs = Inr zs)"
      using Inr by (cases "map_outcome f xs") auto
    then show ?thesis using Inr Cons.IH by (cases ys) (auto simp: nth_Cons split: nat.splits)
  qed
qed

lemma map_outcome_map: "\<forall>x \<in> set xs. f (g x) = Inr x \<Longrightarrow> map_outcome f (map g xs) = Inr xs"
  by (simp add: map_outcome_Inr_iff)

lemma saved_routes_load:
  assumes "save_routes d rs s = (Inr u, s')" and "yaml_laws d" and "list_all (dumps_plain d) rs"
    and "l_routes_path t = l_routes_path s" and "outside t = outside s'"
  shows "load_routes d t = Inr rs \<and> l_routes s' = rs"
proof -
  let ?table = "JObj [(''routes'', JList (map (route_dump d) rs))]"
  have "write_file d (l_routes_path s) (render_routes_yaml d rs) (outside s) = (Inr (), outside s')" "l_routes s' = rs"
    using assms(1) by (auto simp: save_routes_def split: prod.splits sum.splits)
  then have "read_file d (outside t) (l_routes_path t) = Inr (Some (yaml_dump d ?table))"
    using assms(2,4,5) unfolding yaml_laws_def render_routes_yaml_def by metis
  moreover have "expand_env_payload d w source ?table = Inr ?table" for w source
    using assms(3) by (intro expand_plain) (simp add: list_all_iff dumps_plain_def)
  moreover have "yaml_load d (yaml_dump d ?table) = Inr ?table" using assms(2) by (simp add: yaml_laws_def)
  moreover have "map_outcome (with_kwargs (route_validate d)) (map (route_dump d) rs) = Inr rs"
    using assms(3) by (intro map_outcome_map) (simp add: list_all_iff dumps_plain_def)
  ultimately show ?thesis
    using \<open>l_routes s' = rs\<close> by (simp add: load_routes_def read_yaml_def bind_outcome_def dict_get_default_def)
qed

lemma table_ops_save:
  "create_route d route s = (Inr u, s') \<Longrightarrow> \<exists>rs. save_routes d rs s = (Inr u, s')"
  "update_route d rid route s = (Inr u, s') \<Longrightarrow> \<exists>rs. save_routes d rs s = (Inr u, s')"
  "delete_route d rid s = (Inr u, s') \<Longrightarrow> \<exists>rs. save_routes d rs s = (Inr u, s')"
  by (auto simp: create_route_def update_route_def delete_route_def Let_def split: if_splits)

section \<open>The route table as a finite map\<close>

text \<open>
  What the table operations promise in terms of lookup by identifier, and what follows for
  undoing one operation by another.
\<close>

locale route_store =
  fixes inv :: "'s \<Rightarrow> bool" and lookup :: "'s \<Rightarrow> string \<Rightarrow> 'r option" and id_of :: "'r \<Rightarrow> string"
    and create :: "'r \<Rightarrow> ('s, unit) act" and update :: "string \<Rightarrow> 'r \<Rightarrow> ('s, unit) act"
    and delete :: "string \<Rightarrow> ('s, unit) act"
  assumes lookup_id: "lookup s i = Some r \<Longrightarrow> id_of r = i"
    and create_ok: "inv s \<Longrightarrow> create r s = (Inr u, s') \<Longrightarrow>
      inv s' \<and> lookup s (id_of r) = None \<and> lookup s' = (lookup s)(id_of r \<mapsto> r)"
    and create_err: "create r s = (Inl e, s') \<Longrightarrow> lookup s' = lookup s \<and> (inv s \<longrightarrow> inv s')"
    and update_ok: "inv s \<Longrightarrow> update i r s = (Inr u, s') \<Longrightarrow>
      inv s' \<and> lookup s i \<noteq> None \<and> (id_of r = i \<or> lookup s (id_of r) = None) \<and>
      lookup s' = (lookup s)(i := None, id_of r \<mapsto> r)"
    and update_err: "update i r s = (Inl e, s') \<Longrightarrow> lookup s' = lookup s \<and> (inv s \<longrightarrow> inv s')"
    and delete_ok: "inv s \<Longrightarrow> delete i s = (Inr u, s') \<Longrightarrow>
      inv s' \<and> lookup s i \<noteq> None \<and> lookup s' = (lookup s)(i := None)"
    and delete_err: "delete i s = (Inl e, s') \<Longrightarrow> lookup s' = lookup s \<and> (inv s \<longrightarrow> inv s')"
begin

lemma undo_create:
  assumes "inv s" and "create r s = (Inr u, s1)" and "delete (id_of r) s1 = (Inr v, s2)"
  shows "lookup s2 = lookup s"
  using create_ok [OF assms(1,2)] delete_ok [OF _ assms(3)] by auto

lemma undo_delete:
  assumes "inv s" and "lookup s i = Some r" and "delete i s = (Inr u, s1)" and "create r s1 = (Inr v, s2)"
  shows "lookup s2 = lookup s"
  using assms(2) lookup_id [OF assms(2)] delete_ok [OF assms(1,3)] create_ok [OF _ assms(4)] by auto

lemma undo_update:
  assumes "inv s" and "lookup s i = Some old" and "update i r s = (Inr u, s1)"
    and "update (id_of r) old s1 = (Inr v, s2)"
  shows "lookup s2 = lookup s"
  using assms(2) lookup_id [OF assms(2)] update_ok [OF assms(1,3)] update_ok [OF _ assms(4)]
  by (auto simp: fun_eq_iff)

lemma step_inv:
  "inv s \<Longrightarrow> (\<exists>r. m = create r) \<or> (\<exists>i r. m = update i r) \<or> (\<exists>i. m = delete i) \<Longrightarrow> inv (snd (m s))"
  by (cases "fst (m s)"; cases "m s")
     (auto dest: create_ok update_ok delete_ok create_err update_err delete_err)

end

definition table_ok :: "'w ConfigLoader \<Rightarrow> bool" where
  "table_ok s = distinct (map r_id (l_routes s))"

definition table_lookup :: "'w ConfigLoader \<Rightarrow> string \<Rightarrow> RouteConfig option" where
  "table_lookup s rid = find_route (l_routes s) rid"

lemma find_route_simps [simp]:
  "find_route [] rid = None"
  "find_route (r # rs) rid = (if r_id r = rid then Some r else find_route rs rid)"
  by (simp_all add: find_route_def)

lemma find_route_id: "find_route rs rid = Some r \<Longrightarrow> r_id r = rid"
  by (induction rs) (auto split: if_splits)

lemma find_route_mem: "find_route rs rid = Some r \<Longrightarrow> r \<in> set rs"
  by (induction rs) (auto split: if_splits)

lemma find_route_None: "find_route rs rid = None \<longleftrightarrow> rid \<notin> r_id ` set rs"
  by (induction rs) auto

lemma list_ex_id: "list_ex (\<lambda>x. r_id x = rid) rs \<longleftrightarrow> rid \<in> r_id ` set rs"
  by (induction rs) auto

lemma find_route_snoc:
  "r_id r \<notin> r_id ` set rs \<Longrightarrow> find_route (rs @ [r]) rid = (if rid = r_id r then Some r else find_route rs rid)"
  by (induction rs) auto

lemma find_route_filter:
  "find_route (filter (\<lambda>x. r_id x \<noteq> i) rs) rid = (if rid = i then None else find_route rs rid)"
  by (induction rs) auto

lemma find_route_replace:
  assumes "r_id r = i \<or> r_id r \<notin> r_id ` set rs"
  shows "find_route (map (\<lambda>x. if r_id x = i then r else x) rs) rid =
     (if rid = r_id r \<and> i \<in> r_id ` set rs then Some r else if rid = i then None else find_route rs rid)"
  using assms by (induction rs) auto

lemma save_routes_cases:
  obtains e w where "save_routes d rs s = (Inl e, s\<lparr>outside := w\<rparr>)"
      "write_file d (l_routes_path s) (render_routes_yaml d rs) (outside s) = (Inl e, w)"
  | w where "save_routes d rs s = (Inr (), s\<lparr>outside := w, l_routes := rs\<rparr>)"
      "write_file d (l_routes_path s) (render_routes_yaml d rs) (outside s) = (Inr (), w)"
proof (cases "write_file d (l_routes_path s) (render_routes_yaml d rs) (outside s)")
  case (Pair r w)
  then show ?thesis using that by (cases r) (auto simp: save_routes_def)
qed

lemma save_routes_Inr: "save_routes d rs s = (Inr u, s') \<Longrightarrow> l_routes s' = rs"
  by (rule save_routes_cases [of d rs s]) auto

lemma save_routes_Inl: "save_routes d rs s = (Inl e, s') \<Longrightarrow> l_routes s' = l_routes s"
  by (rule save_routes_cases [of d rs s]) auto

lemma length_filter_id: "length (filter (\<lambda>x. r_id x \<noteq> i) rs) = length rs \<longleftrightarrow> i \<notin> r_id ` set rs"
  by (metis (mono_tags, lifting) filter_id_conv image_iff length_filter_less less_irrefl)

interpretation table: route_store table_ok table_lookup r_id "create_route d" "update_route d" "delete_route d"
  for d
proof (unfold_locales, goal_cases)
  case (1 s i r)
  then show ?case by (simp add: table_lookup_def find_route_id)
next
  case (2 s r u s')
  then show ?case
    by (auto simp: create_route_def table_ok_def table_lookup_def list_ex_id find_route_None
          find_route_snoc fun_eq_iff dest!: save_routes_Inr split: if_splits)
next
  case (3 r s e s')
  then show ?case
    by (auto simp: create_route_def table_ok_def table_lookup_def dest!: save_routes_Inl split: if_splits)
next
  case (4 s i r u s')
  then have rs: "l_routes s' = map (\<lambda>x. if r_id x = i then r else x) (l_routes s)"
    and i: "i \<in> r_id ` set (l_routes s)" and new: "r_id r = i \<or> r_id r \<notin> r_id ` set (l_routes s)"
    by (auto simp: update_route_def list_ex_id Let_def dest!: save_routes_Inr split: if_splits)
  then show ?case
    using 4(1) distinct_map_replace [of r_id "l_routes s" r i]
    by (auto simp: table_ok_def table_lookup_def find_route_replace find_route_None fun_eq_iff)
next
  case (5 i r s e s')
  then show ?case
    by (auto simp: update_route_def table_ok_def table_lookup_def Let_def dest!: save_routes_Inl
          split: if_splits)
next
  case (6 s i u s')
  then show ?case
    by (auto simp: delete_route_def table_ok_def table_lookup_def Let_def length_filter_id
          find_route_filter find_route_None fun_eq_iff distinct_map_filter
          dest!: save_routes_Inr split: if_splits)
next
  case (7 i s e s')
  then show ?case
    by (auto simp: delete_route_def table_ok_def table_lookup_def Let_def dest!: save_routes_Inl
          split: if_splits)
qed

section \<open>Abstract table\<close>

text \<open>The operations on an abstract finite map, and the same operations of the loader.\<close>

datatype table_op = Create RouteConfig | Update string RouteConfig | Delete string

fun abstract_op :: "table_op \<Rightarrow> (string \<rightharpoonup> RouteConfig) \<Rightarrow> (string \<rightharpoonup> RouteConfig) outcome" where
  "abstract_op (Create r) m =
     (if m (r_id r) \<noteq> None then Inl (ValueError (''Route '' @ r_id r @ '' already exists''))
      else Inr (m(r_id r \<mapsto> r)))"
| "abstract_op (Update i r) m =
     (if r_id r \<noteq> i \<and> m (r_id r) \<noteq> None then Inl (ValueError (''Route '' @ r_id r @ '' already exists''))
      else if m i = None then Inl (KeyError i)
      else Inr (m(i := None, r_id r \<mapsto> r)))"
| "abstract_op (Delete i) m = (if m i = None then Inl (KeyError i) else Inr (m(i := None)))"

fun table_step :: "'w loader_deps \<Rightarrow> table_op \<Rightarrow> ('w ConfigLoader, unit) act" where
  "table_step d (Create r) = create_route d r"
| "table_step d (Update i r) = update_route d i r"
| "table_step d (Delete i) = delete_route d i"

fun table_run :: "'w loader_deps \<Rightarrow> table_op list \<Rightarrow> 'w ConfigLoader \<Rightarrow> 'w ConfigLoader" where
  "table_run d [] s = s"
| "table_run d (t # ts) s = table_run d ts (snd (table_step d t s))"

definition writes_succeed :: "'w loader_deps \<Rightarrow> bool" where
  "writes_succeed d = (\<forall>p t w. \<exists>w'. write_file d p t w = (Inr (), w'))"

lemma table_step_error:
  "abstract_op t (table_lookup s) = Inl e \<Longrightarrow> table_step d t s = (Inl e, s)"
proof (cases t)
  case (Delete i)
  moreover assume "abstract_op t (table_lookup s) = Inl e"
  ultimately show ?thesis
    by (auto simp: table_lookup_def find_route_None delete_route_def Let_def length_filter_id split: if_splits)
qed (auto simp: table_lookup_def find_route_None create_route_def update_route_def list_ex_id Let_def
       split: if_splits)

lemma table_step_saves:
  assumes "abstract_op t (table_lookup s) = Inr m"
  shows "\<exists>rs. table_step d t s = save_routes d rs s"
proof (cases t)
  case (Delete i)
  with assms show ?thesis
    by (auto simp: table_lookup_def find_route_None delete_route_def Let_def length_filter_id split: if_splits)
qed (use assms in \<open>auto simp: table_lookup_def find_route_None create_route_def update_route_def
       list_ex_id Let_def split: if_splits\<close>)

lemma table_step_ok:
  assumes "table_ok s" and "table_step d t s = (Inr u, s')"
  shows "table_ok s' \<and> abstract_op t (table_lookup s) = Inr (table_lookup s')"
proof (cases t)
  case (Create r)
  with assms table.create_ok [of s d r u s'] show ?thesis by auto
next
  case (Update i r)
  with assms table.update_ok [of s d i r u s'] show ?thesis by auto
next
  case (Delete i)
  with assms table.delete_ok [of s d i u s'] show ?thesis by auto
qed

lemma table_step_inv: "table_ok s \<Longrightarrow> table_ok (snd (table_step d t s))"
  by (rule table.step_inv) (cases t; auto)+

section \<open>The central store\<close>

text \<open>
  Documented behaviour of Redis that the synchronisation relies on: after a transaction that
  deletes a key, sets distinct fields of it and sets another key, \<open>HGETALL\<close> returns exactly
  these fields, in an order Redis does not promise, and \<open>GET\<close> the other key's value.
\<close>

definition stores_hash :: "'w loader_deps \<Rightarrow> bool" where
  "stores_hash d = (\<forall>k items k2 v w w'. distinct (map fst items) \<and> k \<noteq> k2 \<and>
     redis_pipeline d (DeleteKey k # map (\<lambda>(f, x). HSet k f x) items @ [SetKey k2 v]) w = (Inr (), w') \<longrightarrow>
     (\<exists>h. redis_hgetall d w' k = Inr h \<and> mset h = mset items) \<and> redis_get d w' k2 = Inr (Some v))"

lemma stores_hashD:
  "stores_hash d \<Longrightarrow> distinct (map fst items) \<Longrightarrow> k \<noteq> k2 \<Longrightarrow>
   redis_pipeline d (DeleteKey k # map (\<lambda>(f, x). HSet k f x) items @ [SetKey k2 v]) w = (Inr (), w') \<Longrightarrow>
   (\<exists>h. redis_hgetall d w' k = Inr h \<and> mset h = mset items) \<and> redis_get d w' k2 = Inr (Some v)"
  unfolding stores_hash_def by blast

text \<open>Text written by pydantic's dump is read back to the same models.\<close>

definition codec_ok :: "'w loader_deps \<Rightarrow> 'w ConfigLoader \<Rightarrow> bool" where
  "codec_ok d s = ((\<forall>r \<in> set (l_routes s). parse_stored d (route_validate d) (route_dump_json d r) = Inr r) \<and>
     gateway_dump_json d (l_gateway_cfg s) \<noteq> [] \<and>
     parse_stored d (gateway_validate d) (gateway_dump_json d (l_gateway_cfg s)) = Inr (l_gateway_cfg s))"

lemma mset_map_lift: "mset (map f xs) = mset ys \<Longrightarrow> \<exists>zs. mset zs = mset xs \<and> map f zs = ys"
proof (induction ys arbitrary: xs)
  case Nil
  then show ?case by simp
next
  case (Cons y ys)
  then have "y \<in> set (map f xs)" by (metis list.set_intros(1) mset_eq_setD)
  then obtain pre x post where xs: "xs = pre @ x # post" "y = f x" by (auto dest: split_list)
  have "mset (map f xs) = add_mset y (mset (map f (pre @ post)))" unfolding xs by simp
  then have "mset (map f (pre @ post)) = mset ys" using Cons.prems by (simp only: mset.simps add_mset_add_mset_same_iff)
  then obtain zs where zs: "mset zs = mset (pre @ post)" "map f zs = ys" using Cons.IH by blast
  have "mset (x # zs) = mset xs" by (simp add: zs(1) xs(1))
  moreover have "map f (x # zs) = y # ys" by (simp add: zs(2) xs(2))
  ultimately show ?case by (intro exI [of _ "x # zs"] conjI)
qed

lemma find_route_Some_iff:
  "distinct (map r_id rs) \<Longrightarrow> find_route rs i = Some r \<longleftrightarrow> r \<in> set rs \<and> r_id r = i"
  by (induction rs) (auto intro: rev_image_eqI)

lemma find_route_perm:
  assumes "distinct (map r_id rs)" and "mset rs' = mset rs"
  shows "find_route rs' i = find_route rs i"
proof -
  have "mset (map r_id rs') = mset (map r_id rs)" using assms(2) by simp
  then have "distinct (map r_id rs')" using assms(1) by (metis mset_eq_imp_distinct_iff)
  then have "\<And>r. find_route rs' i = Some r \<longleftrightarrow> find_route rs i = Some r"
    using assms(1) mset_eq_setD [OF assms(2)] by (simp add: find_route_Some_iff)
  then show ?thesis by (metis option.exhaust)
qed

section \<open>What the central store holds\<close>

definition central_holds :: "'w loader_deps \<Rightarrow> RouteConfig list \<Rightarrow> GatewayConfig \<Rightarrow> 'w \<Rightarrow> bool" where
  "central_holds d rs g w =
     ((\<exists>h. redis_hgetall d w ''oag:config:routes'' = Inr h \<and> mset h = mset (map (\<lambda>r. (r_id r, route_dump_json d r)) rs)) \<and>
      redis_get d w ''oag:config:gateway'' = Inr (Some (gateway_dump_json d g)))"

lemma saved_central:
  assumes "stores_hash d" and "table_ok s" and "redis_pipeline d (save_commands d s) w = (Inr (), w')"
  shows "central_holds d (l_routes s) (l_gateway_cfg s) w'"
proof -
  let ?items = "map (\<lambda>r. (r_id r, route_dump_json d r)) (l_routes s)"
  have "redis_pipeline d (DeleteKey ''oag:config:routes'' # map (\<lambda>(f, x). HSet ''oag:config:routes'' f x) ?items @
      [SetKey ''oag:config:gateway'' (gateway_dump_json d (l_gateway_cfg s))]) w = (Inr (), w')"
    using assms(3) by (simp add: save_commands_def o_def)
  moreover have "distinct (map fst ?items)" using assms(2) by (simp add: table_ok_def o_def)
  ultimately show ?thesis
    using stores_hashD [OF assms(1), of ?items "''oag:config:routes''" "''oag:config:gateway''"
        "gateway_dump_json d (l_gateway_cfg s)" w w'] by (auto simp: central_holds_def)
qed

lemma central_loads:
  assumes "central_holds d (l_routes s) (l_gateway_cfg s) (outside t)" and "table_ok s" and "l_routes s \<noteq> []"
    and "codec_ok d s"
  shows "\<exists>t'. load_config d t = (Inr (), t') \<and> mset (l_routes t') = mset (l_routes s) \<and>
           table_lookup t' = table_lookup s \<and> l_gateway_cfg t' = l_gateway_cfg s"
proof -
  let ?f = "\<lambda>r. (r_id r, route_dump_json d r)" and ?g = "l_gateway_cfg s"
  obtain h where h: "redis_hgetall d (outside t) ''oag:config:routes'' = Inr h" "mset h = mset (map ?f (l_routes s))"
    and g: "redis_get d (outside t) ''oag:config:gateway'' = Inr (Some (gateway_dump_json d ?g))"
    using assms(1) by (auto simp: central_holds_def)
  obtain rs where rs: "mset rs = mset (l_routes s)" "map ?f rs = h"
    using mset_map_lift [of ?f "l_routes s" h] h(2) by metis
  have "map_outcome (parse_stored d (route_validate d)) (map snd h) = Inr rs"
    using assms(4) rs mset_eq_setD [OF rs(1)] by (auto simp: codec_ok_def intro!: map_outcome_map)
  moreover have "h \<noteq> []" using rs assms(3) by auto
  ultimately have "load_central d t = (Inr True, t\<lparr>l_routes := rs, l_gateway_cfg := ?g\<rparr>)"
    using h(1) g assms(4) by (simp add: load_central_def codec_ok_def Let_def)
  then have "load_config d t = (Inr (), t\<lparr>l_routes := rs, l_gateway_cfg := ?g\<rparr>)"
    by (simp add: load_config_def)
  then show ?thesis
    using rs(1) assms(2) find_route_perm [of "l_routes s" rs]
    by (auto simp: table_lookup_def table_ok_def)
qed

text \<open>
  An empty table cannot be told from no table: a node that loads it reads its own files.
\<close>

lemma central_empty:
  "central_holds d [] g (outside t) \<Longrightarrow> load_config d t = reload d t"
  by (auto simp: central_holds_def load_config_def load_central_def catching_def and_then_def)

section \<open>Properties\<close>

text \<open>
  Whatever sequence of create, update and delete operations runs, with failing and
  succeeding file writes, the identifiers of the route table stay distinct.
\<close>
theorem table_run_distinct:
  "distinct (map r_id (l_routes s)) \<Longrightarrow> distinct (map r_id (l_routes (table_run d ts s)))"
proof (induction ts arbitrary: s)
  case Nil
  then show ?case by simp
next
  case (Cons t ts)
  then show ?case using table_step_inv [of s d t] by (simp add: table_ok_def)
qed

text \<open>
  C31. The table operations refine a finite map from identifiers to routes: on a table
  with distinct identifiers and working file writes, an operation that the abstract map refuses
  fails with the same exception and changes nothing, and one it accepts succeeds and leads to the
  abstract result.
\<close>
theorem table_refines_map:
  assumes "table_ok s" and "writes_succeed d"
  shows "case abstract_op t (table_lookup s) of
           Inl e \<Rightarrow> table_step d t s = (Inl e, s)
         | Inr m \<Rightarrow> \<exists>s'. table_step d t s = (Inr (), s') \<and> table_ok s' \<and> table_lookup s' = m"
proof (cases "abstract_op t (table_lookup s)")
  case (Inl e)
  then show ?thesis by (simp add: table_step_error)
next
  case (Inr m)
  then obtain rs where rs: "table_step d t s = save_routes d rs s" using table_step_saves by blast
  obtain w where "write_file d (l_routes_path s) (render_routes_yaml d rs) (outside s) = (Inr (), w)"
    using assms(2) unfolding writes_succeed_def by blast
  then obtain s' where s': "table_step d t s = (Inr (), s')" using rs by (simp add: save_routes_def)
  with Inr table_step_ok [OF assms(1) this] show ?thesis by auto
qed

text \<open>
  A configuration saved to the central store is what another gateway node loads
  from it: the same gateway configuration, the same routes under every identifier and the same
  collection of routes. The order of the routes is not part of the result, because the hash that
  holds them has no order.
\<close>
theorem save_then_load:
  assumes "table_ok s" and "l_routes s \<noteq> []" and "stores_hash d" and "codec_ok d s"
    and "save_to_redis d s = (Inr (), saved)" and "outside t = outside saved"
  shows "\<exists>t'. load_config d t = (Inr (), t') \<and> mset (l_routes t') = mset (l_routes s) \<and>
           table_lookup t' = table_lookup s \<and> l_gateway_cfg t' = l_gateway_cfg s"
proof -
  have "redis_pipeline d (save_commands d s) (outside s) = (Inr (), outside t)"
    using assms(5,6) by (auto simp: save_to_redis_def split: prod.splits)
  from central_loads [OF saved_central [OF assms(3,1) this] assms(1,2,4)] show ?thesis .
qed

text \<open>
  A placeholder takes the mounted secret's stripped text if the secret file can be
  read, else the environment variable, else its default, and the text after it is expanded on its
  own; without any of the three, loading fails with a value error that names the variable.
\<close>
theorem expand_placeholder:
  assumes "name \<noteq> []" and "is_name_start (hd name)" and "list_all is_name_char name"
  shows "expand_env_text d w source (''${'' @ name @ ''}'' @ rest) =
    (case read_file d w (''/var/run/secrets/oag/'' @ lower name) of
       Inr (Some text) \<Rightarrow> map_sum id ((@) (strip text)) (expand_env_text d w source rest)
     | _ \<Rightarrow> (case getenv d w name of
               Some v \<Rightarrow> map_sum id ((@) v) (expand_env_text d w source rest)
             | None \<Rightarrow> Inl (ValueError (''Missing required secret or environment variable '' @ name @
                        '' while loading '' @ source))))"
proof -
  have "startswith (''${'' @ name @ ''}'' @ rest) ''${''" by (simp add: startswith_def)
  then show ?thesis
    using match_placeholder_simple [OF assms, of rest]
    by (simp add: resolve_placeholder_def split: sum.splits option.splits)
qed

text \<open>
  Deleting a route and creating it again, which is how a deletion is rolled back,
  restores every lookup but not the order of evaluation: the route comes back behind all others.
\<close>
theorem delete_create_order:
  assumes "table_ok s" and "table_lookup s i = Some r"
    and "delete_route d i s = (Inr (), sd)" and "create_route d r sd = (Inr (), sc)"
  shows "table_lookup sc = table_lookup s \<and>
         l_routes sc = filter (\<lambda>x. r_id x \<noteq> i) (l_routes s) @ [r]"
proof -
  have "l_routes sd = filter (\<lambda>x. r_id x \<noteq> i) (l_routes s)"
    using assms(3) by (auto simp: delete_route_def Let_def dest!: save_routes_Inr split: if_splits)
  moreover have "l_routes sc = l_routes sd @ [r]"
    using assms(4) by (auto simp: create_route_def dest!: save_routes_Inr split: if_splits)
  ultimately show ?thesis using table.undo_delete [OF assms] by simp
qed

section \<open>A concrete outside world\<close>

text \<open>
  An in-memory store and file system, used to show that the hypotheses above can hold: route text
  is the identifier, validation looks it up, \<open>HGETALL\<close> returns the fields backwards.
\<close>

type_synonym mem = "(string \<Rightarrow> (string, string) dict) \<times> (string \<rightharpoonup> string)"

fun mem_cmd :: "redis_cmd \<Rightarrow> mem \<Rightarrow> mem" where
  "mem_cmd (DeleteKey k) (h, m) = (h(k := []), m(k := None))"
| "mem_cmd (HSet k f v) (h, m) = (h(k := dict_set f v (h k)), m)"
| "mem_cmd (SetKey k v) (h, m) = (h, m(k \<mapsto> v))"

definition mem_deps :: "RouteConfig list \<Rightarrow> mem loader_deps" where
  "mem_deps rs =
     \<lparr>yaml_load = (\<lambda>t. Inr JNull), yaml_dump = (\<lambda>v. []),
      json_loads = (\<lambda>t. Inr (JObj [(''id'', JStr t)])),
      route_validate = (\<lambda>kvs. case dict_get kvs ''id'' of
         Some (JStr i) \<Rightarrow> (case find_route rs i of Some r \<Rightarrow> Inr r | None \<Rightarrow> Inl (ValidationError i))
       | _ \<Rightarrow> Inl (ValidationError [])),
      gateway_validate = (\<lambda>kvs. Inr default_GatewayConfig), route_dump = (\<lambda>r. JStr (r_id r)),
      route_dump_json = r_id, gateway_dump_json = gc_name, read_file = (\<lambda>(h, m) p. Inr (m p)),
      write_file = (\<lambda>p t (h, m). (Inr (), (h, m(p \<mapsto> t)))), getenv = (\<lambda>w n. None),
      redis_hgetall = (\<lambda>(h, m) k. Inr (rev (h k))), redis_get = (\<lambda>(h, m) k. Inr (m k)),
      redis_pipeline = (\<lambda>cmds w. (Inr (), fold mem_cmd cmds w))\<rparr>"

lemma fold_hset:
  "distinct (map fst (h k @ items)) \<Longrightarrow>
     fold mem_cmd (map (\<lambda>(f, x). HSet k f x) items) (h, m) = (h(k := h k @ items), m)"
proof (induction items arbitrary: h)
  case Nil
  then show ?case by simp
next
  case (Cons fx items)
  then show ?case
    using Cons.IH [of "h(k := h k @ [fx])"] by (cases fx) (auto simp: dict_set_new)
qed

lemma mem_stores_hash: "stores_hash (mem_deps rs)"
proof -
  have "fold mem_cmd (map (\<lambda>(f, x). HSet k f x) items) (h(k := []), m) = (h(k := items), m)"
    if "distinct (map fst items)" for h :: "string \<Rightarrow> (string, string) dict" and k items m
    using that fold_hset [of "h(k := [])" k items m] by simp
  then show ?thesis by (auto simp: stores_hash_def mem_deps_def)
qed

lemma mem_writes_succeed: "writes_succeed (mem_deps rs)"
  by (simp add: writes_succeed_def mem_deps_def split: prod.splits)

definition demo_route :: "string \<Rightarrow> RouteConfig" where
  "demo_route i = default_RouteConfig i default_MatchConfig (default_UpstreamConfig [])"

lemma demo_route_id [simp]: "r_id (demo_route i) = i"
  by (simp add: demo_route_def default_RouteConfig_def)

definition demo_loader :: "mem ConfigLoader" where
  "demo_loader = (new_ConfigLoader ''routes.yaml'' ''gateway.yaml'' (\<lambda>_. [], \<lambda>_. None))
     \<lparr>l_routes := [demo_route ''a'', demo_route ''b'']\<rparr>"

lemmas demo_simps = demo_loader_def new_ConfigLoader_def table_ok_def table_lookup_def

lemma table_run_distinct_witness:
  "distinct (map r_id (l_routes (table_run (mem_deps [])
     [Delete ''a'', Create (demo_route ''c''), Update ''b'' (demo_route ''a'')] demo_loader)))"
  by (rule table_run_distinct) (simp add: demo_simps)

lemma table_refines_map_witness:
  "\<exists>s'. table_step (mem_deps []) (Update ''a'' (demo_route ''c'')) demo_loader = (Inr (), s') \<and> table_ok s' \<and>
     table_lookup s' = (table_lookup demo_loader)(''a'' := None, ''c'' \<mapsto> demo_route ''c'')"
  using table_refines_map [of demo_loader "mem_deps []" "Update ''a'' (demo_route ''c'')"] mem_writes_succeed
  by (simp add: demo_simps)

lemma save_then_load_witness:
  "\<exists>t'. load_config (mem_deps [demo_route ''a'', demo_route ''b'']) 
        (snd (save_to_redis (mem_deps [demo_route ''a'', demo_route ''b'']) demo_loader)) = (Inr (), t') \<and>
     mset (l_routes t') = mset (l_routes demo_loader) \<and> table_lookup t' = table_lookup demo_loader \<and>
     l_gateway_cfg t' = l_gateway_cfg demo_loader"
  by (rule save_then_load [OF _ _ mem_stores_hash, where s = demo_loader and
        saved = "snd (save_to_redis (mem_deps [demo_route ''a'', demo_route ''b'']) demo_loader)"])
     (simp_all add: demo_simps save_to_redis_def mem_deps_def codec_ok_def parse_stored_def
        bind_outcome_def default_GatewayConfig_def del: fold_simps)

lemma expand_placeholder_witness:
  "expand_env_text ((mem_deps [])\<lparr>getenv := \<lambda>w n. if n = ''HOST'' then Some ''db'' else None\<rparr>)
     (\<lambda>_. [], \<lambda>_. None) ''routes.yaml'' ''${HOST}'' = Inr ''db''"
  using expand_placeholder [of "''HOST''" "(mem_deps [])\<lparr>getenv := \<lambda>w n. if n = ''HOST'' then Some ''db'' else None\<rparr>"
      "(\<lambda>_. [], \<lambda>_. None)" "''routes.yaml''" "[]"]
  by (simp add: is_name_char_def is_name_start_def is_digit_def Let_def mem_deps_def)

lemma delete_create_order_witness:
  "let s1 = snd (delete_route (mem_deps []) ''a'' demo_loader); s2 = snd (create_route (mem_deps []) (demo_route ''a'') s1)
   in table_lookup s2 = table_lookup demo_loader \<and>
      l_routes s2 = filter (\<lambda>x. r_id x \<noteq> ''a'') (l_routes demo_loader) @ [demo_route ''a'']"
  unfolding Let_def
  by (rule delete_create_order [where i = "''a''" and d = "mem_deps []" and
        sd = "snd (delete_route (mem_deps []) ''a'' demo_loader)"])
     (simp_all add: demo_simps delete_route_def create_route_def save_routes_def mem_deps_def
        Let_def)

end
