(* ===== verification/Http.thy ===== *)
theory Http
  imports Config
begin

text \<open>
  Requests, responses and the per-request context: \<open>gateway/core/context.py\<close> and
  \<open>gateway/core/protocol_utils.py\<close>. The request record holds what the program reads of
  a Starlette request: header names are lower case there (the ASGI rule), header lookup
  ignores case and takes the first entry, query parameter lookup takes the last.
\<close>

section \<open>Context\<close>

datatype Protocol = HTTP | GRPC | WEBSOCKET | MQTT

fun protocol_value :: "Protocol \<Rightarrow> string" where
  "protocol_value HTTP = ''HTTP''"
| "protocol_value GRPC = ''gRPC''"
| "protocol_value WEBSOCKET = ''WebSocket''"
| "protocol_value MQTT = ''MQTT''"

definition protocol_members :: "(string, Protocol) dict" where
  "protocol_members = [(''HTTP'', HTTP), (''GRPC'', GRPC), (''WEBSOCKET'', WEBSOCKET), (''MQTT'', MQTT)]"

datatype AuthMethod = NONE | JWT | API_KEY | OAUTH2 | MTLS

record UpstreamInfo =
  ui_url :: string
  ui_protocol :: Protocol
  ui_weight :: int

record GatewayContext =
  request_id :: string
  start_time :: rat
  route_id :: string
  upstream :: "UpstreamInfo option"
  auth_method :: AuthMethod
  principal :: string
  scopes :: json
  claims :: "(string, json) dict"
  rate_limit_key :: string
  upstream_hash_key :: string
  metadata :: "(string, json) dict"
  circuit_open :: bool

text \<open>A fresh context: the identifier and the start time come from outside.\<close>

definition new_context :: "string \<Rightarrow> rat \<Rightarrow> GatewayContext" where
  "new_context uuid now =
     \<lparr>request_id = uuid, start_time = now, route_id = [], upstream = None, auth_method = NONE,
      principal = [], scopes = JList [], claims = [], rate_limit_key = [], upstream_hash_key = [],
      metadata = [], circuit_open = False\<rparr>"

definition elapsed_ms :: "GatewayContext \<Rightarrow> rat \<Rightarrow> rat" where
  "elapsed_ms c now = (now - start_time c) * 1000"

section \<open>Requests\<close>

record request =
  rq_method :: string
  rq_path :: string
  rq_query :: string
  rq_query_params :: "(string \<times> string) list"
  rq_headers :: "(string \<times> string) list"
  rq_client :: "(string \<times> int) option"
  rq_body :: string

definition header_get :: "request \<Rightarrow> string \<Rightarrow> string option" where
  "header_get r k = map_of (rq_headers r) (lower k)"

definition header_or :: "request \<Rightarrow> string \<Rightarrow> string \<Rightarrow> string" where
  "header_or r k d = (case header_get r k of None \<Rightarrow> d | Some v \<Rightarrow> v)"

definition query_param_get :: "request \<Rightarrow> string \<Rightarrow> string option" where
  "query_param_get r k = map_of (rev (rq_query_params r)) k"

text \<open>\<open>dict(request.headers)\<close>: one entry per name, the first value, in order.\<close>

fun headers_dict :: "(string \<times> string) list \<Rightarrow> (string, string) dict" where
  "headers_dict [] = []"
| "headers_dict ((k, v) # hs) = (k, v) # filter (\<lambda>(k', _). k' \<noteq> k) (headers_dict hs)"

section \<open>Responses\<close>

record response =
  rs_status :: int
  rs_headers :: "(string \<times> string) list"
  rs_media :: "string option"
  rs_body :: string

text \<open>
  \<open>Response(content, status_code, headers, media_type)\<close> stores header names in lower case;
  the content length and type that Starlette derives from the other fields are not repeated.
\<close>

definition mk_response :: "string \<Rightarrow> int \<Rightarrow> (string, string) dict \<Rightarrow> string option \<Rightarrow> response" where
  "mk_response content status hdrs media =
     \<lparr>rs_status = status, rs_headers = map (\<lambda>(k, v). (lower k, v)) hdrs, rs_media = media,
      rs_body = content\<rparr>"

definition json_detail :: "string \<Rightarrow> int \<Rightarrow> (string, string) dict \<Rightarrow> response" where
  "json_detail d status hdrs = mk_response (detail_body d) status hdrs (Some ''application/json'')"

text \<open>
  \<open>response.headers[k] = v\<close>: the first entry of that name gets the value, further ones are
  removed; without one the entry is appended.
\<close>

fun header_put :: "string \<Rightarrow> string \<Rightarrow> (string \<times> string) list \<Rightarrow> (string \<times> string) list" where
  "header_put k v [] = [(k, v)]"
| "header_put k v ((k', v') # hs) =
     (if k' = k then (k, v) # filter (\<lambda>(k'', _). k'' \<noteq> k) hs else (k', v') # header_put k v hs)"

definition set_response_header :: "string \<Rightarrow> string \<Rightarrow> response \<Rightarrow> response" where
  "set_response_header k v r = r\<lparr>rs_headers := header_put (lower k) v (rs_headers r)\<rparr>"

definition response_header :: "response \<Rightarrow> string \<Rightarrow> string option" where
  "response_header r k = map_of (rs_headers r) (lower k)"

section \<open>Protocol helpers\<close>

datatype StatusCode =
    INVALID_ARGUMENT | UNAUTHENTICATED | PERMISSION_DENIED | NOT_FOUND | DEADLINE_EXCEEDED | ABORTED
  | RESOURCE_EXHAUSTED | CANCELLED | INTERNAL | UNIMPLEMENTED | UNAVAILABLE | UNKNOWN
  | OK | ALREADY_EXISTS | FAILED_PRECONDITION | OUT_OF_RANGE | DATA_LOSS

definition HTTP_TO_GRPC_STATUS :: "(int, StatusCode) dict" where
  "HTTP_TO_GRPC_STATUS =
     [(400, INVALID_ARGUMENT), (401, UNAUTHENTICATED), (403, PERMISSION_DENIED), (404, NOT_FOUND),
      (408, DEADLINE_EXCEEDED), (409, ABORTED), (429, RESOURCE_EXHAUSTED), (499, CANCELLED),
      (500, INTERNAL), (501, UNIMPLEMENTED), (502, UNAVAILABLE), (503, UNAVAILABLE),
      (504, DEADLINE_EXCEEDED)]"

definition HTTP_TO_WS_CLOSE :: "(int, int) dict" where
  "HTTP_TO_WS_CLOSE =
     [(400, 4400), (401, 4401), (403, 4403), (404, 4404), (408, 4408), (409, 4409), (429, 4429),
      (500, 4500), (502, 4502), (503, 4503), (504, 4504)]"

definition http_status_to_grpc_status :: "int \<Rightarrow> StatusCode" where
  "http_status_to_grpc_status status_code = dict_get_default HTTP_TO_GRPC_STATUS status_code UNKNOWN"

definition http_status_to_websocket_close :: "int \<Rightarrow> int" where
  "http_status_to_websocket_close status_code = dict_get_default HTTP_TO_WS_CLOSE status_code 1011"

text \<open>
  The \<open>detail\<close> text of an error response. \<open>loads\<close> is \<open>json.loads\<close>, whose decode
  error is a value error; other exceptions of it, a body that is no UTF-8 among them, and \<open>.get\<close> on a
  value that is no object, pass through.
\<close>

definition response_detail :: "(string \<Rightarrow> json outcome) \<Rightarrow> response \<Rightarrow> string \<Rightarrow> string outcome" where
  "response_detail loads resp fallback =
     (if rs_body resp = [] then Inr fallback
      else (case loads (rs_body resp) of
              Inl e \<Rightarrow> if is_value_error e then Inr fallback else Inl e
            | Inr (JObj payload) \<Rightarrow>
                (case dict_get payload ''detail'' of
                   Some (JStr detail) \<Rightarrow> Inr (if detail \<noteq> [] then detail else fallback)
                 | _ \<Rightarrow> Inr fallback)
            | Inr _ \<Rightarrow> Inl (OtherError ''AttributeError'')))"

text \<open>The query parser is Starlette's and comes as an argument.\<close>

definition build_synthetic_request ::
  "(string \<Rightarrow> (string \<times> string) list) \<Rightarrow> string \<Rightarrow> string \<Rightarrow> (string, string) dict \<Rightarrow> string \<Rightarrow>
   (string \<times> int) option \<Rightarrow> request" where
  "build_synthetic_request parse_query path meth headers query_string client =
     \<lparr>rq_method = upper meth, rq_path = path, rq_query = query_string,
      rq_query_params = parse_query query_string,
      rq_headers = map (\<lambda>(k, v). (lower k, v)) headers,
      rq_client = Some (case client of Some c \<Rightarrow> c | None \<Rightarrow> (''127.0.0.1'', 0)),
      rq_body = []\<rparr>"

text \<open>
  The peer pattern: a family, a nonempty host up to the last colon, a decimal port; a final
  newline is allowed by the pattern's end anchor, one inside the host is not.
\<close>

definition match_peer :: "string \<Rightarrow> (string \<times> string) option" where
  "match_peer peer =
     (if startswith peer ''ipv4:'' \<or> startswith peer ''ipv6:'' then
        (let body = (if endswith peer [CHR 0x0A] then butlast peer else peer);
             parts = split_on (CHR '':'') (drop 5 body);
             host = join_with '':'' (butlast parts);
             port = last parts
         in if host \<noteq> [] \<and> CHR 0x0A \<notin> set host \<and> port \<noteq> [] \<and> list_all is_digit port
            then Some (host, port) else None)
      else None)"

definition client_from_peer :: "string option \<Rightarrow> string \<times> int" where
  "client_from_peer peer =
     (case peer of
        None \<Rightarrow> (''127.0.0.1'', 0)
      | Some p \<Rightarrow>
          if p = [] then (''127.0.0.1'', 0)
          else (case match_peer p of
                  None \<Rightarrow> (''127.0.0.1'', 0)
                | Some (host, port) \<Rightarrow>
                    (strip_chars (\<lambda>c. c \<in> set ''[]'') host, int (nat_of_digits port))))"

definition client_host_or :: "request \<Rightarrow> string \<Rightarrow> string" where
  "client_host_or r d = (case rq_client r of Some (h, _) \<Rightarrow> h | None \<Rightarrow> d)"

definition first_client_ip :: "request \<Rightarrow> string" where
  "first_client_ip r =
     (let forwarded = header_or r ''x-forwarded-for'' []
      in if forwarded \<noteq> [] then strip (hd (split_on (CHR '','') forwarded))
         else client_host_or r ''unknown'')"

definition build_upstream_hash_key :: "request \<Rightarrow> RouteConfig \<Rightarrow> GatewayContext \<Rightarrow> string" where
  "build_upstream_hash_key r route c =
     (let strategy = lower (u_hash_on (r_upstream route));
          key_name = (case u_hash_key (r_upstream route) of None \<Rightarrow> [] | Some k \<Rightarrow> k)
      in if strategy = ''client_ip'' then first_client_ip r
         else if strategy = ''request_id'' then request_id c
         else if strategy = ''path'' then rq_path r
         else if strategy = ''header'' \<and> key_name \<noteq> [] then header_or r key_name (request_id c)
         else if strategy = ''query_param'' \<and> key_name \<noteq> []
           then (case query_param_get r key_name of None \<Rightarrow> request_id c | Some v \<Rightarrow> v)
         else request_id c)"

section \<open>Lemmas\<close>

lemma headers_dict_ok [simp]: "dict_ok (headers_dict hs)"
proof (induction hs rule: headers_dict.induct)
  case 1
  then show ?case by simp
next
  case (2 k v hs)
  then show ?case by (auto simp: dict_ok_def distinct_map_filter)
qed

lemma headers_dict_get [simp]: "dict_get (headers_dict hs) k = map_of hs k"
proof (induction hs rule: headers_dict.induct)
  case 1
  then show ?case by simp
next
  case (2 k' v hs)
  then show ?case using dict_get_filter_key [of "\<lambda>x. x \<noteq> k'" "headers_dict hs" k] by auto
qed

lemma headers_dict_keys: "fst ` set (headers_dict hs) = fst ` set hs"
  by (simp flip: dom_map_of_conv_image_fst) (simp add: dom_def)

lemma header_put_get: "map_of (header_put k v hs) k' = (if k' = k then Some v else map_of hs k')"
proof (induction hs)
  case Nil
  then show ?case by simp
next
  case (Cons kv hs)
  then show ?case
    using dict_get_filter_key [of "\<lambda>x. x \<noteq> k" hs k'] by (cases kv) auto
qed

lemma header_put_unique: "length (filter (\<lambda>(k', _). k' = k) (header_put k v hs)) = 1"
  by (induction hs) (auto simp: filter_empty_conv split: if_splits)

lemma set_response_header_get [simp]:
  "response_header (set_response_header k v r) k' =
     (if lower k' = lower k then Some v else response_header r k')"
  by (simp add: response_header_def set_response_header_def header_put_get)

lemma set_response_header_simps [simp]:
  "rs_status (set_response_header k v r) = rs_status r"
  "rs_body (set_response_header k v r) = rs_body r"
  "rs_media (set_response_header k v r) = rs_media r"
  by (simp_all add: set_response_header_def)

lemma mk_response_simps [simp]:
  "rs_status (mk_response b st h m) = st"
  "rs_body (mk_response b st h m) = b"
  "rs_media (mk_response b st h m) = m"
  "rs_headers (mk_response b st h m) = map (\<lambda>(k, v). (lower k, v)) h"
  by (simp_all add: mk_response_def)

lemma json_detail_simps [simp]:
  "rs_status (json_detail d st h) = st"
  "rs_body (json_detail d st h) = detail_body d"
  "rs_headers (json_detail d st h) = map (\<lambda>(k, v). (lower k, v)) h"
  by (simp_all add: json_detail_def)

lemma new_context_simps [simp]:
  "request_id (new_context u t) = u" "route_id (new_context u t) = []"
  "upstream (new_context u t) = None" "principal (new_context u t) = []"
  by (simp_all add: new_context_def)

end
