(* ===== verification/Glob.thy ===== *)
theory Glob
  imports PyStr
begin

text \<open>
  \<open>fnmatch.fnmatch\<close> of the Python standard library on a POSIX host, which
  \<open>gateway/core/router.py\<close> uses for path patterns with a star: patterns are parsed to
  tokens and matched by backtracking; a language of tokens is the reference semantics.
\<close>

section \<open>Patterns\<close>

datatype citem = CSingle char | CRange char char

datatype gtok = GStar | GAny | GLit char | GClass bool "citem list"

text \<open>
  The body of a bracket expression: a hyphen between two characters makes a range. A range
  whose ends are out of order is dropped, and an exclamation mark that comes first after
  that negates the class.
\<close>

fun class_items :: "string \<Rightarrow> citem list" where
  "class_items [] = []"
| "class_items [x] = [CSingle x]"
| "class_items [x, y] = [CSingle x, CSingle y]"
| "class_items (x # y # z # s) =
     (if y = CHR ''-'' then CRange x z # class_items s else CSingle x # class_items (y # z # s))"

fun live_item :: "citem \<Rightarrow> bool" where
  "live_item (CSingle c) = True"
| "live_item (CRange a b) = (a \<le> b)"

definition class_token :: "string \<Rightarrow> gtok" where
  "class_token body =
     (if take 1 body = ''!'' then GClass True (filter live_item (class_items (tl body)))
      else (case filter live_item (class_items body) of
              [] \<Rightarrow> GClass False []
            | CSingle c # r \<Rightarrow>
                if c = CHR ''!'' then GClass True r else GClass False (CSingle c # r)
            | CRange a b # r \<Rightarrow>
                if a = CHR ''!'' then GClass True (CSingle (CHR ''-'') # CSingle b # r)
                else GClass False (CRange a b # r)))"

text \<open>
  The text after an opening bracket, cut at the closing one; a closing bracket that comes
  first, or first after an exclamation mark, belongs to the body. \<open>None\<close>: no closing
  bracket, the opening one is an ordinary character.
\<close>

definition class_split :: "string \<Rightarrow> (string \<times> string) option" where
  "class_split s =
     (let bang = (if take 1 s = ''!'' then ''!'' else []);
          s1 = drop (length bang) s;
          br = (if take 1 s1 = '']'' then '']'' else []);
          s2 = drop (length br) s1;
          body = takeWhile (\<lambda>c. c \<noteq> CHR '']'') s2
      in case dropWhile (\<lambda>c. c \<noteq> CHR '']'') s2 of
           [] \<Rightarrow> None
         | _ # rest \<Rightarrow> Some (bang @ br @ body, rest))"

lemma class_split_shorter: "class_split s = Some (body, rest) \<Longrightarrow> length rest < length s"
proof -
  assume "class_split s = Some (body, rest)"
  then obtain n x where "dropWhile (\<lambda>c. c \<noteq> CHR '']'') (drop n s) = x # rest"
    by (auto simp: class_split_def Let_def split: list.splits if_splits)
  then have "Suc (length rest) \<le> length (drop n s)"
    by (metis length_Cons length_dropWhile_le)
  then show ?thesis by simp
qed

function glob_parse :: "string \<Rightarrow> gtok list" where
  "glob_parse [] = []"
| "glob_parse (c # s) =
     (if c = CHR ''*'' then GStar # glob_parse s
      else if c = CHR ''?'' then GAny # glob_parse s
      else if c = CHR ''['' then
        (case class_split s of
           None \<Rightarrow> GLit c # glob_parse s
         | Some (body, rest) \<Rightarrow> class_token body # glob_parse rest)
      else GLit c # glob_parse s)"
  by pat_completeness auto
termination
  by (relation "measure length") (auto simp: less_Suc_eq dest: class_split_shorter)

section \<open>Matching\<close>

fun item_has :: "char \<Rightarrow> citem \<Rightarrow> bool" where
  "item_has x (CSingle c) = (x = c)"
| "item_has x (CRange a b) = (a \<le> x \<and> x \<le> b)"

fun tok_has :: "gtok \<Rightarrow> char \<Rightarrow> bool" where
  "tok_has GStar x = False"
| "tok_has GAny x = True"
| "tok_has (GLit c) x = (x = c)"
| "tok_has (GClass neg items) x = (list_ex (item_has x) items \<noteq> neg)"

fun glob_match :: "gtok list \<Rightarrow> string \<Rightarrow> bool" where
  "glob_match [] s = (s = [])"
| "glob_match (GStar # ts) [] = glob_match ts []"
| "glob_match (GStar # ts) (x # s) = (glob_match ts (x # s) \<or> glob_match (GStar # ts) s)"
| "glob_match (t # ts) [] = False"
| "glob_match (t # ts) (x # s) = (tok_has t x \<and> glob_match ts s)"

definition fnmatch :: "string \<Rightarrow> string \<Rightarrow> bool" where
  "fnmatch name pat = glob_match (glob_parse pat) name"

section \<open>Reference semantics\<close>

definition tok_lang :: "gtok \<Rightarrow> string set" where
  "tok_lang t = (if t = GStar then UNIV else {[x] | x. tok_has t x})"

fun glob_lang :: "gtok list \<Rightarrow> string set" where
  "glob_lang [] = {[]}"
| "glob_lang (t # ts) = {u @ v | u v. u \<in> tok_lang t \<and> v \<in> glob_lang ts}"

lemma glob_match_star: "glob_match (GStar # ts) s \<longleftrightarrow> (\<exists>u v. s = u @ v \<and> glob_match ts v)"
proof (induction s)
  case Nil
  then show ?case by simp
next
  case (Cons x s)
  have "(\<exists>u v. x # s = u @ v \<and> glob_match ts v) \<longleftrightarrow>
      glob_match ts (x # s) \<or> (\<exists>u v. s = u @ v \<and> glob_match ts v)"
    by (metis append_Cons append_Nil list.exhaust list.inject)
  then show ?case by (simp add: Cons.IH)
qed

lemma glob_match_tok:
  "t \<noteq> GStar \<Longrightarrow> glob_match (t # ts) s \<longleftrightarrow> (\<exists>x v. s = x # v \<and> tok_has t x \<and> glob_match ts v)"
  by (cases t; cases s) auto

lemma glob_match_lang: "glob_match ts s \<longleftrightarrow> s \<in> glob_lang ts"
proof (induction ts arbitrary: s)
  case Nil
  then show ?case by simp
next
  case (Cons t ts)
  show ?case
  proof (cases "t = GStar")
    case True
    then show ?thesis using Cons.IH by (auto simp: tok_lang_def glob_match_star)
  next
    case False
    then show ?thesis
      using Cons.IH by (simp add: glob_match_tok tok_lang_def) (metis append_Cons append_Nil)
  qed
qed

section \<open>Patterns without special characters\<close>

definition plain :: "string \<Rightarrow> bool" where
  "plain s = (set s \<inter> {CHR ''*'', CHR ''?'', CHR ''[''} = {})"

lemma glob_parse_plain_append: "plain p \<Longrightarrow> glob_parse (p @ q) = map GLit p @ glob_parse q"
  by (induction p) (auto simp: plain_def)

lemma glob_match_lits:
  "glob_match (map GLit p @ ts) s \<longleftrightarrow> (\<exists>v. s = p @ v \<and> glob_match ts v)"
proof (induction p arbitrary: s)
  case Nil
  then show ?case by simp
next
  case (Cons c p)
  then show ?case by (auto simp: glob_match_tok)
qed

lemma glob_match_stars [simp]: "glob_match [GStar] s" "glob_match [GStar, GStar] s"
  by (auto simp: glob_match_star)

text \<open>A name matches a pattern exactly when it is a concatenation of words of the pattern's tokens.\<close>

lemma fnmatch_language: "fnmatch name pat \<longleftrightarrow> name \<in> glob_lang (glob_parse pat)"
  by (simp add: fnmatch_def glob_match_lang)

end
