(* ===== verification/Router.thy ===== *)
theory Router
  imports Http Glob
begin

text \<open>
  The routing engine of \<open>gateway/core/router.py\<close>: route matching for HTTP, WebSocket and
  gRPC requests, hot replacement of the route table, and the choice of an upstream target.
  Regular expression matching (\<open>re.fullmatch\<close>) and the process's string hash are arguments;
  so is the number that \<open>random.random()\<close> draws.
\<close>

section \<open>Matching\<close>

definition protocol_from_request :: "request \<Rightarrow> Protocol" where
  "protocol_from_request r =
     (let ct = header_or r ''content-type'' [];
          upg = lower (header_or r ''upgrade'' [])
      in if upg = ''websocket'' then WEBSOCKET
         else if startswith ct ''application/grpc'' then GRPC
         else HTTP)"

type_synonym regex_engine = "string \<Rightarrow> string \<Rightarrow> bool outcome"

definition match_path :: "regex_engine \<Rightarrow> string \<Rightarrow> string \<Rightarrow> bool outcome" where
  "match_path re pattern path =
     (if startswith pattern ''~'' then re (drop 1 pattern) path
      else if is_in ''**'' pattern \<or> is_in ''*'' pattern then Inr (fnmatch path pattern)
      else Inr (path = pattern))"

fun match_headers :: "(string, string) dict \<Rightarrow> (string, string) dict \<Rightarrow> bool" where
  "match_headers [] actual = True"
| "match_headers ((key, value) # required) actual =
     (if dict_get_default actual (lower key) [] \<noteq> value then False
      else match_headers required actual)"

definition host_mismatch :: "MatchConfig \<Rightarrow> string \<Rightarrow> bool" where
  "host_mismatch m host = (case m_host m of None \<Rightarrow> False | Some h \<Rightarrow> h \<noteq> [] \<and> h \<notin> {host, ''*''})"

fun match_loop :: "regex_engine \<Rightarrow> Protocol \<Rightarrow> string \<Rightarrow> string \<Rightarrow> string \<Rightarrow> (string, string) dict \<Rightarrow>
    RouteConfig list \<Rightarrow> RouteConfig option outcome" where
  "match_loop re protocol path meth host headers [] = Inr None"
| "match_loop re protocol path meth host headers (route # routes) =
     (let m = r_match route; continue = match_loop re protocol path meth host headers routes
      in if upper (m_protocol m) \<noteq> upper (protocol_value protocol) then continue
         else if host_mismatch m host then continue
         else (case match_path re (m_path m) path of
                 Inl e \<Rightarrow> Inl e
               | Inr ok \<Rightarrow>
                   if \<not> ok then continue
                   else if protocol = HTTP \<and> meth \<notin> set (map upper (m_methods m)) then continue
                   else if m_headers m \<noteq> [] \<and> \<not> match_headers (m_headers m) headers then continue
                   else Inr (Some route)))"

fun match_grpc_loop :: "regex_engine \<Rightarrow> string \<Rightarrow> string \<Rightarrow> (string, string) dict \<Rightarrow>
    RouteConfig list \<Rightarrow> RouteConfig option outcome" where
  "match_grpc_loop re path host headers [] = Inr None"
| "match_grpc_loop re path host headers (route # routes) =
     (let m = r_match route; continue = match_grpc_loop re path host headers routes
      in if upper (m_protocol m) \<noteq> upper (protocol_value GRPC) then continue
         else if host_mismatch m host then continue
         else (case match_path re (m_path m) path of
                 Inl e \<Rightarrow> Inl e
               | Inr ok \<Rightarrow>
                   if \<not> ok then continue
                   else if m_headers m \<noteq> [] \<and> \<not> match_headers (m_headers m) headers then continue
                   else Inr (Some route)))"

record RoutingEngine =
  routes :: "RouteConfig list"
  round_robin_counters :: "(string, nat) dict"

definition new_RoutingEngine :: RoutingEngine where
  "new_RoutingEngine = \<lparr>routes = [], round_robin_counters = []\<rparr>"

definition update_routes :: "RouteConfig list \<Rightarrow> RoutingEngine \<Rightarrow> RoutingEngine" where
  "update_routes rs e =
     (let active_ids = set (map r_id rs)
      in e\<lparr>routes := rs,
           round_robin_counters := filter (\<lambda>(rid, _). rid \<in> active_ids) (round_robin_counters e)\<rparr>)"

definition match_request :: "regex_engine \<Rightarrow> RoutingEngine \<Rightarrow> request \<Rightarrow> RouteConfig option outcome" where
  "match_request re e r =
     match_loop re (protocol_from_request r) (rq_path r) (upper (rq_method r))
       (header_or r ''host'' []) (headers_dict (rq_headers r)) (routes e)"

definition match_grpc :: "regex_engine \<Rightarrow> RoutingEngine \<Rightarrow> string \<Rightarrow> string \<Rightarrow> (string, string) dict \<Rightarrow>
    RouteConfig option outcome" where
  "match_grpc re e path host headers = match_grpc_loop re path host headers (routes e)"

section \<open>Choosing a target\<close>

text \<open>\<open>itertools.accumulate\<close> and \<open>bisect.bisect\<close>, which \<open>random.choices\<close> is built from.\<close>

fun accumulate :: "int \<Rightarrow> int list \<Rightarrow> int list" where
  "accumulate a [] = []"
| "accumulate a (w # ws) = (a + w) # accumulate (a + w) ws"

function bisect :: "int list \<Rightarrow> rat \<Rightarrow> nat \<Rightarrow> nat \<Rightarrow> nat" where
  "bisect a x lo hi =
     (if lo < hi then
        (let mid = (lo + hi) div 2
         in if x < of_int (a ! mid) then bisect a x lo mid else bisect a x (mid + 1) hi)
      else lo)"
  by pat_completeness auto
termination
  by (relation "measure (\<lambda>(a, x, lo, hi). hi - lo)") auto

declare bisect.simps [simp del]

definition choices :: "rat \<Rightarrow> 'a list \<Rightarrow> int list \<Rightarrow> 'a outcome" where
  "choices u population weights =
     (let cum_weights = accumulate 0 weights; total = last cum_weights
      in if total \<le> 0 then Inl (ValueError ''Total of weights must be greater than zero'')
         else Inr (population ! bisect cum_weights (u * of_int total) 0 (length population - 1)))"

definition upstream_info :: "RouteConfig \<Rightarrow> UpstreamTarget \<Rightarrow> UpstreamInfo" where
  "upstream_info route target =
     \<lparr>ui_url = t_url target,
      ui_protocol = dict_get_default protocol_members (upper (u_type (r_upstream route))) HTTP,
      ui_weight = t_weight target\<rparr>"

definition select_hash_key :: "GatewayContext \<Rightarrow> string" where
  "select_hash_key c =
     (if upstream_hash_key c \<noteq> [] then upstream_hash_key c
      else if rate_limit_key c \<noteq> [] then rate_limit_key c
      else request_id c)"

definition resolve_upstream :: "(string \<Rightarrow> int) \<Rightarrow> rat \<Rightarrow> RouteConfig \<Rightarrow> GatewayContext \<Rightarrow>
    (RoutingEngine, UpstreamInfo option) act" where
  "resolve_upstream py_hash u route c e =
     (let targets = u_targets (r_upstream route); strategy = u_load_balance (r_upstream route)
      in if targets = [] then (Inr None, e)
         else if strategy = ''random'' then
           (case choices u targets (map t_weight targets) of
              Inl x \<Rightarrow> (Inl x, e)
            | Inr target \<Rightarrow> (Inr (Some (upstream_info route target)), e))
         else if strategy = ''ip_hash'' then
           (let idx = nat (py_hash (select_hash_key c) mod int (length targets))
            in (Inr (Some (upstream_info route (targets ! idx))), e))
         else
           (let n = dict_get_default (round_robin_counters e) (r_id route) 0;
                idx = n mod length targets;
                e' = e\<lparr>round_robin_counters := dict_set (r_id route) (n + 1) (round_robin_counters e)\<rparr>
            in (Inr (Some (upstream_info route (targets ! idx))), e')))"

section \<open>First match wins\<close>

text \<open>
  What both matching loops promise: they try the routes in order, the first accepted one is the
  result, an error of a check ends the search.
\<close>

locale first_match =
  fixes check :: "'r \<Rightarrow> bool outcome" and search :: "'r list \<Rightarrow> 'r option outcome"
  assumes search_Nil: "search [] = Inr None"
    and search_hit: "check r = Inr True \<Longrightarrow> search (r # rs) = Inr (Some r)"
    and search_skip: "check r = Inr False \<Longrightarrow> search (r # rs) = search rs"
    and search_fail: "check r = Inl x \<Longrightarrow> search (r # rs) = Inl x"
begin

lemmas search_simps = search_Nil search_hit search_skip search_fail

lemma search_append_skip:
  "\<forall>r \<in> set pre. check r = Inr False \<Longrightarrow> search (pre @ rs) = search rs"
  by (induction pre) (auto simp: search_simps)

lemma search_Some_iff:
  "search rs = Inr (Some r) \<longleftrightarrow>
     (\<exists>pre post. rs = pre @ r # post \<and> (\<forall>p \<in> set pre. check p = Inr False) \<and> check r = Inr True)"
proof
  show "search rs = Inr (Some r) \<Longrightarrow> \<exists>pre post. rs = pre @ r # post \<and>
      (\<forall>p \<in> set pre. check p = Inr False) \<and> check r = Inr True"
  proof (induction rs)
    case Nil
    then show ?case by (simp add: search_Nil)
  next
    case (Cons x rs)
    consider e where "check x = Inl e" | "check x = Inr True" | "check x = Inr False"
      by (metis (full_types) sum.exhaust)
    then show ?case
    proof cases
      case 1
      with Cons.prems show ?thesis by (simp add: search_fail)
    next
      case 2
      with Cons.prems have "x # rs = [] @ r # rs" and "check r = Inr True"
        by (simp_all add: search_hit)
      then show ?thesis by (metis empty_iff list.set(1))
    next
      case 3
      with Cons obtain pre post where "rs = pre @ r # post"
        "\<forall>p \<in> set pre. check p = Inr False" "check r = Inr True"
        by (auto simp: search_skip)
      with 3 have "x # rs = (x # pre) @ r # post" "\<forall>p \<in> set (x # pre). check p = Inr False"
        by auto
      with \<open>check r = Inr True\<close> show ?thesis by blast
    qed
  qed
next
  assume "\<exists>pre post. rs = pre @ r # post \<and>
      (\<forall>p \<in> set pre. check p = Inr False) \<and> check r = Inr True"
  then show "search rs = Inr (Some r)" by (auto simp: search_append_skip search_hit)
qed

lemma search_None_iff: "search rs = Inr None \<longleftrightarrow> (\<forall>r \<in> set rs. check r = Inr False)"
proof (induction rs)
  case Nil
  then show ?case by (simp add: search_Nil)
next
  case (Cons x rs)
  consider e where "check x = Inl e" | "check x = Inr True" | "check x = Inr False"
    by (metis (full_types) sum.exhaust)
  then show ?case by cases (simp_all add: search_simps Cons.IH)
qed

end

text \<open>The condition each loop checks, in one piece.\<close>

definition http_accepts :: "regex_engine \<Rightarrow> Protocol \<Rightarrow> string \<Rightarrow> string \<Rightarrow> string \<Rightarrow>
    (string, string) dict \<Rightarrow> RouteConfig \<Rightarrow> bool outcome" where
  "http_accepts re protocol path meth host headers route =
     (let m = r_match route
      in if upper (m_protocol m) = upper (protocol_value protocol) \<and> \<not> host_mismatch m host
         then map_sum id (\<lambda>ok. ok \<and> (protocol = HTTP \<longrightarrow> meth \<in> set (map upper (m_methods m))) \<and>
                match_headers (m_headers m) headers) (match_path re (m_path m) path)
         else Inr False)"

definition grpc_accepts :: "regex_engine \<Rightarrow> string \<Rightarrow> string \<Rightarrow> (string, string) dict \<Rightarrow>
    RouteConfig \<Rightarrow> bool outcome" where
  "grpc_accepts re path host headers route =
     (let m = r_match route
      in if upper (m_protocol m) = upper (protocol_value GRPC) \<and> \<not> host_mismatch m host
         then map_sum id (\<lambda>ok. ok \<and> match_headers (m_headers m) headers) (match_path re (m_path m) path)
         else Inr False)"

interpretation http_routes: first_match
  "http_accepts re protocol path meth host headers" "match_loop re protocol path meth host headers"
  for re protocol path meth host headers
  by unfold_locales
     (auto simp: http_accepts_def Let_def split: if_splits sum.splits)

interpretation grpc_routes: first_match
  "grpc_accepts re path host headers" "match_grpc_loop re path host headers"
  for re path host headers
  by unfold_locales
     (auto simp: grpc_accepts_def Let_def split: if_splits sum.splits)

lemma match_headers_iff:
  "match_headers required actual \<longleftrightarrow>
     (\<forall>(k, v) \<in> set required. dict_get_default actual (lower k) [] = v)"
  by (induction required) (auto split: if_splits)

section \<open>Path patterns\<close>

lemma match_path_exact:
  "plain pattern \<Longrightarrow> \<not> startswith pattern ''~'' \<Longrightarrow> match_path re pattern path = Inr (path = pattern)"
  by (auto simp: match_path_def plain_def is_in_iff)

lemma fnmatch_subtree: "plain p \<Longrightarrow> fnmatch path (p @ ''/**'') \<longleftrightarrow> startswith path (p @ ''/'')"
proof -
  assume "plain p"
  then have "plain (p @ ''/'')" by (simp add: plain_def)
  then have "glob_parse (p @ ''/**'') = map GLit (p @ ''/'') @ [GStar, GStar]"
    using glob_parse_plain_append [of "p @ ''/''" "''**''"] by simp
  then show ?thesis
    by (simp only: fnmatch_def glob_match_lits glob_match_stars simp_thms startswith_iff)
qed

section \<open>Target choice\<close>

lemma length_accumulate [simp]: "length (accumulate a ws) = length ws"
  by (induction ws arbitrary: a) auto

lemma accumulate_nth:
  "i < length ws \<Longrightarrow> accumulate a ws ! i = a + sum_list (take (Suc i) ws)"
proof (induction ws arbitrary: a i)
  case Nil
  then show ?case by simp
next
  case (Cons w ws)
  then show ?case by (cases i) auto
qed

lemma accumulate_step:
  "Suc i < length ws \<Longrightarrow> accumulate 0 ws ! Suc i = accumulate 0 ws ! i + ws ! Suc i"
  by (simp add: accumulate_nth take_Suc_conv_app_nth)

lemma bisect_range: "lo \<le> hi \<Longrightarrow> lo \<le> bisect a x lo hi \<and> bisect a x lo hi \<le> hi"
proof (induction a x lo hi rule: bisect.induct)
  case (1 a x lo hi)
  show ?case
  proof (cases "lo < hi")
    case True
    then have "lo \<le> (lo + hi) div 2" "(lo + hi) div 2 < hi" by auto
    then show ?thesis
      using 1(1) [OF True refl] 1(2) [OF True refl] True
      by (subst (1 2) bisect.simps) (force simp: Let_def)
  next
    case False
    with 1(3) show ?thesis by (subst (1 2) bisect.simps) simp
  qed
qed

text \<open>Left of the result the entries are at most \<open>x\<close>, at the result the entry is above it.\<close>

lemma bisect_bounds:
  assumes "lo \<le> hi" and "lo = 0 \<or> of_int (a ! (lo - 1)) \<le> x" and "hi \<le> m" and "x < of_int (a ! hi)"
  shows "(bisect a x lo hi = 0 \<or> of_int (a ! (bisect a x lo hi - 1)) \<le> x) \<and>
         x < of_int (a ! bisect a x lo hi)"
  using assms
proof (induction a x lo hi rule: bisect.induct)
  case (1 a x lo hi)
  show ?case
  proof (cases "lo < hi")
    case True
    let ?mid = "(lo + hi) div 2"
    show ?thesis
    proof (cases "x < of_int (a ! ?mid)")
      case left: True
      then have "bisect a x lo hi = bisect a x lo ?mid"
        using True by (subst bisect.simps) (simp add: Let_def)
      moreover have "lo \<le> ?mid" "?mid \<le> m" using True 1(5) by auto
      ultimately show ?thesis using 1(1) [OF True refl left] 1(4) left by simp
    next
      case right: False
      then have "bisect a x lo hi = bisect a x (?mid + 1) hi"
        using True by (subst bisect.simps) (simp add: Let_def)
      moreover have "?mid + 1 \<le> hi" using True by auto
      ultimately show ?thesis using 1(2) [OF True refl right] 1(5,6) right by simp
    qed
  next
    case False
    with 1 show ?thesis by (subst (1 2 3) bisect.simps) (auto simp: le_antisym)
  qed
qed

lemma count_round_robin_block:
  assumes "j < n"
  shows "count_list (map (\<lambda>i. (c + i) mod n) [0..<n]) j = 1"
proof (induction c)
  case 0
  have "map (\<lambda>i. (0 + i) mod n) [0..<n] = [0..<n]"
    by (rule map_idI) simp
  moreover have "count_list [0..<n] j = 1"
    using assms by (induction n) (auto simp: count_list_0_iff less_Suc_eq)
  ultimately show ?case by simp
next
  case (Suc c)
  let ?f = "\<lambda>i. (c + i) mod n"
  have split0: "[0..<n] = 0 # [1..<n]" using assms by (simp add: upt_conv_Cons)
  have shift: "map (\<lambda>i. (Suc c + i) mod n) [0..<n] = map ?f [1..<Suc n]"
    by (simp only: One_nat_def map_Suc_upt [symmetric] map_map o_def add_Suc_right add_Suc)
  have "[1..<Suc n] = [1..<n] @ [n]" using assms by simp
  then have "count_list (map ?f [1..<Suc n]) j = count_list (map ?f [1..<n] @ [?f 0]) j"
    by simp
  also have "\<dots> = count_list (map ?f (0 # [1..<n])) j" by simp
  also have "\<dots> = 1" using Suc.IH split0 by simp
  finally show ?case by (simp only: shift)
qed

lemma count_round_robin:
  assumes "j < n"
  shows "count_list (map (\<lambda>i. (c + i) mod n) [0..<m * n]) j = m"
proof (induction m)
  case 0
  then show ?case by simp
next
  case (Suc m)
  let ?f = "\<lambda>i. (c + i) mod n"
  have a: "[0..<Suc m * n] = [0..<m * n] @ map (\<lambda>i. m * n + i) [0..<n]"
    using upt_add_eq_append [of 0 "m * n" n] by (simp add: map_add_upt add.commute)
  have b: "map ?f (map (\<lambda>i. m * n + i) [0..<n]) = map ?f [0..<n]"
    by (simp add: add.left_commute [of c])
  show ?case
    by (simp only: a b map_append count_list_append Suc.IH count_round_robin_block [OF assms])
qed

text \<open>Selecting repeatedly for one route, nothing else happening in between.\<close>

fun resolve_times :: "(string \<Rightarrow> int) \<Rightarrow> rat \<Rightarrow> RouteConfig \<Rightarrow> GatewayContext \<Rightarrow> nat \<Rightarrow>
    RoutingEngine \<Rightarrow> UpstreamInfo option outcome list \<times> RoutingEngine" where
  "resolve_times h u route c 0 e = ([], e)"
| "resolve_times h u route c (Suc k) e =
     (let (r, e1) = resolve_upstream h u route c e; (rs, e2) = resolve_times h u route c k e1
      in (r # rs, e2))"

definition round_robin :: "RouteConfig \<Rightarrow> bool" where
  "round_robin route \<longleftrightarrow>
     u_targets (r_upstream route) \<noteq> [] \<and> u_load_balance (r_upstream route) \<notin> {''random'', ''ip_hash''}"

definition rr_counter :: "RouteConfig \<Rightarrow> RoutingEngine \<Rightarrow> nat" where
  "rr_counter route e = dict_get_default (round_robin_counters e) (r_id route) 0"

definition rr_pick :: "RouteConfig \<Rightarrow> nat \<Rightarrow> UpstreamInfo option outcome" where
  "rr_pick route n =
     (let targets = u_targets (r_upstream route)
      in Inr (Some (upstream_info route (targets ! (n mod length targets)))))"

lemma resolve_round_robin:
  assumes "round_robin route"
  shows "fst (resolve_upstream h u route c e) = rr_pick route (rr_counter route e)"
    and "rr_counter route (snd (resolve_upstream h u route c e)) = Suc (rr_counter route e)"
  using assms
  by (auto simp: round_robin_def resolve_upstream_def Let_def rr_pick_def rr_counter_def
        dict_get_default_def update_conv)

lemma resolve_times_round_robin:
  assumes "round_robin route"
  shows "fst (resolve_times h u route c k e) = map (\<lambda>i. rr_pick route (rr_counter route e + i)) [0..<k]"
proof (induction k arbitrary: e)
  case 0
  then show ?case by simp
next
  case (Suc k)
  obtain r e1 where r: "resolve_upstream h u route c e = (r, e1)" by (cases "resolve_upstream h u route c e")
  then have "r = rr_pick route (rr_counter route e)" and c1: "rr_counter route e1 = Suc (rr_counter route e)"
    using resolve_round_robin [OF assms, of h u c e] by auto
  moreover have "map (\<lambda>i. rr_pick route (rr_counter route e + i)) [0..<Suc k] =
      rr_pick route (rr_counter route e) # map (\<lambda>i. rr_pick route (rr_counter route e1 + i)) [0..<k]"
    by (simp add: c1 upt_conv_Cons del: upt_Suc) (simp only: map_Suc_upt [symmetric] map_map o_def add_Suc_right)
  moreover have "fst (resolve_times h u route c (Suc k) e) = r # fst (resolve_times h u route c k e1)"
    by (simp add: r Let_def split_beta)
  ultimately show ?case using Suc.IH [of e1] by simp
qed

lemma count_list_map_inj_on:
  "inj_on f (insert y (set xs)) \<Longrightarrow> count_list (map f xs) (f y) = count_list xs y"
  by (induction xs) (auto simp: inj_on_def)

section \<open>Properties\<close>

lemma match_path_prefix:
  assumes "plain p" and "\<not> startswith p ''~''" and "p \<noteq> []"
  shows "match_path re (p @ ''/**'') path = Inr (startswith path (p @ ''/''))"
proof -
  have "\<not> startswith (p @ ''/**'') ''~''"
    using assms(2,3) by (cases p) (auto simp: startswith_def)
  moreover have "is_in ''**'' (p @ ''/**'')" by (auto simp: is_in_iff intro: exI [of _ "p @ ''/''"])
  ultimately show ?thesis using fnmatch_subtree [OF assms(1)] by (simp add: match_path_def)
qed

text \<open>
  C6. The routing engine returns a route exactly when some position of the table holds
  it, it accepts the request, and every route before it rejects the request: declaration order
  decides, the first match wins.
\<close>
theorem match_request_first_wins:
  "match_request re e r = Inr (Some route) \<longleftrightarrow>
     (let accepts = http_accepts re (protocol_from_request r) (rq_path r) (upper (rq_method r))
            (header_or r ''host'' []) (headers_dict (rq_headers r))
      in \<exists>pre post. routes e = pre @ route # post \<and> list_all (\<lambda>p. accepts p = Inr False) pre \<and>
           accepts route = Inr True)"
  by (simp only: match_request_def http_routes.search_Some_iff Let_def list_all_iff)

text \<open>
  A pattern that is a plain prefix followed by slash and two stars accepts exactly
  the paths below that prefix (the prefix with the slash), at any depth, and not the prefix
  itself; no regular expression is consulted.
\<close>
theorem match_path_subtree:
  assumes "plain p" and "\<not> startswith p ''~''" and "p \<noteq> []"
  shows "match_path re (p @ ''/**'') path = Inr (startswith path (p @ ''/''))"
  using assms by (rule match_path_prefix)

lemma match_path_subtree_witness:
  "match_path (\<lambda>_ _. Inl RegexError) ''/api/v1/**'' ''/api/v1/users/7'' = Inr True \<and>
   match_path (\<lambda>_ _. Inl RegexError) ''/api/v1/**'' ''/api/v1'' = Inr False"
  using match_path_subtree [of "''/api/v1''" "\<lambda>_ _. Inl RegexError" "''/api/v1/users/7''"]
    match_path_subtree [of "''/api/v1''" "\<lambda>_ _. Inl RegexError" "''/api/v1''"]
  by (simp add: plain_def startswith_def)

text \<open>
  C35. Round robin is fair: among the first \<open>m * n\<close> selections for a route with
  \<open>n\<close> targets of distinct addresses, from any counter, each target is selected exactly
  \<open>m\<close> times.
\<close>
theorem round_robin_fair:
  assumes "round_robin route" and "distinct (map t_url (u_targets (r_upstream route)))"
    and "t \<in> set (u_targets (r_upstream route))"
  shows "count_list (fst (resolve_times h u route c (m * length (u_targets (r_upstream route))) e))
           (Inr (Some (upstream_info route t))) = m"
proof -
  let ?ts = "u_targets (r_upstream route)"
  let ?pick = "\<lambda>j. Inr (Some (upstream_info route (?ts ! j))) :: UpstreamInfo option outcome"
  let ?idx = "map (\<lambda>i. (rr_counter route e + i) mod length ?ts) [0..<m * length ?ts]"
  obtain j where j: "j < length ?ts" "t = ?ts ! j" using assms(3) by (auto simp: in_set_conv_nth)
  have "fst (resolve_times h u route c (m * length ?ts) e) = map ?pick ?idx"
    by (simp add: resolve_times_round_robin [OF assms(1)] rr_pick_def Let_def o_def)
  moreover have "inj_on ?pick (insert j (set ?idx))"
  proof (rule inj_onI)
    fix a b
    assume ab: "a \<in> insert j (set ?idx)" "b \<in> insert j (set ?idx)" "?pick a = ?pick b"
    have "length ?ts > 0" using j by auto
    then have "a < length ?ts" "b < length ?ts" using ab j by auto
    moreover have "map t_url ?ts ! a = map t_url ?ts ! b"
      using ab(3) calculation by (simp add: upstream_info_def)
    ultimately show "a = b" using assms(2) by (simp add: nth_eq_iff_index_eq del: nth_map)
  qed
  ultimately show ?thesis
    using count_list_map_inj_on [of ?pick j ?idx] count_round_robin [OF j(1)] j(2) by simp
qed

definition two_targets :: "string \<Rightarrow> RouteConfig" where
  "two_targets strategy =
     default_RouteConfig ''users'' default_MatchConfig
       ((default_UpstreamConfig [\<lparr>t_url = ''http://a'', t_weight = 1\<rparr>, \<lparr>t_url = ''http://b'', t_weight = 1\<rparr>])
          \<lparr>u_load_balance := strategy\<rparr>)"

lemmas two_targets_simps =
  two_targets_def default_RouteConfig_def default_UpstreamConfig_def default_MatchConfig_def

lemma round_robin_fair_witness:
  "count_list (fst (resolve_times (\<lambda>_. 0) 0 (two_targets ''round_robin'') (new_context ''id'' 0) 6 new_RoutingEngine))
     (Inr (Some (upstream_info (two_targets ''round_robin'') \<lparr>t_url = ''http://b'', t_weight = 1\<rparr>))) = 3"
  using round_robin_fair [of "two_targets ''round_robin''" "\<lparr>t_url = ''http://b'', t_weight = 1\<rparr>"
      "\<lambda>_. 0" 0 "new_context ''id'' 0" 3 new_RoutingEngine]
  by (simp add: two_targets_simps round_robin_def)

text \<open>
  Weighted random choice never selects a target of weight 0: for weights that are
  not negative with a positive total and a draw in the unit interval, \<open>choices\<close> returns
  one of the targets, and one of positive weight.
\<close>
theorem choices_positive_weight:
  assumes "length ws = length ts" and "\<forall>w \<in> set ws. 0 \<le> w" and "0 < sum_list ws"
    and "0 \<le> u" and "u < 1"
  shows "\<exists>i < length ts. choices u ts ws = Inr (ts ! i) \<and> 0 < ws ! i"
proof -
  let ?a = "accumulate 0 ws" and ?hi = "length ts - 1"
  have ne: "ws \<noteq> []" using assms(3) by auto
  then have hi: "?hi < length ws" and "?hi = length ?a - 1" using assms(1) by (cases ts; simp)+
  moreover have "?a \<noteq> []" using ne by (metis length_0_conv length_accumulate)
  ultimately have total: "last ?a = sum_list ws" and top: "?a ! ?hi = sum_list ws"
    using ne assms(1) by (simp_all add: last_conv_nth accumulate_nth)
  let ?x = "u * of_int (sum_list ws)"
  have x: "0 \<le> ?x" "?x < of_int (?a ! ?hi)"
    using assms(3-5) top by (simp_all add: mult_less_cancel_right2)
  define i where "i = bisect ?a ?x 0 ?hi"
  have i: "i \<le> ?hi" using bisect_range [of 0 ?hi] by (simp add: i_def)
  have b: "(i = 0 \<or> of_int (?a ! (i - 1)) \<le> ?x) \<and> ?x < of_int (?a ! i)"
    unfolding i_def by (rule bisect_bounds [of 0 _ _ _ ?hi]) (use x in auto)
  have "0 < ws ! i"
  proof (cases i)
    case 0
    then have "(0::rat) < of_int (ws ! 0)" using b x hi i ne by (cases ws) auto
    then show ?thesis using 0 by simp
  next
    case (Suc k)
    then have "?a ! Suc k = ?a ! k + ws ! Suc k" using i hi by (intro accumulate_step) auto
    moreover have "(of_int (?a ! k) :: rat) < of_int (?a ! Suc k)" using b Suc by auto
    ultimately show ?thesis using Suc by simp
  qed
  moreover have "choices u ts ws = Inr (ts ! i)"
    using total assms(3) by (simp add: choices_def Let_def i_def)
  moreover have "i < length ts" using i hi assms(1) ne by (cases ts) auto
  ultimately show ?thesis by blast
qed

lemma choices_positive_weight_witness:
  "\<exists>i < length [''a'', ''b'', ''c'']. choices (1 / 2) [''a'', ''b'', ''c''] [1, 0, 1] = Inr ([''a'', ''b'', ''c''] ! i) \<and>
     0 < [1, 0, 1 :: int] ! i"
  by (rule choices_positive_weight) auto

text \<open>
  Hot reload keeps the rotation of the routes that stay and forgets the others:
  after \<open>update_routes\<close> the table is the new one, the counter of a route of the new table is
  the old one, and no counter of another route is left.
\<close>
theorem update_routes_counters:
  "routes (update_routes rs e) = rs \<and>
   (\<forall>rid. dict_get (round_robin_counters (update_routes rs e)) rid =
      (if rid \<in> r_id ` set rs then dict_get (round_robin_counters e) rid else None))"
  by (simp add: update_routes_def Let_def dict_get_filter_key)

text \<open>
  With \<open>ip_hash\<close> a route that has targets always gets one of them, the choice
  depends on nothing but the selection key (two contexts with one key get one target, whatever
  the engine's state), and the engine's state is unchanged.
\<close>
theorem ip_hash_sticky:
  assumes "u_load_balance (r_upstream route) = ''ip_hash''" and "u_targets (r_upstream route) \<noteq> []"
    and "select_hash_key c = select_hash_key c'"
  shows "\<exists>t \<in> set (u_targets (r_upstream route)).
           resolve_upstream h u route c e = (Inr (Some (upstream_info route t)), e) \<and>
           resolve_upstream h u' route c' e' = (Inr (Some (upstream_info route t)), e')"
proof -
  let ?ts = "u_targets (r_upstream route)"
  let ?i = "nat (h (select_hash_key c) mod int (length ?ts))"
  have "0 < int (length ?ts)" using assms(2) by simp
  then have "?i < length ?ts" by (metis nat_less_iff pos_mod_bound pos_mod_sign)
  then have "?ts ! ?i \<in> set ?ts" by simp
  then show ?thesis using assms
    by (intro bexI [of _ "?ts ! ?i"]) (simp_all add: resolve_upstream_def Let_def)
qed

lemma ip_hash_sticky_witness:
  "\<exists>t \<in> set (u_targets (r_upstream (two_targets ''ip_hash''))).
     resolve_upstream (\<lambda>s. - 7) 0 (two_targets ''ip_hash'') (new_context ''id'' 0) new_RoutingEngine =
       (Inr (Some (upstream_info (two_targets ''ip_hash'') t)), new_RoutingEngine) \<and>
     resolve_upstream (\<lambda>s. - 7) 1 (two_targets ''ip_hash'') (new_context ''id'' 5) new_RoutingEngine =
       (Inr (Some (upstream_info (two_targets ''ip_hash'') t)), new_RoutingEngine)"
  by (rule ip_hash_sticky) (simp_all add: two_targets_simps select_hash_key_def new_context_def)

end
