(* ===== verification/World.thy ===== *)
theory World
  imports Http
begin

text \<open>
  What a request meets while it passes through the gateway. The record of external operations
  holds the services and libraries the data plane calls (Redis, the HTTP client, the JWT library,
  clocks); the gateway state holds the request's context, the module-level caches, the access log
  and the state of the world outside, on which the external operations act. The state is shared by
  all plugins of a chain, as the context object is in the code.
\<close>

section \<open>External operations\<close>

record http_call =
  hc_method :: string
  hc_url :: string
  hc_headers :: "(string, string) dict"
  hc_content :: string
  hc_timeout :: rat

record http_reply =
  hr_status :: int
  hr_headers :: "(string, string) dict"
  hr_content :: string

text \<open>A decoded token; the JWT library rejects a \<open>sub\<close> claim that is not a string.\<close>

record jwt_claims =
  jc_sub :: "string option"
  jc_scope :: "json option"
  jc_all :: "(string, json) dict"

record bucket =
  b_tokens :: rat
  b_last_refill :: rat
  b_ttl :: int

type_synonym script = "bucket option \<Rightarrow> rat \<Rightarrow> rat \<Rightarrow> rat \<Rightarrow> int outcome \<times> bucket"

record 'w env =
  redis_ready :: "'w \<Rightarrow> bool"
  redis_client_id :: "'w \<Rightarrow> int"
  redis_exists :: "string \<Rightarrow> ('w, bool) act"
  redis_ttl :: "string \<Rightarrow> ('w, int) act"
  redis_getkey :: "string \<Rightarrow> ('w, string option) act"
  redis_set_ex :: "string \<Rightarrow> string \<Rightarrow> int \<Rightarrow> ('w, unit) act"
  redis_set_nx_ex :: "string \<Rightarrow> string \<Rightarrow> int \<Rightarrow> ('w, bool) act"
  redis_delete :: "string \<Rightarrow> ('w, unit) act"
  redis_incr :: "string \<Rightarrow> ('w, int) act"
  redis_expire :: "string \<Rightarrow> json \<Rightarrow> ('w, unit) act"
  redis_script_load :: "script \<Rightarrow> ('w, string) act"
  redis_evalsha :: "string \<Rightarrow> string \<Rightarrow> json \<Rightarrow> rat \<Rightarrow> rat \<Rightarrow> ('w, int) act"
  clock :: "'w \<Rightarrow> rat"
  http_request :: "http_call \<Rightarrow> ('w, http_reply) act"
  sleep :: "rat \<Rightarrow> ('w, unit) act"
  fetch_json :: "json \<Rightarrow> ('w, json) act"
  jwt_decode :: "string \<Rightarrow> json \<Rightarrow> json \<Rightarrow> json option \<Rightarrow> json option \<Rightarrow> bool \<Rightarrow> jwt_claims outcome"
  config_digest :: "json \<Rightarrow> string"
  float_str :: "rat \<Rightarrow> string"

section \<open>Gateway state\<close>

record request_info =
  li_request_id :: string
  li_method :: string
  li_path :: string
  li_remote_addr :: string
  li_headers :: "(string, string) dict option"

datatype log_entry =
    RequestHandled request_info int rat string string
  | RequestFailed request_info exn

record 'w gw =
  ctx :: GatewayContext
  sha_cache :: "(int, string) dict"
  jwks_cache :: "(json, json) dict"
  access_log :: "log_entry list"
  world :: 'w

type_synonym 'w handler = "request \<Rightarrow> ('w gw, response) act"

definition on_world :: "('w, 'a) act \<Rightarrow> ('w gw, 'a) act" where
  "on_world m s = (case m (world s) of (r, w) \<Rightarrow> (r, s\<lparr>world := w\<rparr>))"

definition reads :: "('s \<Rightarrow> 'a) \<Rightarrow> ('s, 'a) act" where
  "reads f s = (Inr (f s), s)"

definition set_ctx :: "(GatewayContext \<Rightarrow> GatewayContext) \<Rightarrow> ('w gw, unit) act" where
  "set_ctx f s = (Inr (), s\<lparr>ctx := f (ctx s)\<rparr>)"

definition lift_outcome :: "'a outcome \<Rightarrow> ('s, 'a) act" where
  "lift_outcome r s = (r, s)"

text \<open>\<open>get_redis()\<close> of \<open>gateway/core/redis.py\<close> raises until the client is initialised.\<close>

definition get_redis :: "'w env \<Rightarrow> ('w gw, unit) act" where
  "get_redis env s =
     (if redis_ready env (world s) then (Inr (), s)
      else (Inl (RuntimeError ''Redis client is not initialized''), s))"

text \<open>\<open>str(v)\<close> of a configured number; floats are rendered by the interpreter.\<close>

fun json_str :: "'w env \<Rightarrow> json \<Rightarrow> string" where
  "json_str env (JInt i) = str_int i"
| "json_str env (JBool b) = (if b then ''True'' else ''False'')"
| "json_str env (JFloat r) = float_str env r"
| "json_str env (JStr s) = s"
| "json_str env JNull = ''None''"
| "json_str env v = []"

text \<open>\<open>request.headers.get(name)\<close> for a configured header name.\<close>

fun header_lookup :: "request \<Rightarrow> json \<Rightarrow> string option outcome" where
  "header_lookup r (JStr k) = Inr (header_get r k)"
| "header_lookup r _ = Inl (OtherError ''AttributeError'')"

lemma reads_apply [simp]: "reads f s = (Inr (f s), s)"
  by (simp add: reads_def)

lemma set_ctx_apply [simp]: "set_ctx f s = (Inr (), s\<lparr>ctx := f (ctx s)\<rparr>)"
  by (simp add: set_ctx_def)

lemma lift_outcome_apply [simp]: "lift_outcome r s = (r, s)"
  by (simp add: lift_outcome_def)

lemma on_world_apply: "m (world s) = (r, w) \<Longrightarrow> on_world m s = (r, s\<lparr>world := w\<rparr>)"
  by (simp add: on_world_def)

lemma get_redis_ready [simp]: "redis_ready env (world s) \<Longrightarrow> get_redis env s = (Inr (), s)"
  by (simp add: get_redis_def)

section \<open>One call of the next handler\<close>

text \<open>
  A wrapper of a handler is well behaved when it either answers without the inner handler, or
  calls it exactly once, with the same request, and only transforms what it returns. \<open>gate\<close>
  and \<open>wrap\<close> are the two shapes; every plugin of the gateway is shown to be one.
\<close>

type_synonym 's answer = "response outcome \<times> 's"

type_synonym 's plan = "'s answer + 's \<times> ('s answer \<Rightarrow> 's answer)"

definition follow :: "'s plan \<Rightarrow> ('s \<Rightarrow> 's answer) \<Rightarrow> 's answer" where
  "follow p inner = (case p of Inl out \<Rightarrow> out | Inr (s, post) \<Rightarrow> post (inner s))"

definition calls_once :: "((request \<Rightarrow> 's \<Rightarrow> 's answer) \<Rightarrow> request \<Rightarrow> 's \<Rightarrow> 's answer) \<Rightarrow> bool" where
  "calls_once m = (\<forall>req s. \<exists>p. \<forall>next. m next req s = follow p (next req))"

lemma follow_simps [simp]:
  "follow (Inl out) inner = out" "follow (Inr (s, post)) inner = post (inner s)"
  by (simp_all add: follow_def)

lemma calls_onceI: "(\<And>req s. \<exists>p. \<forall>next. m next req s = follow p (next req)) \<Longrightarrow> calls_once m"
  by (simp add: calls_once_def)

lemma calls_onceD: "calls_once m \<Longrightarrow> \<exists>p. \<forall>next. m next req s = follow p (next req)"
  by (simp add: calls_once_def)

text \<open>Shapes of straight-line code around one call, as rules for the goal of \<open>calls_onceI\<close>.\<close>

definition planned :: "((request \<Rightarrow> 's \<Rightarrow> 's answer) \<Rightarrow> 's answer) \<Rightarrow> request \<Rightarrow> bool" where
  "planned f req = (\<exists>p. \<forall>next. f next = follow p (next req))"

lemma planned_const: "planned (\<lambda>next. out) req"
  unfolding planned_def by (rule exI [of _ "Inl out"]) simp

lemma planned_call: "planned (\<lambda>next. next req s) req"
  unfolding planned_def by (rule exI [of _ "Inr (s, id)"]) simp

lemma planned_post: "planned f req \<Longrightarrow> planned (\<lambda>next. g (f next)) req"
  unfolding planned_def
proof (elim exE)
  fix p assume p: "\<forall>next. f next = follow p (next req)"
  show "\<exists>p. \<forall>next. g (f next) = follow p (next req)"
  proof (cases p)
    case (Inl out)
    with p show ?thesis by (intro exI [of _ "Inl (g out)"]) simp
  next
    case (Inr sp)
    with p show ?thesis by (intro exI [of _ "Inr (fst sp, g \<circ> snd sp)"]) (simp add: follow_def split_beta)
  qed
qed

lemma planned_if: "planned f req \<Longrightarrow> planned g req \<Longrightarrow> planned (\<lambda>next. if b then f next else g next) req"
  by (cases b) simp_all

lemma planned_if_app:
  "planned (\<lambda>next. f next s) req \<Longrightarrow> planned (\<lambda>next. g next s) req \<Longrightarrow>
   planned (\<lambda>next. (if b then f next else g next) s) req"
  by (cases b) simp_all

lemma planned_and_then:
  "(\<And>a t. m s = (Inr a, t) \<Longrightarrow> planned (\<lambda>next. f next a t) req) \<Longrightarrow>
   planned (\<lambda>next. and_then m (f next) s) req"
  by (cases "m s"; cases "fst (m s)") (auto simp: and_then_def planned_const)

lemma planned_post_and_then:
  "planned (\<lambda>next. f next s) req \<Longrightarrow> planned (\<lambda>next. and_then (f next) g s) req"
  unfolding and_then_def by (rule planned_post)

lemma planned_post_catching:
  "planned (\<lambda>next. f next s) req \<Longrightarrow> planned (\<lambda>next. catching (f next) g s) req"
  unfolding catching_def by (rule planned_post)

lemmas planned_intros =
  planned_if_app planned_and_then planned_post_catching planned_post_and_then planned_call planned_const

lemma calls_once_iff: "calls_once m \<longleftrightarrow> (\<forall>req s. planned (\<lambda>next. m next req s) req)"
  by (simp add: calls_once_def planned_def)

end
