(* ===== verification/DemoWorld.thy ===== *)
theory DemoWorld
  imports World
begin

text \<open>
  What the data plane relies on of Redis, as named conditions on the external operations, and an
  in-memory instance that meets them. The conditions describe single commands on live keys; no
  key expires between two commands of one call. The instance serves the closed examples only.
\<close>

section \<open>Conditions\<close>

text \<open>
  Commands on string keys: \<open>keys w k\<close> is the value a live key has. A positive expiry leaves
  the key live, \<open>SET\<close> refuses another one, \<open>SET NX\<close> answers whether it set the key,
  \<open>INCR\<close> counts in decimal text from a missing key up.
\<close>

definition string_server :: "'w env \<Rightarrow> ('w \<Rightarrow> string \<Rightarrow> string option) \<Rightarrow> bool" where
  "string_server env keys = (\<forall>w. redis_ready env w \<longrightarrow>
     (\<forall>k. redis_exists env k w = (Inr (keys w k \<noteq> None), w)) \<and>
     (\<forall>k. redis_getkey env k w = (Inr (keys w k), w)) \<and>
     (\<forall>k. \<exists>t. redis_ttl env k w = (Inr t, w)) \<and>
     (\<forall>k v ex. 0 < ex \<longrightarrow> (\<exists>w'. redis_set_ex env k v ex w = (Inr (), w') \<and> redis_ready env w' \<and>
        keys w' = (keys w)(k \<mapsto> v))) \<and>
     (\<forall>k v ex. ex \<le> 0 \<longrightarrow> (\<exists>x. redis_set_ex env k v ex w = (Inl x, w))) \<and>
     (\<forall>k v ex. keys w k \<noteq> None \<longrightarrow> redis_set_nx_ex env k v ex w = (Inr False, w)) \<and>
     (\<forall>k v ex. keys w k = None \<and> 0 < ex \<longrightarrow> (\<exists>w'. redis_set_nx_ex env k v ex w = (Inr True, w') \<and>
        redis_ready env w' \<and> keys w' = (keys w)(k \<mapsto> v))) \<and>
     (\<forall>k. \<exists>w'. redis_delete env k w = (Inr (), w') \<and> redis_ready env w' \<and> keys w' = (keys w)(k := None)) \<and>
     (\<forall>k n. keys w k = (if n = 0 then None else Some (str_nat n)) \<longrightarrow>
        (\<exists>w'. redis_incr env k w = (Inr (int (Suc n)), w') \<and> redis_ready env w' \<and>
           keys w' = (keys w)(k \<mapsto> str_nat (Suc n)))) \<and>
     (\<forall>k n. 0 < n \<longrightarrow> (\<exists>w'. redis_expire env k (JInt n) w = (Inr (), w') \<and> redis_ready env w' \<and>
        keys w' = keys w)))"

lemma string_server_reads:
  assumes "string_server env keys" and "redis_ready env w"
  shows "redis_exists env k w = (Inr (keys w k \<noteq> None), w)"
    and "redis_getkey env k w = (Inr (keys w k), w)"
    and "\<exists>t. redis_ttl env k w = (Inr t, w)"
    and "keys w k \<noteq> None \<Longrightarrow> redis_set_nx_ex env k v ex w = (Inr False, w)"
  using assms(1) [unfolded string_server_def, rule_format, OF assms(2)] by simp_all

lemma string_server_writes:
  assumes "string_server env keys" and "redis_ready env w"
  shows "0 < ex \<Longrightarrow> \<exists>w'. redis_set_ex env k v ex w = (Inr (), w') \<and> redis_ready env w' \<and> keys w' = (keys w)(k \<mapsto> v)"
    and "keys w k = None \<Longrightarrow> 0 < ex \<Longrightarrow> \<exists>w'. redis_set_nx_ex env k v ex w = (Inr True, w') \<and>
        redis_ready env w' \<and> keys w' = (keys w)(k \<mapsto> v)"
    and "\<exists>w'. redis_delete env k w = (Inr (), w') \<and> redis_ready env w' \<and> keys w' = (keys w)(k := None)"
    and "keys w k = (if n = 0 then None else Some (str_nat n)) \<Longrightarrow>
        \<exists>w'. redis_incr env k w = (Inr (int (Suc n)), w') \<and> redis_ready env w' \<and>
           keys w' = (keys w)(k \<mapsto> str_nat (Suc n))"
    and "0 < m \<Longrightarrow> \<exists>w'. redis_expire env k (JInt m) w = (Inr (), w') \<and> redis_ready env w' \<and> keys w' = keys w"
proof -
  note c = assms(1) [unfolded string_server_def, rule_format, OF assms(2)]
  show "0 < ex \<Longrightarrow> \<exists>w'. redis_set_ex env k v ex w = (Inr (), w') \<and> redis_ready env w' \<and> keys w' = (keys w)(k \<mapsto> v)"
    using c by simp
  show "keys w k = None \<Longrightarrow> 0 < ex \<Longrightarrow> \<exists>w'. redis_set_nx_ex env k v ex w = (Inr True, w') \<and>
        redis_ready env w' \<and> keys w' = (keys w)(k \<mapsto> v)"
    using c by simp
  show "\<exists>w'. redis_delete env k w = (Inr (), w') \<and> redis_ready env w' \<and> keys w' = (keys w)(k := None)"
    using c by simp
  show "keys w k = (if n = 0 then None else Some (str_nat n)) \<Longrightarrow>
        \<exists>w'. redis_incr env k w = (Inr (int (Suc n)), w') \<and> redis_ready env w' \<and>
           keys w' = (keys w)(k \<mapsto> str_nat (Suc n))"
    using c by (elim conjE) (drule spec, drule spec, erule mp)
  show "0 < m \<Longrightarrow> \<exists>w'. redis_expire env k (JInt m) w = (Inr (), w') \<and> redis_ready env w' \<and> keys w' = keys w"
    using c by simp
qed

text \<open>
  \<open>SCRIPT LOAD\<close> and \<open>EVALSHA\<close>: a loaded script stays loaded and runs atomically on the
  bucket stored under its key.
\<close>

definition script_server :: "'w env \<Rightarrow> ('w \<Rightarrow> string \<Rightarrow> bucket option) \<Rightarrow> ('w \<Rightarrow> string \<Rightarrow> script \<Rightarrow> bool) \<Rightarrow> bool" where
  "script_server env buckets loaded = (\<forall>w. redis_ready env w \<longrightarrow>
     (\<forall>scr. \<exists>sha w'. redis_script_load env scr w = (Inr sha, w') \<and> loaded w' sha scr \<and>
        redis_ready env w' \<and> buckets w' = buckets w \<and> clock env w' = clock env w \<and>
        redis_client_id env w' = redis_client_id env w) \<and>
     (\<forall>sha scr key limit cap rate now. loaded w sha scr \<and> num limit = Some cap \<longrightarrow>
        (\<exists>w'. redis_evalsha env sha key limit rate now w = (fst (scr (buckets w key) cap rate now), w') \<and>
           redis_ready env w' \<and> redis_client_id env w' = redis_client_id env w \<and> loaded w' sha scr \<and>
           buckets w' = (buckets w)(key \<mapsto> snd (scr (buckets w key) cap rate now)))))"

section \<open>An instance\<close>

record demo =
  d_keys :: "string \<Rightarrow> string option"
  d_buckets :: "string \<Rightarrow> bucket option"
  d_scripts :: "script list"
  d_now :: rat
  d_replies :: "http_reply outcome list"

definition demo_reply :: "http_reply outcome" where
  "demo_reply = Inr \<lparr>hr_status = 200, hr_headers = [], hr_content = ''ok''\<rparr>"

definition key_count :: "string option \<Rightarrow> nat" where
  "key_count v = (case v of None \<Rightarrow> 0 | Some s \<Rightarrow> nat_of_digits s)"

definition demo_env :: "demo env" where
  "demo_env =
     \<lparr>redis_ready = (\<lambda>w. True), redis_client_id = (\<lambda>w. 1),
      redis_exists = (\<lambda>k w. (Inr (d_keys w k \<noteq> None), w)),
      redis_ttl = (\<lambda>k w. (Inr 7, w)),
      redis_getkey = (\<lambda>k w. (Inr (d_keys w k), w)),
      redis_set_ex = (\<lambda>k v ex w. if 0 < ex then (Inr (), w\<lparr>d_keys := (d_keys w)(k \<mapsto> v)\<rparr>) else (Inl RedisError, w)),
      redis_set_nx_ex = (\<lambda>k v ex w. if d_keys w k \<noteq> None then (Inr False, w)
         else (Inr True, w\<lparr>d_keys := (d_keys w)(k \<mapsto> v)\<rparr>)),
      redis_delete = (\<lambda>k w. (Inr (), w\<lparr>d_keys := (d_keys w)(k := None)\<rparr>)),
      redis_incr = (\<lambda>k w. (Inr (int (Suc (key_count (d_keys w k)))),
         w\<lparr>d_keys := (d_keys w)(k \<mapsto> str_nat (Suc (key_count (d_keys w k))))\<rparr>)),
      redis_expire = (\<lambda>k n w. (Inr (), w)),
      redis_script_load = (\<lambda>scr w. (Inr (str_nat (length (d_scripts w))), w\<lparr>d_scripts := d_scripts w @ [scr]\<rparr>)),
      redis_evalsha = (\<lambda>sha key limit rate now w.
         (let i = nat_of_digits sha in
          case num limit of
            None \<Rightarrow> (Inl RedisError, w)
          | Some cap \<Rightarrow>
              if i < length (d_scripts w)
              then (let (r, b) = (d_scripts w ! i) (d_buckets w key) cap rate now
                    in (r, w\<lparr>d_buckets := (d_buckets w)(key \<mapsto> b)\<rparr>))
              else (Inl RedisError, w))),
      clock = d_now,
      http_request = (\<lambda>c w. case d_replies w of [] \<Rightarrow> (demo_reply, w) | r # rs \<Rightarrow> (r, w\<lparr>d_replies := rs\<rparr>)),
      sleep = (\<lambda>t w. (Inr (), w\<lparr>d_now := d_now w + t\<rparr>)),
      fetch_json = (\<lambda>u w. (Inl (OtherError ''offline''), w)),
      jwt_decode = (\<lambda>t k a au is v. if t = ''good'' then Inr \<lparr>jc_sub = Some ''alice'', jc_scope = None, jc_all = []\<rparr>
         else Inl JWTError),
      config_digest = (\<lambda>j. []), float_str = (\<lambda>r. ''0.5'')\<rparr>"

definition demo_world :: demo where
  "demo_world = \<lparr>d_keys = (\<lambda>_. None), d_buckets = (\<lambda>_. None), d_scripts = [], d_now = 0, d_replies = []\<rparr>"

definition demo_gw :: "demo gw" where
  "demo_gw = \<lparr>ctx = (new_context ''req-1'' 0)\<lparr>route_id := ''users''\<rparr>, sha_cache = [], jwks_cache = [],
     access_log = [], world = demo_world\<rparr>"

definition demo_request :: request where
  "demo_request = \<lparr>rq_method = ''GET'', rq_path = ''/users'', rq_query = [], rq_query_params = [],
     rq_headers = [], rq_client = Some (''10.0.0.1'', 5000), rq_body = []\<rparr>"

definition demo_loaded :: "demo \<Rightarrow> string \<Rightarrow> script \<Rightarrow> bool" where
  "demo_loaded w sha scr = (nat_of_digits sha < length (d_scripts w) \<and> d_scripts w ! nat_of_digits sha = scr)"

lemma demo_string_server: "string_server demo_env d_keys"
  by (auto simp: string_server_def demo_env_def key_count_def nat_of_digits_str_nat)

lemma demo_script_server: "script_server demo_env d_buckets demo_loaded"
  by (auto simp: script_server_def demo_env_def demo_loaded_def Let_def nat_of_digits_str_nat split_beta)

end
