(* ===== verification/Auth.thy ===== *)
theory Auth
  imports DemoWorld
begin

text \<open>
  The three authentication plugins: \<open>gateway/plugins/auth/apikey_plugin.py\<close>,
  \<open>jwt_plugin.py\<close> and \<open>mtls_plugin.py\<close>. Each \<open>configure\<close> keeps the configured values
  as they came from YAML, so a value of the wrong type fails where the code first uses it. The JWT
  library and the fetch of a key set are external operations.
\<close>

section \<open>API keys\<close>

record apikey_conf =
  ak_keys :: "json list"
  ak_header_name :: json
  ak_query_param :: json

text \<open>\<open>set(config.get("keys", []))\<close> needs an iterable of hashable values.\<close>

definition configure_apikey :: "(string, json) dict \<Rightarrow> apikey_conf outcome" where
  "configure_apikey config =
     (case iter_json (cfg_get config ''keys'' (JList [])) of
        Inl e \<Rightarrow> Inl e
      | Inr keys \<Rightarrow>
          if list_all hashable keys
          then Inr \<lparr>ak_keys = keys, ak_header_name = cfg_get config ''header_name'' (JStr ''x-api-key''),
                 ak_query_param = cfg_get config ''query_param'' JNull\<rparr>
          else Inl TypeError)"

fun query_lookup :: "request \<Rightarrow> json \<Rightarrow> string option outcome" where
  "query_lookup r (JStr k) = Inr (query_param_get r k)"
| "query_lookup r v = (if hashable v then Inr None else Inl TypeError)"

definition text_or_empty :: "string option \<Rightarrow> string" where
  "text_or_empty v = (case v of None \<Rightarrow> [] | Some t \<Rightarrow> t)"

definition extract_key :: "apikey_conf \<Rightarrow> request \<Rightarrow> string option outcome" where
  "extract_key c r =
     (case header_lookup r (ak_header_name c) of
        Inl e \<Rightarrow> Inl e
      | Inr key \<Rightarrow>
          if text_or_empty key = [] \<and> truthy (ak_query_param c) then query_lookup r (ak_query_param c)
          else Inr key)"

definition apikey_unauthorized :: "string \<Rightarrow> response" where
  "apikey_unauthorized detail = json_detail detail 401 [(''WWW-Authenticate'', ''ApiKey'')]"

definition apikey_forbidden :: "string \<Rightarrow> response" where
  "apikey_forbidden detail = json_detail detail 403 []"

text \<open>The principal ends in an ellipsis character, in UTF-8.\<close>

definition apikey_principal :: "string \<Rightarrow> string" where
  "apikey_principal key = ''apikey:'' @ take 8 key @ [CHR 0xE2, CHR 0x80, CHR 0xA6]"

definition api_key :: "apikey_conf \<Rightarrow> 'w handler \<Rightarrow> 'w handler" where
  "api_key c next r =
     and_then (lift_outcome (extract_key c r)) (\<lambda>found.
       let key = text_or_empty found in
       if key = [] then ret (apikey_unauthorized ''API Key missing'')
       else if JStr key \<notin> set (ak_keys c) then ret (apikey_forbidden ''Invalid API Key'')
       else and_then (set_ctx (\<lambda>cx. cx\<lparr>auth_method := API_KEY, principal := apikey_principal key\<rparr>))
              (\<lambda>_. next r))"

lemma api_key_once: "calls_once (api_key c)"
  unfolding calls_once_iff api_key_def Let_def by (intro allI planned_intros)

section \<open>JSON web tokens\<close>

record jwt_conf =
  jw_secret :: json
  jw_jwks_url :: json
  jw_algorithm :: json
  jw_audience :: json
  jw_issuer :: json
  jw_header_name :: json

definition configure_jwt :: "(string, json) dict \<Rightarrow> jwt_conf outcome" where
  "configure_jwt config =
     Inr \<lparr>jw_secret = cfg_get config ''secret_key'' (JStr ''changeme''),
          jw_jwks_url = cfg_get config ''jwks_url'' (JStr []),
          jw_algorithm = cfg_get config ''algorithm'' (JStr ''HS256''),
          jw_audience = cfg_get config ''audience'' JNull,
          jw_issuer = cfg_get config ''issuer'' JNull,
          jw_header_name = cfg_get config ''header_name'' (JStr ''authorization'')\<rparr>"

text \<open>The key set of a URL is fetched once and kept for the life of the process.\<close>

definition fetch_jwks :: "'w env \<Rightarrow> json \<Rightarrow> ('w gw, json) act" where
  "fetch_jwks env url s =
     (if \<not> hashable url then (Inl TypeError, s)
      else case dict_get (jwks_cache s) url of
             Some jwks \<Rightarrow> (Inr jwks, s)
           | None \<Rightarrow>
               and_then (on_world (fetch_json env url))
                 (\<lambda>jwks t. (Inr jwks, t\<lparr>jwks_cache := dict_set url jwks (jwks_cache t)\<rparr>)) s)"

definition extract_token :: "jwt_conf \<Rightarrow> request \<Rightarrow> string option outcome" where
  "extract_token c r =
     map_sum id (\<lambda>found. let header = text_or_empty found in
       if startswith (lower header) ''bearer '' then Some (drop 7 header) else None)
       (header_lookup r (jw_header_name c))"

definition jwt_unauthorized :: "string \<Rightarrow> response" where
  "jwt_unauthorized detail = json_detail detail 401 [(''WWW-Authenticate'', ''Bearer'')]"

definition decode_token :: "'w env \<Rightarrow> jwt_conf \<Rightarrow> string \<Rightarrow> json \<Rightarrow> jwt_claims outcome" where
  "decode_token env c token key =
     jwt_decode env token key (jw_algorithm c)
       (if truthy (jw_audience c) then Some (jw_audience c) else None)
       (if truthy (jw_issuer c) then Some (jw_issuer c) else None)
       (truthy (jw_audience c))"

definition token_scopes :: "jwt_claims \<Rightarrow> json" where
  "token_scopes cl =
     (case jc_scope cl of
        None \<Rightarrow> JList []
      | Some (JStr s) \<Rightarrow> JList (map JStr (split_ws s))
      | Some v \<Rightarrow> v)"

definition accept_token :: "jwt_claims \<Rightarrow> GatewayContext \<Rightarrow> GatewayContext" where
  "accept_token cl cx = cx\<lparr>auth_method := JWT, principal := text_or_empty (jc_sub cl),
     scopes := token_scopes cl, claims := jc_all cl\<rparr>"

text \<open>The key to verify with, or nothing when the key set cannot be had.\<close>

definition verification_key :: "'w env \<Rightarrow> jwt_conf \<Rightarrow> ('w gw, json option) act" where
  "verification_key env c =
     (if truthy (jw_jwks_url c)
      then catching (and_then (fetch_jwks env (jw_jwks_url c)) (\<lambda>jwks. ret (Some jwks))) (\<lambda>e. ret None)
      else ret (Some (jw_secret c)))"

definition jwt_validator :: "'w env \<Rightarrow> jwt_conf \<Rightarrow> 'w handler \<Rightarrow> 'w handler" where
  "jwt_validator env c next r =
     and_then (lift_outcome (extract_token c r)) (\<lambda>found.
       let token = text_or_empty found in
       if token = [] then ret (jwt_unauthorized ''Missing or invalid Authorization header'')
       else and_then (verification_key env c) (\<lambda>key.
         if key = None then ret (jwt_unauthorized ''Auth provider unavailable'')
         else if decode_token env c token (the key) = Inl JWTError then ret (jwt_unauthorized ''Invalid token'')
         else and_then (lift_outcome (decode_token env c token (the key))) (\<lambda>cl.
           and_then (set_ctx (accept_token cl)) (\<lambda>_. next r))))"

lemma jwt_validator_once: "calls_once (jwt_validator env c)"
  unfolding calls_once_iff jwt_validator_def Let_def by (intro allI planned_intros)

section \<open>Client certificates\<close>

record mtls_conf =
  mt_cert_header :: json
  mt_allowed_subjects :: json

definition configure_mtls :: "(string, json) dict \<Rightarrow> mtls_conf outcome" where
  "configure_mtls config =
     Inr \<lparr>mt_cert_header = cfg_get config ''cert_header'' (JStr ''x-client-cert''),
          mt_allowed_subjects = cfg_get config ''allowed_subjects'' (JList [])\<rparr>"

text \<open>\<open>any(subj in client_cert for subj in subjects)\<close>: stops at the first hit or type error.\<close>

fun any_subject :: "json list \<Rightarrow> string \<Rightarrow> bool outcome" where
  "any_subject [] cert = Inr False"
| "any_subject (JStr subj # subjs) cert = (if is_in subj cert then Inr True else any_subject subjs cert)"
| "any_subject (_ # subjs) cert = Inl TypeError"

definition subject_allowed :: "json \<Rightarrow> string \<Rightarrow> bool outcome" where
  "subject_allowed subjects cert =
     (if truthy subjects
      then (case iter_json subjects of Inl e \<Rightarrow> Inl e | Inr subjs \<Rightarrow> any_subject subjs cert)
      else Inr True)"

definition mtls_principal :: "string \<Rightarrow> string" where
  "mtls_principal cert = (if 50 < length cert then take 50 cert @ ''...'' else cert)"

definition mtls_enforcer :: "mtls_conf \<Rightarrow> 'w handler \<Rightarrow> 'w handler" where
  "mtls_enforcer c next r =
     and_then (lift_outcome (header_lookup r (mt_cert_header c))) (\<lambda>found.
       let cert = text_or_empty found in
       if cert = [] then ret (json_detail ''mTLS client certificate required'' 401 [])
       else and_then (lift_outcome (subject_allowed (mt_allowed_subjects c) cert)) (\<lambda>ok.
         if \<not> ok then ret (json_detail ''Client certificate not authorized'' 403 [])
         else and_then (set_ctx (\<lambda>cx. cx\<lparr>auth_method := MTLS, principal := mtls_principal cert\<rparr>))
                (\<lambda>_. next r)))"

lemma mtls_enforcer_once: "calls_once (mtls_enforcer c)"
  unfolding calls_once_iff mtls_enforcer_def Let_def by (intro allI planned_intros)

section \<open>What a plugin accepts\<close>

definition valid_api_key :: "apikey_conf \<Rightarrow> request \<Rightarrow> bool" where
  "valid_api_key c r = (case extract_key c r of
     Inr (Some key) \<Rightarrow> key \<noteq> [] \<and> JStr key \<in> set (ak_keys c) | _ \<Rightarrow> False)"

definition valid_certificate :: "mtls_conf \<Rightarrow> request \<Rightarrow> bool" where
  "valid_certificate c r = (case header_lookup r (mt_cert_header c) of
     Inr (Some cert) \<Rightarrow> cert \<noteq> [] \<and> subject_allowed (mt_allowed_subjects c) cert = Inr True | _ \<Rightarrow> False)"

lemma text_or_empty_simps [simp]: "text_or_empty None = []" "text_or_empty (Some t) = t"
  by (simp_all add: text_or_empty_def)

text \<open>An answer that keeps the caller out: an exception or one of the two denials.\<close>

definition denied :: "response outcome \<Rightarrow> bool" where
  "denied out = (case out of Inl _ \<Rightarrow> True | Inr resp \<Rightarrow> rs_status resp \<in> {401, 403})"

lemma denied_simps [simp]: "denied (Inl e)" "denied (Inr resp) \<longleftrightarrow> rs_status resp \<in> {401, 403}"
  by (simp_all add: denied_def)

lemma api_key_denies:
  assumes "\<not> valid_api_key c r"
  shows "\<exists>out. denied out \<and> (\<forall>next s. api_key c next r s = (out, s))"
proof (cases "extract_key c r")
  case (Inl e)
  then show ?thesis by (intro exI [of _ "Inl e"]) (simp add: api_key_def)
next
  case (Inr found)
  let ?resp = "if text_or_empty found = [] then apikey_unauthorized ''API Key missing''
    else apikey_forbidden ''Invalid API Key''"
  from Inr assms show ?thesis
    by (intro exI [of _ "Inr ?resp"]; cases found)
       (auto simp: api_key_def valid_api_key_def apikey_unauthorized_def apikey_forbidden_def)
qed

lemma api_key_accepts:
  "valid_api_key c r \<Longrightarrow> \<exists>key. JStr key \<in> set (ak_keys c) \<and>
     api_key c next r s = next r (s\<lparr>ctx := (ctx s)\<lparr>auth_method := API_KEY, principal := apikey_principal key\<rparr>\<rparr>)"
  by (auto simp: valid_api_key_def api_key_def split: sum.splits option.splits)

lemma mtls_denies:
  assumes "\<not> valid_certificate c r"
  shows "\<exists>out. denied out \<and> (\<forall>next s. mtls_enforcer c next r s = (out, s))"
proof (cases "header_lookup r (mt_cert_header c)")
  case (Inl e)
  then show ?thesis by (intro exI [of _ "Inl e"]) (simp add: mtls_enforcer_def)
next
  case (Inr found)
  show ?thesis
  proof (cases "text_or_empty found = []")
    case True
    with Inr show ?thesis
      by (intro exI [of _ "Inr (json_detail ''mTLS client certificate required'' 401 [])"]) (simp add: mtls_enforcer_def)
  next
    case False
    with Inr assms have "subject_allowed (mt_allowed_subjects c) (text_or_empty found) \<noteq> Inr True"
      by (auto simp: valid_certificate_def split: option.splits)
    then consider e where "subject_allowed (mt_allowed_subjects c) (text_or_empty found) = Inl e"
      | "subject_allowed (mt_allowed_subjects c) (text_or_empty found) = Inr False"
      by (cases "subject_allowed (mt_allowed_subjects c) (text_or_empty found)") auto
    then show ?thesis
    proof cases
      case (1 e)
      with Inr False show ?thesis by (intro exI [of _ "Inl e"]) (simp add: mtls_enforcer_def)
    next
      case 2
      with Inr False show ?thesis
        by (intro exI [of _ "Inr (json_detail ''Client certificate not authorized'' 403 [])"])
           (simp add: mtls_enforcer_def and_then_def)
    qed
  qed
qed

section \<open>Properties\<close>

text \<open>The step up to the call, without the rest of the chain: an answer, or the state to go on in.\<close>

definition jwt_step :: "'w env \<Rightarrow> jwt_conf \<Rightarrow> request \<Rightarrow> 'w gw \<Rightarrow> response outcome option \<times> 'w gw" where
  "jwt_step env c r s = (case extract_token c r of
      Inl e \<Rightarrow> (Some (Inl e), s)
    | Inr found \<Rightarrow>
       if text_or_empty found = [] then (Some (Inr (jwt_unauthorized ''Missing or invalid Authorization header'')), s)
       else (case verification_key env c s of
          (Inl e, t) \<Rightarrow> (Some (Inl e), t)
        | (Inr None, t) \<Rightarrow> (Some (Inr (jwt_unauthorized ''Auth provider unavailable'')), t)
        | (Inr (Some key), t) \<Rightarrow>
           (case decode_token env c (text_or_empty found) key of
              Inl JWTError \<Rightarrow> (Some (Inr (jwt_unauthorized ''Invalid token'')), t)
            | Inl e \<Rightarrow> (Some (Inl e), t)
            | Inr cl \<Rightarrow> (None, t\<lparr>ctx := accept_token cl (ctx t)\<rparr>))))"

lemma jwt_validator_step:
  "jwt_validator env c next r s =
     (case jwt_step env c r s of (None, t) \<Rightarrow> next r t | (Some out, t) \<Rightarrow> (out, t))"
  by (auto simp: jwt_validator_def jwt_step_def and_then_def Let_def split: sum.splits prod.splits option.splits exn.splits)

text \<open>The key set cannot be had: it is not cached and fetching it fails (or the URL is no text).\<close>

definition jwks_unavailable :: "'w env \<Rightarrow> jwt_conf \<Rightarrow> 'w gw \<Rightarrow> bool" where
  "jwks_unavailable env c s = (truthy (jw_jwks_url c) \<and> (\<not> hashable (jw_jwks_url c) \<or>
     dict_get (jwks_cache s) (jw_jwks_url c) = None \<and> (\<exists>e. fst (fetch_json env (jw_jwks_url c) (world s)) = Inl e)))"

lemma verification_key_ctx:
  "verification_key env c s = (k, t) \<Longrightarrow> ctx t = ctx s \<and>
     (\<not> truthy (jw_jwks_url c) \<and> k = Inr (Some (jw_secret c)) \<or>
      jwks_unavailable env c s \<and> k = Inr None \<or>
      truthy (jw_jwks_url c) \<and> (\<exists>jwks. k = Inr (Some jwks) \<and> dict_get (jwks_cache t) (jw_jwks_url c) = Some jwks))"
  by (auto simp: verification_key_def fetch_jwks_def catching_def and_then_def on_world_def update_conv jwks_unavailable_def
      split: if_splits sum.splits prod.splits option.splits)

text \<open>A key set that was fetched once is used for good, whatever the provider publishes later.\<close>

lemma jwks_sticky:
  "fetch_jwks env url s = (Inr jwks, t) \<Longrightarrow> dict_get (jwks_cache u) url = dict_get (jwks_cache t) url \<Longrightarrow>
     fetch_jwks env url u = (Inr jwks, u)"
  by (auto simp: fetch_jwks_def and_then_def update_conv split: if_splits option.splits prod.splits sum.splits)

text \<open>The bearer token of a request: what follows the scheme, in any case, in the configured header.\<close>

lemma extract_token_bearer:
  "extract_token c r = Inr found \<Longrightarrow> text_or_empty found \<noteq> [] \<Longrightarrow>
     \<exists>scheme. header_lookup r (jw_header_name c) = Inr (Some (scheme @ text_or_empty found)) \<and> lower scheme = ''bearer ''"
proof -
  assume f: "extract_token c r = Inr found" "text_or_empty found \<noteq> []"
  obtain hdr where h: "header_lookup r (jw_header_name c) = Inr hdr"
    using f(1) by (cases "header_lookup r (jw_header_name c)") (auto simp: extract_token_def)
  define line where "line = text_or_empty hdr"
  have b: "startswith (lower line) ''bearer ''" "text_or_empty found = drop 7 line"
    using f h by (auto simp: extract_token_def line_def Let_def split: if_splits)
  then have "line \<noteq> []" by (auto simp: startswith_def lower_def)
  then have "hdr = Some line" by (cases hdr) (auto simp: line_def)
  moreover have "lower (take 7 line) = ''bearer ''"
    using b(1) by (simp add: startswith_def lower_def take_map eval_nat_numeral)
  ultimately show ?thesis using h b(2) by (intro exI [of _ "take 7 line"]) simp
qed

lemma extract_token_none:
  assumes "header_lookup r (jw_header_name c) = Inr (Some (scheme @ token))" and "lower scheme = ''bearer ''"
  shows "extract_token c r = Inr (Some token)"
proof -
  have l: "length scheme = 7" using arg_cong [OF assms(2), of length] by (simp add: lower_def)
  have "startswith (lower (scheme @ token)) ''bearer ''"
    using assms(2) by (simp add: startswith_def lower_def)
  with assms(1) l show ?thesis by (simp add: extract_token_def)
qed

text \<open>
  C13. The JWT plugin lets a request pass exactly when it should. Either the configured header carries a bearer
  token that the library decodes under the configured algorithm, audience and issuer with the configured secret,
  or the key set cached for the configured URL; then the rest of the chain runs on, with the token's
  subject, scopes and claims in the context. Or, whatever the rest of the chain is, the plugin answers itself
  and the context is unchanged: 401 with \<open>WWW-Authenticate: Bearer\<close> when no bearer token is there, when the
  key set cannot be had, or when the library rejects the token; an exception only when reading the header or
  the library raised this very one.
\<close>

theorem jwt_gate:
  fixes inner :: "'w handler"
  shows "let presented = (\<lambda>token. token \<noteq> [] \<and> (\<exists>scheme. header_lookup r (jw_header_name c) = Inr (Some (scheme @ token)) \<and>
           lower scheme = ''bearer ''));
         decoded = (\<lambda>token key. jwt_decode env token key (jw_algorithm c)
           (if truthy (jw_audience c) then Some (jw_audience c) else None)
           (if truthy (jw_issuer c) then Some (jw_issuer c) else None) (truthy (jw_audience c)));
         usable = (\<lambda>key t. if truthy (jw_jwks_url c) then dict_get (jwks_cache t) (jw_jwks_url c) = Some key else key = jw_secret c)
    in (\<exists>token key cl t. presented token \<and> usable key t \<and> decoded token key = Inr cl \<and>
          ctx t = accept_token cl (ctx s) \<and> jwt_validator env c inner r s = inner r t) \<or>
       (\<exists>out t. (\<forall>handler :: 'w handler. jwt_validator env c handler r s = (out, t)) \<and> ctx t = ctx s \<and>
          (case out of
             Inr resp \<Rightarrow> rs_status resp = 401 \<and> response_header resp ''WWW-Authenticate'' = Some ''Bearer'' \<and>
               ((\<nexists>token. presented token) \<or> jwks_unavailable env c s \<or>
                (\<exists>token key. presented token \<and> usable key t \<and> decoded token key = Inl JWTError))
           | Inl e \<Rightarrow> header_lookup r (jw_header_name c) = Inl e \<or>
               (\<exists>token key. presented token \<and> usable key t \<and> decoded token key = Inl e \<and> e \<noteq> JWTError)))"
proof (cases "jwt_step env c r s")
  case (Pair res t)
  have unauth: "rs_status (jwt_unauthorized d) = 401 \<and> response_header (jwt_unauthorized d) ''WWW-Authenticate'' = Some ''Bearer''" for d
    by (simp add: jwt_unauthorized_def json_detail_def mk_response_def response_header_def)
  have bearer: "token \<noteq> [] \<and> (\<exists>scheme. header_lookup r (jw_header_name c) = Inr (Some (scheme @ token)) \<and> lower scheme = ''bearer '') \<longleftrightarrow>
      extract_token c r = Inr (Some token) \<and> token \<noteq> []" for token
    using extract_token_none [of r c _ token] extract_token_bearer [of c r "Some token"] by auto
  have raised: "header_lookup r (jw_header_name c) = Inl e" if "extract_token c r = Inl e" for e
    using that by (cases "header_lookup r (jw_header_name c)") (auto simp: extract_token_def)
  show ?thesis
  proof (cases res)
    case (Some out)
    then show ?thesis
      using Pair verification_key_ctx [of env c s] raised unauth
      unfolding Let_def bearer decode_token_def [symmetric]
      by (auto simp: jwt_validator_step jwt_step_def text_or_empty_def split: sum.splits if_splits prod.splits option.splits exn.splits)
  next
    case None
    then obtain token key u cl where f: "extract_token c r = Inr (Some token)" "token \<noteq> []"
      and k: "verification_key env c s = (Inr (Some key), u)" and d: "decode_token env c token key = Inr cl"
      and t: "t = u\<lparr>ctx := accept_token cl (ctx u)\<rparr>"
      using Pair by (auto simp: jwt_step_def text_or_empty_def split: sum.splits if_splits prod.splits option.splits exn.splits)
    have "jwt_validator env c inner r s = inner r t" using Pair None by (simp add: jwt_validator_step)
    then show ?thesis
      using f d t verification_key_ctx [OF k]
      unfolding Let_def bearer decode_token_def [symmetric]
      by (intro disjI1 exI [of _ token] exI [of _ key] exI [of _ cl] exI [of _ t]) auto
  qed
qed

definition demo_jwt :: jwt_conf where
  "demo_jwt = \<lparr>jw_secret = JStr ''s'', jw_jwks_url = JStr [], jw_algorithm = JStr ''HS256'', jw_audience = JNull, jw_issuer = JNull,
     jw_header_name = JStr ''authorization''\<rparr>"

definition bearer_request :: request where
  "bearer_request = demo_request\<lparr>rq_headers := [(''authorization'', ''Bearer good'')]\<rparr>"

theorem jwt_gate_witness:
  "(\<exists>resp. fst (jwt_validator demo_env demo_jwt (\<lambda>_. ret (json_detail ''ok'' 200 [])) demo_request demo_gw) = Inr resp \<and> rs_status resp = 401) \<and>
   fst (jwt_validator demo_env demo_jwt (\<lambda>_. ret (json_detail ''ok'' 200 [])) bearer_request demo_gw) = Inr (json_detail ''ok'' 200 [])"
proof
  let ?ok = "\<lambda>_ :: request. ret (json_detail ''ok'' 200 []) :: (demo gw, response) act"
  have none: "header_lookup demo_request (jw_header_name demo_jwt) = Inr None"
    by (simp add: demo_jwt_def demo_request_def header_get_def)
  have some: "header_lookup bearer_request (jw_header_name demo_jwt) = Inr (Some (''Bearer '' @ ''good''))"
    by (simp add: demo_jwt_def bearer_request_def header_get_def lower_def lower_char_def)
  have lower: "lower ''Bearer '' = ''bearer ''" by code_simp
  have presented: "token \<noteq> [] \<and> (\<exists>scheme. (Inr (Some (''Bearer '' @ ''good'')) :: exn + string option) = Inr (Some (scheme @ token)) \<and>
      lower scheme = ''bearer '') \<longleftrightarrow> token = ''good''" for token :: string
  proof -
    have "length scheme = length ''Bearer ''" if "lower scheme = ''bearer ''" for scheme :: string
      using arg_cong [OF that, of length] by (simp add: lower_def)
    then have "token = ''good''" if "''Bearer '' @ ''good'' = scheme @ token" "lower scheme = ''bearer ''" for scheme
      using that append_eq_append_conv [of "''Bearer ''" scheme "''good''" token] by metis
    then show ?thesis using lower by blast
  qed
  have keys: "\<not> truthy (jw_jwks_url demo_jwt)" "\<not> jwks_unavailable demo_env demo_jwt s" for s
    by (simp_all add: demo_jwt_def jwks_unavailable_def)
  show "\<exists>resp. fst (jwt_validator demo_env demo_jwt ?ok demo_request demo_gw) = Inr resp \<and> rs_status resp = 401"
  proof -
    from jwt_gate [where inner = ?ok and r = demo_request and c = demo_jwt and env = demo_env and s = demo_gw] obtain out t
      where "\<forall>handler. jwt_validator demo_env demo_jwt handler demo_request demo_gw = (out, t)"
        "case out of Inr resp \<Rightarrow> rs_status resp = 401 \<and> response_header resp ''WWW-Authenticate'' = Some ''Bearer'' | Inl e \<Rightarrow> False"
      unfolding Let_def none by (auto cong: sum.case_cong)
    then show ?thesis by (cases out) auto
  qed
  have good: "jwt_decode demo_env ''good'' k a au is v = Inr \<lparr>jc_sub = Some ''alice'', jc_scope = None, jc_all = []\<rparr>" for k a au "is" v
    by (simp add: demo_env_def)
  show "fst (jwt_validator demo_env demo_jwt ?ok bearer_request demo_gw) = Inr (json_detail ''ok'' 200 [])"
    using jwt_gate [where inner = ?ok and r = bearer_request and c = demo_jwt and env = demo_env and s = demo_gw]
    unfolding some Let_def presented by (auto simp: good keys split: sum.splits) (meson sum.exhaust)
qed

end
