(* ===== verification/Logging.thy ===== *)
theory Logging
  imports DemoWorld
begin

text \<open>
  The two built-in plugins of \<open>gateway/plugins/logging/logging_plugin.py\<close>: the request
  identifier and the access log. The log is part of the gateway state.
\<close>

section \<open>Request identifier\<close>

definition request_id_plugin :: "'w handler \<Rightarrow> 'w handler" where
  "request_id_plugin next r =
     (let client_id = (case header_get r ''x-request-id'' of None \<Rightarrow> [] | Some v \<Rightarrow> v) in
      and_then (if client_id \<noteq> [] then set_ctx (\<lambda>cx. cx\<lparr>request_id := client_id\<rparr>) else ret ()) (\<lambda>_.
      and_then (next r) (\<lambda>resp.
      and_then (reads ctx) (\<lambda>cx. ret (set_response_header ''X-Request-ID'' (request_id cx) resp)))))"

lemma request_id_once: "calls_once request_id_plugin"
  unfolding calls_once_iff request_id_plugin_def Let_def by (intro allI planned_intros)

section \<open>Access log\<close>

record logging_conf =
  lg_log_headers :: json
  lg_log_body :: json

definition configure_logging :: "(string, json) dict \<Rightarrow> logging_conf outcome" where
  "configure_logging config =
     Inr \<lparr>lg_log_headers = cfg_get config ''log_headers'' (JBool False),
          lg_log_body = cfg_get config ''log_body'' (JBool False)\<rparr>"

text \<open>\<open>round(x, 2)\<close>: two decimals, ties to the even one.\<close>

definition round2 :: "rat \<Rightarrow> rat" where
  "round2 x =
     (let y = x * 100; f = \<lfloor>y\<rfloor>; d = y - of_int f;
          n = (if d < 1 / 2 then f else if d > 1 / 2 then f + 1 else if even f then f else f + 1)
      in of_int n / 100)"

definition log_info :: "logging_conf \<Rightarrow> request \<Rightarrow> GatewayContext \<Rightarrow> request_info" where
  "log_info c r cx =
     \<lparr>li_request_id = request_id cx, li_method = rq_method r, li_path = rq_path r,
      li_remote_addr = client_host_or r ''-'',
      li_headers = (if truthy (lg_log_headers c) then Some (headers_dict (rq_headers r)) else None)\<rparr>"

definition write_log :: "log_entry \<Rightarrow> ('w gw, unit) act" where
  "write_log e s = (Inr (), s\<lparr>access_log := access_log s @ [e]\<rparr>)"

definition log_handled :: "'w env \<Rightarrow> request_info \<Rightarrow> rat \<Rightarrow> response \<Rightarrow> ('w gw, response) act" where
  "log_handled env info start resp =
     and_then (reads (\<lambda>s. (clock env (world s) - start) * 1000)) (\<lambda>elapsed.
     and_then (reads ctx) (\<lambda>cx.
     and_then (write_log (RequestHandled info (rs_status resp) (round2 elapsed) (route_id cx)
       (if principal cx \<noteq> [] then principal cx else ''-''))) (\<lambda>_. ret resp)))"

definition access_logger :: "'w env \<Rightarrow> logging_conf \<Rightarrow> 'w handler \<Rightarrow> 'w handler" where
  "access_logger env c next r =
     and_then (reads (\<lambda>s. clock env (world s))) (\<lambda>start.
     and_then (reads (\<lambda>s. log_info c r (ctx s))) (\<lambda>info.
     and_then
       (catching (next r) (\<lambda>exc. and_then (write_log (RequestFailed info exc)) (\<lambda>_. throw exc)))
       (log_handled env info start)))"

lemma access_logger_once: "calls_once (access_logger env c)"
  unfolding calls_once_iff access_logger_def by (intro allI planned_intros)

section \<open>Lemmas\<close>

lemma write_log_apply [simp]: "write_log e s = (Inr (), s\<lparr>access_log := access_log s @ [e]\<rparr>)"
  by (simp add: write_log_def)

lemma request_id_plugin_spec:
  "request_id_plugin next r s =
     (let t = (case header_get r ''x-request-id'' of
          None \<Rightarrow> s | Some v \<Rightarrow> if v = [] then s else s\<lparr>ctx := (ctx s)\<lparr>request_id := v\<rparr>\<rparr>)
      in case next r t of
           (Inl e, u) \<Rightarrow> (Inl e, u)
         | (Inr resp, u) \<Rightarrow> (Inr (set_response_header ''X-Request-ID'' (request_id (ctx u)) resp), u))"
  by (auto simp: request_id_plugin_def Let_def and_then_def split: option.splits sum.splits prod.splits)

lemma access_logger_spec:
  "access_logger env c next r s =
     (case next r s of
        (Inl e, u) \<Rightarrow> (Inl e, u\<lparr>access_log := access_log u @ [RequestFailed (log_info c r (ctx s)) e]\<rparr>)
      | (Inr resp, u) \<Rightarrow> (Inr resp, u\<lparr>access_log := access_log u @
          [RequestHandled (log_info c r (ctx s)) (rs_status resp)
             (round2 ((clock env (world u) - clock env (world s)) * 1000)) (route_id (ctx u))
             (if principal (ctx u) \<noteq> [] then principal (ctx u) else ''-'')]\<rparr>))"
  by (auto simp: access_logger_def log_handled_def and_then_def catching_def split: sum.splits prod.splits)

text \<open>Rounding is to within half of the last decimal.\<close>

lemma round2_error: "\<bar>round2 x - x\<bar> \<le> 1 / 200"
proof -
  define d where "d = x * 100 - of_int \<lfloor>x * 100\<rfloor>"
  have d: "0 \<le> d" "d < 1" unfolding d_def by linarith+
  have x: "x = (of_int \<lfloor>x * 100\<rfloor> + d) / 100" by (simp add: d_def)
  have "\<bar>round2 x - (of_int \<lfloor>x * 100\<rfloor> + d) / 100\<bar> \<le> 1 / 200"
    using d unfolding round2_def Let_def d_def [symmetric]
    by (auto simp: abs_le_iff field_simps)
  then show ?thesis using x by simp
qed

end
