(* ===== verification/RateLimit.thy ===== *)
theory RateLimit
  imports DemoWorld
begin

text \<open>
  The rate limiter plugin of \<open>gateway/plugins/ratelimit/ratelimit_plugin.py\<close>: its Lua token
  bucket script as a function on the stored bucket, the key it limits by, and the plugin's call.
  The script's effect on its own is studied over sequences of calls.
\<close>

section \<open>The script\<close>

text \<open>
  \<open>_LUA_SCRIPT\<close>: refill, take a token if one is there, store the bucket with a time to live.
  With a rate of 0 the time to live is not a number; Redis then rejects \<open>EXPIRE\<close>, after the
  bucket has been stored.
\<close>

definition bucket_ttl :: "rat \<Rightarrow> rat \<Rightarrow> int" where
  "bucket_ttl capacity rate = \<lceil>capacity / rate\<rceil> + 2"

definition refill :: "bucket option \<Rightarrow> rat \<Rightarrow> rat \<Rightarrow> rat \<Rightarrow> rat" where
  "refill b capacity rate now =
     (case b of
        None \<Rightarrow> capacity
      | Some b \<Rightarrow>
          (let elapsed = max 0 (now - b_last_refill b)
           in min capacity (b_tokens b + elapsed * rate)))"

definition lua_script :: script where
  "lua_script b capacity rate now =
     (let tokens = refill b capacity rate now;
          allowed = (if 1 \<le> tokens then 1 else 0);
          left = (if 1 \<le> tokens then tokens - 1 else tokens)
      in if rate = 0 then (Inl RedisError, \<lparr>b_tokens = left, b_last_refill = now, b_ttl = - 1\<rparr>)
         else (Inr allowed, \<lparr>b_tokens = left, b_last_refill = now, b_ttl = bucket_ttl capacity rate\<rparr>))"

section \<open>The plugin\<close>

record rate_conf =
  rl_limit :: json
  rl_window :: json
  rl_key_func :: json
  rl_rate :: rat

definition configure_rate :: "(string, json) dict \<Rightarrow> rate_conf outcome" where
  "configure_rate config =
     (let limit = cfg_get config ''limit'' (JInt 100); window = cfg_get config ''window'' (JInt 60)
      in map_sum id (\<lambda>rate. \<lparr>rl_limit = limit, rl_window = window,
           rl_key_func = cfg_get config ''key_func'' (JStr ''ip''), rl_rate = rate\<rparr>)
         (true_div limit window))"

definition rate_ip :: "request \<Rightarrow> string" where
  "rate_ip r =
     (let xff = header_or r ''x-forwarded-for'' []
      in if xff \<noteq> [] then strip (hd (split_on (CHR '','') xff)) else client_host_or r ''unknown'')"

text \<open>The Redis key, and the raw key that \<open>ctx.rate_limit_key\<close> is set to.\<close>

definition resolve_key :: "rate_conf \<Rightarrow> request \<Rightarrow> GatewayContext \<Rightarrow> string \<times> string" where
  "resolve_key c r cx =
     (if rl_key_func c = JStr ''user'' then
        (let raw_key = (if principal cx \<noteq> [] then principal cx else rate_ip r)
         in (if principal cx \<noteq> [] then ''ratelimit:user:'' @ raw_key else ''ratelimit:ip:'' @ raw_key, raw_key))
      else if rl_key_func c = JStr ''api_key'' then
        (let raw_key = (if principal cx \<noteq> [] then principal cx else ''anonymous'')
         in (''ratelimit:apikey:'' @ raw_key, raw_key))
      else (''ratelimit:ip:'' @ rate_ip r, rate_ip r))"

definition get_script_sha :: "'w env \<Rightarrow> ('w gw, string) act" where
  "get_script_sha env s =
     (let client_id = redis_client_id env (world s)
      in case dict_get (sha_cache s) client_id of
           Some sha \<Rightarrow> (Inr sha, s)
         | None \<Rightarrow>
             and_then (on_world (redis_script_load env lua_script))
               (\<lambda>sha s. (Inr sha, s\<lparr>sha_cache := dict_set client_id sha (sha_cache s)\<rparr>)) s)"

definition too_many :: "'w env \<Rightarrow> rate_conf \<Rightarrow> response" where
  "too_many env c =
     json_detail ''Rate limit exceeded'' 429
       [(''Retry-After'', json_str env (rl_window c)), (''X-RateLimit-Limit'', json_str env (rl_limit c))]"

text \<open>The body of the \<open>try\<close>: a refusal, or \<open>None\<close> to go on.\<close>

definition check_limit :: "'w env \<Rightarrow> rate_conf \<Rightarrow> string \<Rightarrow> ('w gw, response option) act" where
  "check_limit env c key =
     and_then (get_redis env) (\<lambda>_.
     and_then (get_script_sha env) (\<lambda>sha.
     and_then (reads (\<lambda>s. clock env (world s))) (\<lambda>now.
     and_then (on_world (redis_evalsha env sha key (rl_limit c) (rl_rate c) now)) (\<lambda>allowed.
     ret (if allowed = 0 then Some (too_many env c) else None)))))"

definition rate_limiter :: "'w env \<Rightarrow> rate_conf \<Rightarrow> 'w handler \<Rightarrow> 'w handler" where
  "rate_limiter env c next r s =
     (let (key, raw_key) = resolve_key c r (ctx s);
          s0 = s\<lparr>ctx := (ctx s)\<lparr>rate_limit_key := raw_key\<rparr>\<rparr>
      in and_then (catching (check_limit env c key) (\<lambda>exc. ret None))
           (\<lambda>refusal. case refusal of Some resp \<Rightarrow> ret resp | None \<Rightarrow> next r) s0)"

section \<open>Lemmas\<close>

lemma rate_limiter_once: "calls_once (rate_limiter env c)"
  unfolding calls_once_iff rate_limiter_def split_beta Let_def
proof (intro allI planned_and_then)
  fix req :: request and refusal :: "response option" and t :: "'a gw"
  show "planned (\<lambda>next. (case refusal of None \<Rightarrow> next req | Some resp \<Rightarrow> ret resp) t) req"
    by (cases refusal) (simp_all add: planned_const planned_call)
qed

text \<open>The cached script handle is valid for the connected server.\<close>

definition sha_valid :: "'w env \<Rightarrow> ('w \<Rightarrow> string \<Rightarrow> script \<Rightarrow> bool) \<Rightarrow> 'w gw \<Rightarrow> bool" where
  "sha_valid env loaded s = (\<forall>sha. dict_get (sha_cache s) (redis_client_id env (world s)) = Some sha \<longrightarrow>
     loaded (world s) sha lua_script)"

lemma get_script_sha_spec:
  assumes "script_server env buckets loaded" and "redis_ready env (world s)" and "sha_valid env loaded s"
  shows "\<exists>sha t. get_script_sha env s = (Inr sha, t) \<and> loaded (world t) sha lua_script \<and> redis_ready env (world t) \<and>
     buckets (world t) = buckets (world s) \<and> clock env (world t) = clock env (world s) \<and> ctx t = ctx s \<and>
     dict_get (sha_cache t) (redis_client_id env (world t)) = Some sha"
proof (cases "dict_get (sha_cache s) (redis_client_id env (world s))")
  case (Some sha)
  with assms show ?thesis by (simp add: get_script_sha_def sha_valid_def)
next
  case None
  obtain sha w where "redis_script_load env lua_script (world s) = (Inr sha, w)" "loaded w sha lua_script"
    "redis_ready env w" "buckets w = buckets (world s)" "clock env w = clock env (world s)"
    "redis_client_id env w = redis_client_id env (world s)"
    using assms(1,2) unfolding script_server_def by blast
  with None show ?thesis by (simp add: get_script_sha_def on_world_apply update_conv)
qed

lemma check_limit_spec:
  assumes "script_server env buckets loaded" and "redis_ready env (world s)" and "sha_valid env loaded s"
    and "num (rl_limit c) = Some cap"
  shows "\<exists>t. check_limit env c key s =
      (map_sum id (\<lambda>n. if n = 0 then Some (too_many env c) else None)
         (fst (lua_script (buckets (world s) key) cap (rl_rate c) (clock env (world s)))), t) \<and>
     buckets (world t) = (buckets (world s))(key \<mapsto>
        snd (lua_script (buckets (world s) key) cap (rl_rate c) (clock env (world s)))) \<and>
     ctx t = ctx s \<and> redis_ready env (world t) \<and> sha_valid env loaded t"
proof -
  obtain sha t where t: "get_script_sha env s = (Inr sha, t)" "loaded (world t) sha lua_script"
    "redis_ready env (world t)" "buckets (world t) = buckets (world s)"
    "clock env (world t) = clock env (world s)" "ctx t = ctx s"
    "dict_get (sha_cache t) (redis_client_id env (world t)) = Some sha"
    using get_script_sha_spec [OF assms(1-3)] by blast
  let ?script = "lua_script (buckets (world s) key) cap (rl_rate c) (clock env (world s))"
  obtain w where "redis_evalsha env sha key (rl_limit c) (rl_rate c) (clock env (world s)) (world t) =
      (fst ?script, w)" "redis_ready env w" "redis_client_id env w = redis_client_id env (world t)"
    "loaded w sha lua_script" "buckets w = (buckets (world s))(key \<mapsto> snd ?script)"
    using assms(1,4) t(2-4) unfolding script_server_def by metis
  with t assms(2) show ?thesis
    by (cases "fst ?script")
       (auto simp: check_limit_def on_world_apply sha_valid_def intro!: exI [of _ "t\<lparr>world := w\<rparr>"])
qed

text \<open>Calls of the script at given times, the key never expiring.\<close>

fun script_run :: "rat \<Rightarrow> rat \<Rightarrow> bucket option \<Rightarrow> rat list \<Rightarrow> int outcome list \<times> bucket option" where
  "script_run capacity rate b [] = ([], b)"
| "script_run capacity rate b (now # ts) =
     (let (r, b') = lua_script b capacity rate now; (rs, b'') = script_run capacity rate (Some b') ts
      in (r # rs, b''))"

text \<open>The same, where a bucket whose time to live has passed is gone.\<close>

definition visible :: "bucket option \<Rightarrow> rat \<Rightarrow> bucket option" where
  "visible b now =
     (case b of None \<Rightarrow> None | Some b \<Rightarrow> if b_last_refill b + of_int (b_ttl b) \<le> now then None else Some b)"

fun script_run_ttl :: "rat \<Rightarrow> rat \<Rightarrow> bucket option \<Rightarrow> rat list \<Rightarrow> int outcome list \<times> bucket option" where
  "script_run_ttl capacity rate b [] = ([], b)"
| "script_run_ttl capacity rate b (now # ts) =
     (let (r, b') = lua_script (visible b now) capacity rate now;
          (rs, b'') = script_run_ttl capacity rate (Some b') ts
      in (r # rs, b''))"

definition allowed_count :: "int outcome list \<Rightarrow> nat" where
  "allowed_count rs = count_list rs (Inr 1)"

definition bucket_ok :: "rat \<Rightarrow> rat \<Rightarrow> bucket \<Rightarrow> bool" where
  "bucket_ok capacity rate b \<longleftrightarrow> 0 \<le> b_tokens b \<and> b_tokens b \<le> capacity \<and> b_ttl b = bucket_ttl capacity rate"

lemma lua_script_ok:
  assumes "0 < rate" and "0 \<le> capacity" and "\<And>b'. b = Some b' \<Longrightarrow> bucket_ok capacity rate b'"
  shows "bucket_ok capacity rate (snd (lua_script b capacity rate now))"
proof -
  have "0 \<le> refill b capacity rate now \<and> refill b capacity rate now \<le> capacity"
    using assms by (auto simp: refill_def bucket_ok_def Let_def split: option.splits)
  then show ?thesis using assms(1) by (auto simp: lua_script_def bucket_ok_def Let_def)
qed

lemma refill_expired:
  assumes "0 < rate" and "bucket_ok capacity rate b" and "b_last_refill b + of_int (b_ttl b) \<le> now"
  shows "refill (Some b) capacity rate now = capacity"
proof -
  have ttl: "b_ttl b = \<lceil>capacity / rate\<rceil> + 2" and tok: "0 \<le> b_tokens b"
    using assms(2) by (auto simp: bucket_ok_def bucket_ttl_def)
  have cap: "0 \<le> capacity" using assms(2) by (auto simp: bucket_ok_def)
  have "capacity / rate \<le> of_int \<lceil>capacity / rate\<rceil>" by (rule le_of_int_ceiling)
  also have "\<dots> \<le> now - b_last_refill b" using assms(3) by (simp add: ttl)
  finally have d: "capacity / rate \<le> now - b_last_refill b" .
  have "0 \<le> capacity / rate" using cap assms(1) by simp
  then have "0 \<le> now - b_last_refill b" using d by (rule order_trans)
  moreover have "capacity \<le> (now - b_last_refill b) * rate"
    using d assms(1) by (simp add: divide_le_eq)
  ultimately show ?thesis using tok by (simp add: refill_def Let_def)
qed

lemma lua_script_visible:
  assumes "0 < rate" and "\<And>b'. b = Some b' \<Longrightarrow> bucket_ok capacity rate b'"
  shows "lua_script (visible b now) capacity rate now = lua_script b capacity rate now"
proof (cases b)
  case (Some b')
  then show ?thesis
    using assms refill_expired [of rate capacity b' now]
    by (auto simp: visible_def lua_script_def refill_def)
qed (simp add: visible_def)

text \<open>
  How far the times of a run climb: the sum of its forward steps. When they never go backwards it is the
  duration of the run.
\<close>

fun climb :: "rat list \<Rightarrow> rat" where
  "climb (a # b # ts) = max 0 (b - a) + climb (b # ts)"
| "climb _ = 0"

lemma climb_sorted: "sorted (a # ts) \<Longrightarrow> climb (a # ts) = last (a # ts) - a"
  by (induction ts arbitrary: a) simp_all

lemma lua_script_simps:
  "0 < rate \<Longrightarrow> fst (lua_script b capacity rate now) = Inr (if 1 \<le> refill b capacity rate now then 1 else 0)"
  "b_tokens (snd (lua_script b capacity rate now)) =
     (if 1 \<le> refill b capacity rate now then refill b capacity rate now - 1 else refill b capacity rate now)"
  "b_last_refill (snd (lua_script b capacity rate now)) = now"
  by (simp_all add: lua_script_def Let_def)

lemma script_run_Cons [simp]:
  "fst (script_run capacity rate b (now # ts)) =
     fst (lua_script b capacity rate now) # fst (script_run capacity rate (Some (snd (lua_script b capacity rate now))) ts)"
  by (simp add: split_beta Let_def)

declare script_run.simps(2) [simp del]

lemma allowed_count_simps [simp]:
  "allowed_count [] = 0" "allowed_count (r # rs) = (if r = Inr 1 then 1 else 0) + allowed_count rs"
  by (simp_all add: allowed_count_def)

text \<open>Tokens left plus requests allowed never exceed what was there plus what was refilled.\<close>

lemma script_run_budget:
  assumes "0 < rate" and "0 \<le> b_tokens b" and "b_tokens b \<le> capacity"
  shows "of_nat (allowed_count (fst (script_run capacity rate (Some b) ts))) \<le>
     b_tokens b + rate * climb (b_last_refill b # ts)"
  using assms(2-3)
proof (induction ts arbitrary: b)
  case Nil
  then show ?case by simp
next
  case (Cons now ts)
  let ?t = "refill (Some b) capacity rate now" and ?b = "snd (lua_script (Some b) capacity rate now)"
  have t: "0 \<le> ?t" "?t \<le> capacity" "?t \<le> b_tokens b + rate * max 0 (now - b_last_refill b)"
    using Cons.prems assms(1) by (auto simp: refill_def Let_def mult.commute)
  have "of_nat (allowed_count (fst (script_run capacity rate (Some ?b) ts))) \<le> b_tokens ?b + rate * climb (now # ts)"
    using Cons.IH [of ?b] t by (simp add: lua_script_simps)
  moreover have "rate * climb (b_last_refill b # now # ts) = rate * max 0 (now - b_last_refill b) + rate * climb (now # ts)"
    by (simp add: distrib_left)
  ultimately show ?case using t(3) assms(1) by (auto simp: lua_script_simps split: if_splits)
qed

lemma bucket_bound:
  assumes "0 < rate" and "0 \<le> capacity" and "\<And>b'. b = Some b' \<Longrightarrow> bucket_ok capacity rate b'"
  shows "of_nat (allowed_count (fst (script_run capacity rate b (now # ts)))) \<le> capacity + rate * climb (now # ts)"
proof -
  let ?t = "refill b capacity rate now" and ?b = "snd (lua_script b capacity rate now)"
  have t: "0 \<le> ?t" "?t \<le> capacity"
    using assms by (auto simp: refill_def bucket_ok_def Let_def split: option.splits)
  then have "of_nat (allowed_count (fst (script_run capacity rate (Some ?b) ts))) \<le> b_tokens ?b + rate * climb (now # ts)"
    using script_run_budget [of rate ?b capacity ts] assms(1) by (simp add: lua_script_simps)
  with t assms(1) show ?thesis by (auto simp: lua_script_simps split: if_splits)
qed

section \<open>Properties\<close>

text \<open>
  C7. The token bucket bound: over any run of calls, starting from no bucket or from any bucket the
  script can have left, at most \<open>capacity\<close> requests are allowed plus \<open>rate\<close> times the sum of the forward
  steps of the clock. When the times the callers send do not go backwards this sum is the duration from the
  first call to the last, the usual bound.
\<close>
theorem token_bucket_bound:
  assumes "0 < rate" and "0 \<le> capacity" and "\<And>b'. b = Some b' \<Longrightarrow> bucket_ok capacity rate b'"
  shows "of_nat (allowed_count (fst (script_run capacity rate b (now # ts)))) \<le> capacity + rate * climb (now # ts) \<and>
    (sorted (now # ts) \<longrightarrow> climb (now # ts) = last (now # ts) - now)"
  using bucket_bound [OF assms] climb_sorted by blast

lemma token_bucket_bound_witness:
  "of_nat (allowed_count (fst (script_run 2 (1 / 10) None [0, 1, 2, 3]))) \<le> (2 :: rat) + (1 / 10) * (3 - 0)"
  using token_bucket_bound [of "1 / 10" 2 None 0 "[1, 2, 3]"] by simp

text \<open>The clocks of two processes, one \<open>d\<close> ahead of the other, asked in turn.\<close>

definition two_clocks :: "nat \<Rightarrow> rat \<Rightarrow> rat \<Rightarrow> rat list" where
  "two_clocks n d now = concat (replicate n [now + d, now])"

lemma two_clocks_simps [simp]:
  "two_clocks 0 d now = []" "two_clocks (Suc n) d now = (now + d) # now # two_clocks n d now"
  by (simp_all add: two_clocks_def)

text \<open>
  A call that arrives at the bucket when it is full leaves room for a second one; after that the bucket is
  full again as soon as the faster clock is asked.
\<close>

lemma two_clocks_allowed:
  assumes "2 \<le> capacity" and "2 \<le> rate * d" and "0 < rate"
    and "b = None \<or> (\<exists>b'. b = Some b' \<and> capacity - 2 \<le> b_tokens b' \<and> b_last_refill b' = now)"
  shows "fst (script_run capacity rate b (two_clocks n d now)) = replicate (2 * n) (Inr 1)"
  using assms(4)
proof (induction n arbitrary: b)
  case 0
  then show ?case by simp
next
  case (Suc n)
  have "0 < rate * d" using assms(2) by simp
  then have d: "0 \<le> d" using assms(3) by (simp add: zero_less_mult_iff)
  let ?b1 = "snd (lua_script b capacity rate (now + d))"
  let ?b2 = "snd (lua_script (Some ?b1) capacity rate now)"
  have full: "refill b capacity rate (now + d) = capacity"
    using Suc.prems assms(1,2) d by (auto simp: refill_def Let_def mult.commute)
  then have b1: "b_tokens ?b1 = capacity - 1" "b_last_refill ?b1 = now + d" using assms(1) by (simp_all add: lua_script_simps)
  then have left: "refill (Some ?b1) capacity rate now = capacity - 1" using d assms(1) by (simp add: refill_def Let_def)
  then have "b_tokens ?b2 = capacity - 2" "b_last_refill ?b2 = now" using assms(1) by (simp_all add: lua_script_simps)
  with Suc.IH [of "Some ?b2"] full left show ?case using assms(1,3) by (simp add: lua_script_simps)
qed

lemma two_clocks_times:
  "set (two_clocks n d now) \<subseteq> {now, now + d}" "sorted (now # two_clocks n 0 now)" "climb (now # two_clocks n 0 now) = 0"
  by (induction n) auto

text \<open>
  C36. The limit is lost when the clocks of two gateway processes differ: the script stores the time it was
  sent even when that is before the time it had stored, so the difference of the clocks is refilled each
  time the faster one is asked. With a difference worth two requests (1.2 seconds at 100 requests a minute)
  every request of an alternating run is allowed, however long the run, although all its requests come at one
  instant, which the clocks call \<open>now\<close> and \<open>now + d\<close>. With clocks that agree the same run gets no more than
  the capacity.
\<close>
theorem clock_skew_defeats_limit:
  assumes "2 \<le> capacity" and "0 < rate" and "2 \<le> rate * d"
  shows "fst (script_run capacity rate None (two_clocks n d now)) = replicate (2 * n) (Inr 1) \<and>
    set (two_clocks n d now) \<subseteq> {now, now + d} \<and>
    of_nat (allowed_count (fst (script_run capacity rate None (two_clocks n 0 now)))) \<le> capacity"
proof (intro conjI two_clocks_times)
  show "fst (script_run capacity rate None (two_clocks n d now)) = replicate (2 * n) (Inr 1)"
    using two_clocks_allowed [OF assms(1,3,2)] by simp
  show "of_nat (allowed_count (fst (script_run capacity rate None (two_clocks n 0 now)))) \<le> capacity"
  proof (cases n)
    case (Suc k)
    have "climb (now # two_clocks k 0 now) = 0" by (rule two_clocks_times)
    with bucket_bound [of rate capacity None now "now # two_clocks k 0 now"] assms Suc show ?thesis by simp
  qed (use assms(1) in \<open>simp add: script_run.simps\<close>)
qed

lemma clock_skew_defeats_limit_witness:
  "fst (script_run 100 (100 / 60) None (two_clocks 1000 (6 / 5) 0)) = replicate 2000 (Inr 1) \<and>
   of_nat (allowed_count (fst (script_run 100 (100 / 60) None (two_clocks 1000 0 0)))) \<le> (100 :: rat)"
  using clock_skew_defeats_limit [of 100 "100 / 60" "6 / 5" 1000 0] by simp

text \<open>
  Letting Redis expire idle buckets changes no decision: with the time to live that
  the script sets, a run in which expired buckets vanish answers exactly as a run in which they
  are kept.
\<close>
theorem expiry_unobservable:
  assumes "0 < rate" and "0 \<le> capacity" and "\<And>b'. b = Some b' \<Longrightarrow> bucket_ok capacity rate b'"
  shows "fst (script_run_ttl capacity rate b ts) = fst (script_run capacity rate b ts)"
  using assms(3)
proof (induction ts arbitrary: b)
  case Nil
  then show ?case by simp
next
  case (Cons now ts)
  have "lua_script (visible b now) capacity rate now = lua_script b capacity rate now"
    using lua_script_visible [OF assms(1)] Cons.prems by blast
  then show ?case
    using Cons.IH [of "Some (snd (lua_script b capacity rate now))"]
      lua_script_ok [OF assms(1,2), of b now] Cons.prems
    by (simp add: Let_def split_beta)
qed

lemma expiry_unobservable_witness:
  "fst (script_run_ttl 1 (1 / 10) None [0, 1, 50]) = fst (script_run 1 (1 / 10) None [0, 1, 50])"
  by (rule expiry_unobservable) simp_all

text \<open>
  With a Redis server that keeps to its documentation, the plugin's decision is the
  token bucket's: it runs the script once on the bucket of the resolved key at the current time and
  stores the new bucket; answer 0 gives the 429 response and the next handler is not called, every
  other answer, the script's own failure included, calls the next handler on the resulting state.
\<close>
theorem rate_limiter_decides:
  assumes "script_server env buckets loaded" and "redis_ready env (world s)" and "sha_valid env loaded s"
    and "num (rl_limit c) = Some cap" and "resolve_key c r (ctx s) = (key, raw_key)"
    and "lua_script (buckets (world s) key) cap (rl_rate c) (clock env (world s)) = (answer, b)"
  shows "\<exists>t. rate_limiter env c next r s =
       (if answer = Inr 0 then (Inr (too_many env c), t) else next r t) \<and>
     buckets (world t) = (buckets (world s))(key \<mapsto> b) \<and>
     ctx t = (ctx s)\<lparr>rate_limit_key := raw_key\<rparr> \<and> redis_ready env (world t) \<and> sha_valid env loaded t"
proof -
  let ?s = "s\<lparr>ctx := (ctx s)\<lparr>rate_limit_key := raw_key\<rparr>\<rparr>"
  have "sha_valid env loaded ?s" using assms(3) by (simp add: sha_valid_def)
  then obtain t where t: "check_limit env c key ?s =
      (map_sum id (\<lambda>n. if n = 0 then Some (too_many env c) else None) answer, t)"
    "buckets (world t) = (buckets (world s))(key \<mapsto> b)" "ctx t = ctx ?s" "redis_ready env (world t)"
    "sha_valid env loaded t"
    using check_limit_spec [OF assms(1) _ _ assms(4), of ?s key] assms(2,6) by auto
  then show ?thesis
    by (cases answer) (auto simp: rate_limiter_def assms(5) intro!: exI [of _ t])
qed

definition demo_rate :: rate_conf where
  "demo_rate = \<lparr>rl_limit = JInt 0, rl_window = JInt 60, rl_key_func = JStr ''ip'', rl_rate = 0\<rparr>"

lemma rate_limiter_decides_witness:
  "\<exists>t. rate_limiter demo_env demo_rate (\<lambda>r. ret (json_detail ''ok'' 200 [])) demo_request demo_gw =
       (if (Inl RedisError :: int outcome) = Inr 0 then (Inr (too_many demo_env demo_rate), t)
        else ret (json_detail ''ok'' 200 []) t) \<and>
     d_buckets (world t) = (d_buckets (world demo_gw))(''ratelimit:ip:10.0.0.1'' \<mapsto>
       \<lparr>b_tokens = 0, b_last_refill = 0, b_ttl = - 1\<rparr>) \<and>
     ctx t = (ctx demo_gw)\<lparr>rate_limit_key := ''10.0.0.1''\<rparr> \<and> redis_ready demo_env (world t) \<and>
     sha_valid demo_env demo_loaded t"
  by (rule rate_limiter_decides [OF demo_script_server, where cap = 0])
     (simp_all add: demo_gw_def demo_env_def demo_world_def demo_rate_def demo_request_def sha_valid_def
        resolve_key_def rate_ip_def header_or_def header_get_def client_host_or_def lua_script_def refill_def)

text \<open>Requests one after the other, each with its own context.\<close>

fun serve_requests :: "'w handler \<Rightarrow> (GatewayContext \<times> request) list \<Rightarrow> 'w gw \<Rightarrow> response outcome list \<times> 'w gw" where
  "serve_requests h [] s = ([], s)"
| "serve_requests h ((cx, r) # rs) s =
     (case h r (s\<lparr>ctx := cx\<rparr>) of (out, t) \<Rightarrow> (case serve_requests h rs t of (outs, u) \<Rightarrow> (out # outs, u)))"

text \<open>
  A handle in the cache that the server does not know: Redis answers NOSCRIPT and changes nothing.
\<close>

definition lost_script :: "'w env \<Rightarrow> 'w gw \<Rightarrow> bool" where
  "lost_script env s = (\<exists>sha. dict_get (sha_cache s) (redis_client_id env (world s)) = Some sha \<and>
     (\<forall>key limit rate now. redis_evalsha env sha key limit rate now (world s) = (Inl RedisError, world s)))"

definition unlimited :: "rate_conf \<Rightarrow> 'w handler \<Rightarrow> 'w handler" where
  "unlimited c inner r s = inner r (s\<lparr>ctx := (ctx s)\<lparr>rate_limit_key := snd (resolve_key c r (ctx s))\<rparr>\<rparr>)"

lemma lost_script_ctx [simp]: "lost_script env (s\<lparr>ctx := cx\<rparr>) = lost_script env s"
  by (simp add: lost_script_def)

lemma lost_script_check:
  assumes "lost_script env s"
  shows "\<exists>e. check_limit env c key s = (Inl e, s)"
proof -
  obtain sha where sha: "dict_get (sha_cache s) (redis_client_id env (world s)) = Some sha"
    and lost: "\<And>key limit rate now. on_world (redis_evalsha env sha key limit rate now) s = (Inl RedisError, s)"
    using assms by (auto simp: lost_script_def on_world_def)
  from sha have "get_script_sha env s = (Inr sha, s)" by (simp add: get_script_sha_def)
  then show ?thesis using lost by (cases "redis_ready env (world s)") (simp_all add: check_limit_def get_redis_def)
qed

lemma lost_script_step:
  assumes "lost_script env s"
  shows "rate_limiter env c inner r s = unlimited c inner r s"
proof -
  obtain key raw_key where k: "resolve_key c r (ctx s) = (key, raw_key)" by (cases "resolve_key c r (ctx s)")
  obtain e where "check_limit env c key (s\<lparr>ctx := (ctx s)\<lparr>rate_limit_key := raw_key\<rparr>\<rparr>) =
      (Inl e, s\<lparr>ctx := (ctx s)\<lparr>rate_limit_key := raw_key\<rparr>\<rparr>)"
    using lost_script_check [of env "s\<lparr>ctx := (ctx s)\<lparr>rate_limit_key := raw_key\<rparr>\<rparr>" c key] assms by auto
  then show ?thesis by (simp add: rate_limiter_def unlimited_def k)
qed

text \<open>
  C27. Once Redis has lost the script, the limiter is gone: after a restart of the server, a failover or a flush of
  its scripts the cached handle is unknown, the error lets the request pass and the handle stays in the
  cache, so every later request is served exactly as if the plugin were not there, until the process is
  started again. The rest of the chain is only assumed not to load the script itself.
\<close>
theorem lost_script_disables_limit:
  fixes inner :: "'w handler"
  assumes "lost_script env s" and "\<And>r t. lost_script env t \<Longrightarrow> lost_script env (snd (inner r t))"
  shows "serve_requests (rate_limiter env c inner) jobs s = serve_requests (unlimited c inner) jobs s \<and>
    lost_script env (snd (serve_requests (rate_limiter env c inner) jobs s))"
  using assms(1)
proof (induction jobs arbitrary: s)
  case (Cons job jobs)
  obtain cx r where job: "job = (cx, r)" by (cases job)
  obtain out t where call: "unlimited c inner r (s\<lparr>ctx := cx\<rparr>) = (out, t)" by (cases "unlimited c inner r (s\<lparr>ctx := cx\<rparr>)")
  then have "rate_limiter env c inner r (s\<lparr>ctx := cx\<rparr>) = (out, t)"
    using lost_script_step [of env "s\<lparr>ctx := cx\<rparr>" c inner r] Cons.prems by simp
  moreover have "lost_script env (snd (unlimited c inner r (s\<lparr>ctx := cx\<rparr>)))"
    unfolding unlimited_def by (rule assms(2)) (simp add: Cons.prems)
  then have "lost_script env t" using call by simp
  ultimately show ?case using Cons.IH [of t] call by (auto simp: job split_beta)
qed simp

text \<open>A server that was restarted after the first request: two more requests, limit 1, both served.\<close>

lemma lost_script_disables_limit_witness:
  "map (map_sum id rs_status) (fst (serve_requests (rate_limiter demo_env (demo_rate\<lparr>rl_limit := JInt 1, rl_rate := 1 / 60\<rparr>)
       (\<lambda>r. ret (json_detail ''ok'' 200 [])))
     [(ctx demo_gw, demo_request), (ctx demo_gw, demo_request)] (demo_gw\<lparr>sha_cache := [(1, ''0'')]\<rparr>))) = [Inr 200, Inr 200]"
proof -
  have "lost_script demo_env (demo_gw\<lparr>sha_cache := [(1, ''0'')]\<rparr>)"
    by (auto simp: lost_script_def demo_env_def demo_gw_def demo_world_def Let_def split: option.splits)
  from lost_script_disables_limit [OF this, of "\<lambda>r. ret (json_detail ''ok'' 200 [])"
      "demo_rate\<lparr>rl_limit := JInt 1, rl_rate := 1 / 60\<rparr>" "[(ctx demo_gw, demo_request), (ctx demo_gw, demo_request)]"]
  show ?thesis by (simp add: unlimited_def json_detail_def)
qed

end
