(* ===== verification/Breaker.thy ===== *)
theory Breaker
  imports DemoWorld
begin

text \<open>
  The circuit breaker of \<open>gateway/plugins/circuitbreaker/breaker_plugin.py\<close>: three Redis keys
  per route (open, failure count, half-open lock) and the handler that reads and writes them around
  the call of the next handler. The abstract machine of the file's header comment is stated next to
  it and the handler is shown to refine it.
\<close>

section \<open>The plugin\<close>

record breaker_conf =
  cb_failure_threshold :: json
  cb_recovery_timeout :: json
  cb_window_seconds :: json

definition configure_breaker :: "(string, json) dict \<Rightarrow> breaker_conf outcome" where
  "configure_breaker config =
     Inr \<lparr>cb_failure_threshold = cfg_get config ''failure_threshold'' (JInt 5),
          cb_recovery_timeout = cfg_get config ''recovery_timeout'' (JFloat 30),
          cb_window_seconds = cfg_get config ''window_seconds'' (JInt 60)\<rparr>"

definition open_key :: "string \<Rightarrow> string" where
  "open_key rid = ''cb:open:'' @ rid"

definition fails_key :: "string \<Rightarrow> string" where
  "fails_key rid = ''cb:fails:'' @ rid"

definition half_open_key :: "string \<Rightarrow> string" where
  "half_open_key rid = ''cb:half_open:'' @ rid"

definition set_open :: "'w env \<Rightarrow> breaker_conf \<Rightarrow> string \<Rightarrow> ('w gw, unit) act" where
  "set_open env c rid =
     and_then (lift_outcome (to_int (cb_recovery_timeout c)))
       (\<lambda>ex. on_world (redis_set_ex env (open_key rid) ''1'' ex))"

definition record_failure :: "'w env \<Rightarrow> breaker_conf \<Rightarrow> string \<Rightarrow> ('w gw, unit) act" where
  "record_failure env c rid =
     and_then (on_world (redis_incr env (fails_key rid))) (\<lambda>current_fails.
     and_then (if current_fails = 1 then on_world (redis_expire env (fails_key rid) (cb_window_seconds c))
               else ret ()) (\<lambda>_.
     and_then (lift_outcome (int_ge current_fails (cb_failure_threshold c))) (\<lambda>trip.
     if trip then set_open env c rid else ret ())))"

definition handle_failure :: "'w env \<Rightarrow> breaker_conf \<Rightarrow> string \<Rightarrow> bool \<Rightarrow> ('w gw, unit) act" where
  "handle_failure env c rid is_probing =
     (if is_probing then
        and_then (set_open env c rid) (\<lambda>_. on_world (redis_delete env (half_open_key rid)))
      else record_failure env c rid)"

definition after_response :: "'w env \<Rightarrow> breaker_conf \<Rightarrow> string \<Rightarrow> bool \<Rightarrow> response \<Rightarrow> ('w gw, response) act" where
  "after_response env c rid is_probing resp =
     (if rs_status resp \<ge> 500 then
        and_then (handle_failure env c rid is_probing) (\<lambda>_. ret resp)
      else if is_probing then
        and_then (on_world (redis_delete env (fails_key rid))) (\<lambda>_.
        and_then (on_world (redis_delete env (half_open_key rid))) (\<lambda>_. ret resp))
      else ret resp)"

text \<open>The \<open>try\<close> around the call: any exception of it counts as a failure and is raised again.\<close>

definition proceed :: "'w env \<Rightarrow> breaker_conf \<Rightarrow> string \<Rightarrow> bool \<Rightarrow> ('w gw, response) act \<Rightarrow> ('w gw, response) act" where
  "proceed env c rid is_probing call =
     catching (and_then call (after_response env c rid is_probing))
       (\<lambda>exc. and_then (handle_failure env c rid is_probing) (\<lambda>_. throw exc))"

definition open_response :: "int \<Rightarrow> response" where
  "open_response ttl =
     json_detail ''Service temporarily unavailable (circuit open)'' 503 [(''Retry-After'', str_int (max ttl 1))]"

definition probing_response :: response where
  "probing_response =
     json_detail ''Service recovery in progress (half-open probe)'' 503 [(''Retry-After'', ''5'')]"

definition count_of :: "string option \<Rightarrow> int outcome" where
  "count_of v = (case v of None \<Rightarrow> Inr 0 | Some t \<Rightarrow> if t = [] then Inr 0 else int_of_str t)"

definition circuit_breaker :: "'w env \<Rightarrow> breaker_conf \<Rightarrow> 'w handler \<Rightarrow> 'w handler" where
  "circuit_breaker env c next r s =
     (let rid = route_id (ctx s) in
      and_then (get_redis env) (\<lambda>_.
      and_then (on_world (redis_exists env (open_key rid))) (\<lambda>is_open.
      if is_open then
        and_then (set_ctx (\<lambda>cx. cx\<lparr>circuit_open := True\<rparr>)) (\<lambda>_.
        and_then (on_world (redis_ttl env (open_key rid))) (\<lambda>ttl. ret (open_response ttl)))
      else
        and_then (on_world (redis_getkey env (fails_key rid))) (\<lambda>current_fails_str.
        and_then (lift_outcome (count_of current_fails_str)) (\<lambda>current_fails.
        and_then (lift_outcome (int_ge current_fails (cb_failure_threshold c))) (\<lambda>tripped.
        if tripped then
          and_then (on_world (redis_set_nx_ex env (half_open_key rid) ''1'' 10)) (\<lambda>acquired.
          if acquired then proceed env c rid True (next r) else ret probing_response)
        else proceed env c rid False (next r)))))) s)"

lemma circuit_breaker_once: "calls_once (circuit_breaker env c)"
  unfolding calls_once_iff circuit_breaker_def Let_def proceed_def
  by (intro allI planned_intros)

section \<open>The abstract machine\<close>

text \<open>
  The circuit of one route: closed with a failure count, open, ready for a probe (half open, lock
  free), or probing (half open, lock held).
\<close>

datatype circuit = Closed nat | Open | Ready | Probing

datatype verdict = Reject | Forward

fun circuit_verdict :: "circuit \<Rightarrow> verdict" where
  "circuit_verdict (Closed _) = Forward"
| "circuit_verdict Ready = Forward"
| "circuit_verdict Open = Reject"
| "circuit_verdict Probing = Reject"

text \<open>The state after a request whose call succeeded (\<open>True\<close>) or failed.\<close>

fun circuit_step :: "nat \<Rightarrow> circuit \<Rightarrow> bool \<Rightarrow> circuit" where
  "circuit_step thr (Closed n) ok = (if ok then Closed n else if thr \<le> Suc n then Open else Closed (Suc n))"
| "circuit_step thr Ready ok = (if ok then Closed 0 else Open)"
| "circuit_step thr Open ok = Open"
| "circuit_step thr Probing ok = Probing"

text \<open>
  In a closed circuit a success leaves the count alone: it is all failures so far that count, in
  whatever order successes come between them, not the failures in a row.
\<close>

lemma failures_accumulate:
  "0 < thr \<Longrightarrow> foldl (circuit_step thr) (Closed 0) oks =
     (if thr \<le> count_list oks False then Open else Closed (count_list oks False))"
  by (induction oks rule: rev_induct) auto

definition stored_count :: "string option \<Rightarrow> nat option" where
  "stored_count v =
     (case v of None \<Rightarrow> Some 0
      | Some t \<Rightarrow> if 0 < nat_of_digits t \<and> t = str_nat (nat_of_digits t) then Some (nat_of_digits t) else None)"

definition circuit_of :: "nat \<Rightarrow> (string \<Rightarrow> string option) \<Rightarrow> string \<Rightarrow> circuit" where
  "circuit_of thr keys rid =
     (if keys (open_key rid) \<noteq> None then Open
      else (let n = (case stored_count (keys (fails_key rid)) of None \<Rightarrow> 0 | Some n \<Rightarrow> n)
            in if n < thr then Closed n
               else if keys (half_open_key rid) = None then Ready else Probing))"

text \<open>The failure counter holds what \<open>INCR\<close> leaves there.\<close>

definition count_ok :: "(string \<Rightarrow> string option) \<Rightarrow> string \<Rightarrow> bool" where
  "count_ok keys rid = (stored_count (keys (fails_key rid)) \<noteq> None)"

definition call_ok :: "response outcome \<Rightarrow> bool" where
  "call_ok out = (case out of Inl _ \<Rightarrow> False | Inr resp \<Rightarrow> rs_status resp < 500)"

section \<open>Lemmas\<close>

lemma breaker_keys_distinct [simp]:
  "open_key rid \<noteq> fails_key rid" "fails_key rid \<noteq> open_key rid"
  "open_key rid \<noteq> half_open_key rid" "half_open_key rid \<noteq> open_key rid"
  "fails_key rid \<noteq> half_open_key rid" "half_open_key rid \<noteq> fails_key rid"
  by (simp_all add: open_key_def fails_key_def half_open_key_def)

lemma is_digit_not_space: "is_digit c \<Longrightarrow> \<not> is_space c"
  by (auto simp: is_digit_def is_space_def Let_def)

lemma strip_digits: "list_all is_digit s \<Longrightarrow> strip s = s"
proof -
  assume d: "list_all is_digit s"
  then have "dropWhile is_space s = s"
    by (cases s) (auto simp: is_digit_not_space)
  moreover from d have "dropWhile is_space (rev s) = rev s"
    by (cases s rule: rev_cases) (auto simp: is_digit_not_space)
  ultimately show ?thesis by (simp add: strip_def lstrip_def rstrip_chars_def)
qed

lemma int_of_str_nat: "int_of_str (str_nat n) = Inr (int n)"
proof -
  have d: "list_all is_digit (str_nat n)" by (simp add: list_all_iff str_nat_digits)
  then obtain c cs where "str_nat n = c # cs" "is_digit c"
    by (cases "str_nat n") (auto simp: list_all_iff)
  moreover from this have "c \<noteq> CHR ''-''" "c \<noteq> CHR ''+''" by (auto simp: is_digit_def)
  ultimately show ?thesis
    using d nat_of_digits_str_nat [of n] by (simp add: int_of_str_def strip_digits Let_def)
qed

lemma count_of_stored: "stored_count v = Some n \<Longrightarrow> count_of v = Inr (int n)"
  by (auto simp: stored_count_def count_of_def split: option.splits if_splits)
     (metis int_of_str_nat)+

lemma stored_count_str [simp]: "stored_count None = Some 0" "0 < n \<Longrightarrow> stored_count (Some (str_nat n)) = Some n"
  by (simp_all add: stored_count_def nat_of_digits_str_nat)

lemma stored_countD: "stored_count v = Some n \<Longrightarrow> v = (if n = 0 then None else Some (str_nat n))"
  by (auto simp: stored_count_def split: option.splits if_splits)

text \<open>A configuration with a positive threshold, recovery time and window.\<close>

definition breaker_conf_ok :: "breaker_conf \<Rightarrow> nat \<Rightarrow> bool" where
  "breaker_conf_ok c thr \<longleftrightarrow> 0 < thr \<and> cb_failure_threshold c = JInt (int thr) \<and>
     (\<exists>ex > 0. to_int (cb_recovery_timeout c) = Inr ex) \<and> (\<exists>n > 0. cb_window_seconds c = JInt n)"

lemma int_ge_thr: "breaker_conf_ok c thr \<Longrightarrow> int_ge (int n) (cb_failure_threshold c) = Inr (thr \<le> n)"
  by (auto simp: breaker_conf_ok_def int_ge_def)

lemma set_open_spec:
  assumes "string_server env keys" and "redis_ready env (world s)" and "breaker_conf_ok c thr"
  shows "\<exists>w. set_open env c rid s = (Inr (), s\<lparr>world := w\<rparr>) \<and> redis_ready env w \<and>
     keys w = (keys (world s))(open_key rid \<mapsto> ''1'')"
proof -
  obtain ex where ex: "0 < ex" "to_int (cb_recovery_timeout c) = Inr ex"
    using assms(3) by (auto simp: breaker_conf_ok_def)
  then show ?thesis
    using string_server_writes(1) [OF assms(1,2) ex(1), of "open_key rid" "''1''"]
    by (fastforce simp: set_open_def on_world_apply)
qed

lemma delete_spec:
  assumes "string_server env keys" and "redis_ready env (world s)"
  shows "\<exists>w. on_world (redis_delete env k) s = (Inr (), s\<lparr>world := w\<rparr>) \<and> redis_ready env w \<and>
     keys w = (keys (world s))(k := None)"
  using string_server_writes(3) [OF assms, of k] by (fastforce simp: on_world_apply)

lemma record_failure_spec:
  assumes "string_server env keys" and "redis_ready env (world s)" and "breaker_conf_ok c thr"
    and "stored_count (keys (world s) (fails_key rid)) = Some n"
  shows "\<exists>w. record_failure env c rid s = (Inr (), s\<lparr>world := w\<rparr>) \<and> redis_ready env w \<and>
     keys w = (if thr \<le> Suc n
       then (keys (world s))(fails_key rid \<mapsto> str_nat (Suc n), open_key rid \<mapsto> ''1'')
       else (keys (world s))(fails_key rid \<mapsto> str_nat (Suc n)))"
proof -
  let ?keys = "(keys (world s))(fails_key rid \<mapsto> str_nat (Suc n))"
  obtain w1 where w1: "redis_incr env (fails_key rid) (world s) = (Inr (int (Suc n)), w1)"
    "redis_ready env w1" "keys w1 = ?keys"
    using string_server_writes(4) [OF assms(1,2) stored_countD [OF assms(4)]] by blast
  obtain m where m: "0 < m" "cb_window_seconds c = JInt m" using assms(3) by (auto simp: breaker_conf_ok_def)
  obtain w2 where w2: "redis_expire env (fails_key rid) (JInt m) w1 = (Inr (), w2)"
    "redis_ready env w2" "keys w2 = ?keys"
    using string_server_writes(5) [OF assms(1) w1(2) m(1)] w1(3) by fastforce
  define w where "w = (if n = 0 then w2 else w1)"
  have w: "redis_ready env w" "keys w = ?keys" using w1 w2 by (simp_all add: w_def)
  obtain w3 where w3: "set_open env c rid (s\<lparr>world := w\<rparr>) = (Inr (), s\<lparr>world := w3\<rparr>)"
    "redis_ready env w3" "keys w3 = ?keys(open_key rid \<mapsto> ''1'')"
    using set_open_spec [OF assms(1) _ assms(3), of "s\<lparr>world := w\<rparr>" rid] w by auto
  have "record_failure env c rid s = (if thr \<le> Suc n then set_open env c rid (s\<lparr>world := w\<rparr>) else (Inr (), s\<lparr>world := w\<rparr>))"
    using w1(1) w2(1) m(2) int_ge_thr [OF assms(3), of "Suc n"]
    by (auto simp: record_failure_def on_world_apply w_def)
  then show ?thesis using w w3 by auto
qed

lemma handle_failure_spec:
  assumes "string_server env keys" and "redis_ready env (world s)" and "breaker_conf_ok c thr"
    and "stored_count (keys (world s) (fails_key rid)) = Some n"
  shows "\<exists>w. handle_failure env c rid probing s = (Inr (), s\<lparr>world := w\<rparr>) \<and> redis_ready env w \<and>
     keys w = (if probing then (keys (world s))(open_key rid \<mapsto> ''1'', half_open_key rid := None)
       else if thr \<le> Suc n
       then (keys (world s))(fails_key rid \<mapsto> str_nat (Suc n), open_key rid \<mapsto> ''1'')
       else (keys (world s))(fails_key rid \<mapsto> str_nat (Suc n)))"
proof (cases probing)
  case True
  obtain w1 where w1: "set_open env c rid s = (Inr (), s\<lparr>world := w1\<rparr>)" "redis_ready env w1"
    "keys w1 = (keys (world s))(open_key rid \<mapsto> ''1'')"
    using set_open_spec [OF assms(1-3)] by blast
  obtain w2 where "on_world (redis_delete env (half_open_key rid)) (s\<lparr>world := w1\<rparr>) = (Inr (), s\<lparr>world := w2\<rparr>)"
    "redis_ready env w2" "keys w2 = (keys (world s))(open_key rid \<mapsto> ''1'', half_open_key rid := None)"
    using delete_spec [OF assms(1), of "s\<lparr>world := w1\<rparr>" "half_open_key rid"] w1(2,3) by auto
  with w1(1) True show ?thesis by (intro exI [of _ w2]) (simp add: handle_failure_def)
next
  case False
  then show ?thesis using record_failure_spec [OF assms] by (simp add: handle_failure_def)
qed

lemma proceed_spec:
  assumes "string_server env keys" and "breaker_conf_ok c thr" and "call s = (out, t)"
    and "redis_ready env (world t)" and "stored_count (keys (world t) (fails_key rid)) = Some n"
  shows "\<exists>w. proceed env c rid probing call s = (out, t\<lparr>world := w\<rparr>) \<and> redis_ready env w \<and>
     keys w = (if call_ok out
       then (if probing then (keys (world t))(fails_key rid := None, half_open_key rid := None) else keys (world t))
       else if probing then (keys (world t))(open_key rid \<mapsto> ''1'', half_open_key rid := None)
       else if thr \<le> Suc n
       then (keys (world t))(fails_key rid \<mapsto> str_nat (Suc n), open_key rid \<mapsto> ''1'')
       else (keys (world t))(fails_key rid \<mapsto> str_nat (Suc n)))"
proof -
  obtain w where w: "handle_failure env c rid probing t = (Inr (), t\<lparr>world := w\<rparr>)" "redis_ready env w"
    "keys w = (if probing then (keys (world t))(open_key rid \<mapsto> ''1'', half_open_key rid := None)
       else if thr \<le> Suc n
       then (keys (world t))(fails_key rid \<mapsto> str_nat (Suc n), open_key rid \<mapsto> ''1'')
       else (keys (world t))(fails_key rid \<mapsto> str_nat (Suc n)))"
    using handle_failure_spec [OF assms(1,4,2,5)] by blast
  obtain w1 where w1: "on_world (redis_delete env (fails_key rid)) t = (Inr (), t\<lparr>world := w1\<rparr>)"
    "redis_ready env w1" "keys w1 = (keys (world t))(fails_key rid := None)"
    using delete_spec [OF assms(1,4)] by blast
  obtain w2 where w2: "on_world (redis_delete env (half_open_key rid)) (t\<lparr>world := w1\<rparr>) = (Inr (), t\<lparr>world := w2\<rparr>)"
    "redis_ready env w2" "keys w2 = (keys (world t))(fails_key rid := None, half_open_key rid := None)"
    using delete_spec [OF assms(1), of "t\<lparr>world := w1\<rparr>" "half_open_key rid"] w1(2,3) by auto
  show ?thesis
  proof (cases out)
    case (Inl e)
    with w assms(3) show ?thesis by (intro exI [of _ w]) (simp add: proceed_def call_ok_def)
  next
    case (Inr resp)
    consider "500 \<le> rs_status resp" | "rs_status resp < 500" probing | "rs_status resp < 500" "\<not> probing"
      by linarith
    then show ?thesis
    proof cases
      case 1
      with Inr w assms(3) show ?thesis
        by (intro exI [of _ w]) (simp add: proceed_def after_response_def call_ok_def)
    next
      case 2
      with Inr w1 w2 assms(3) show ?thesis
        by (intro exI [of _ w2]) (simp add: proceed_def after_response_def call_ok_def)
    next
      case 3
      with Inr assms(3,4) show ?thesis
        by (auto simp: proceed_def after_response_def call_ok_def intro!: exI [of _ "world t"])
    qed
  qed
qed

text \<open>
  What the handler does in each state of the circuit. \<open>next_keeps\<close> is the frame condition on
  the rest of the chain: it does not touch the three keys of this route.
\<close>

definition next_keeps :: "'w env \<Rightarrow> ('w \<Rightarrow> string \<Rightarrow> string option) \<Rightarrow> string \<Rightarrow> ('w gw, response) act \<Rightarrow> bool" where
  "next_keeps env keys rid call = (\<forall>t. redis_ready env (world t) \<longrightarrow>
     redis_ready env (world (snd (call t))) \<and>
     (\<forall>k \<in> {open_key rid, fails_key rid, half_open_key rid}. keys (world (snd (call t))) k = keys (world t) k))"

lemma next_keepsD:
  assumes "next_keeps env keys rid call" and "redis_ready env (world t)" and "call t = (out, u)"
  shows "redis_ready env (world u)"
    and "keys (world u) (open_key rid) = keys (world t) (open_key rid)"
    and "keys (world u) (fails_key rid) = keys (world t) (fails_key rid)"
    and "keys (world u) (half_open_key rid) = keys (world t) (half_open_key rid)"
  using assms by (auto simp: next_keeps_def)

lemma breaker_when_open:
  assumes "string_server env keys" and "redis_ready env (world s)"
    and "keys (world s) (open_key (route_id (ctx s))) \<noteq> None"
  shows "\<exists>ttl. \<forall>next. circuit_breaker env c next r s = (Inr (open_response ttl), s\<lparr>ctx := (ctx s)\<lparr>circuit_open := True\<rparr>\<rparr>)"
proof -
  obtain ttl where "redis_ttl env (open_key (route_id (ctx s))) (world s) = (Inr ttl, world s)"
    using string_server_reads(3) [OF assms(1,2)] by blast
  then show ?thesis
    using assms string_server_reads(1) [OF assms(1,2)]
    by (auto simp: circuit_breaker_def Let_def on_world_def intro!: exI [of _ ttl])
qed

lemma breaker_when_not_open:
  assumes "string_server env keys" and "redis_ready env (world s)" and "breaker_conf_ok c thr"
    and "keys (world s) (open_key (route_id (ctx s))) = None"
    and "stored_count (keys (world s) (fails_key (route_id (ctx s)))) = Some n"
  shows "circuit_breaker env c next r s =
     (if n < thr then proceed env c (route_id (ctx s)) False (next r) s
      else and_then (on_world (redis_set_nx_ex env (half_open_key (route_id (ctx s))) ''1'' 10))
        (\<lambda>acquired. if acquired then proceed env c (route_id (ctx s)) True (next r) else ret probing_response) s)"
  using assms string_server_reads(1,2) [OF assms(1,2)] int_ge_thr [OF assms(3)] count_of_stored [OF assms(5)]
  by (simp add: circuit_breaker_def Let_def on_world_def)

lemma circuit_of_cases:
  assumes "count_ok keys rid"
  obtains (open_key) "keys (open_key rid) \<noteq> None" "circuit_of thr keys rid = Open"
  | (closed) n where "keys (open_key rid) = None" "stored_count (keys (fails_key rid)) = Some n" "n < thr"
      "circuit_of thr keys rid = Closed n"
  | (ready) n where "keys (open_key rid) = None" "stored_count (keys (fails_key rid)) = Some n" "thr \<le> n"
      "keys (half_open_key rid) = None" "circuit_of thr keys rid = Ready"
  | (probing) n where "keys (open_key rid) = None" "stored_count (keys (fails_key rid)) = Some n" "thr \<le> n"
      "keys (half_open_key rid) \<noteq> None" "circuit_of thr keys rid = Probing"
  using assms unfolding circuit_of_def count_ok_def Let_def
  by (cases "stored_count (keys (fails_key rid))"; force split: if_splits)

text \<open>A request in an open or probing circuit is answered 503 whatever the rest of the chain is.\<close>

lemma breaker_rejects:
  assumes "string_server env keys" and "redis_ready env (world s)" and "breaker_conf_ok c thr"
    and "count_ok (keys (world s)) (route_id (ctx s))"
    and "circuit_verdict (circuit_of thr (keys (world s)) (route_id (ctx s))) = Reject"
  shows "\<exists>resp t. rs_status resp = 503 \<and> world t = world s \<and> (\<forall>next. circuit_breaker env c next r s = (Inr resp, t))"
  using assms(4)
proof (cases rule: circuit_of_cases [where thr = thr])
  case open_key
  obtain ttl where "\<forall>next. circuit_breaker env c next r s =
      (Inr (open_response ttl), s\<lparr>ctx := (ctx s)\<lparr>circuit_open := True\<rparr>\<rparr>)"
    using breaker_when_open [where c = c and r = r, OF assms(1,2) open_key(1)] by blast
  moreover have "rs_status (open_response ttl) = 503"
    by (simp add: open_response_def json_detail_def mk_response_def)
  ultimately show ?thesis by (intro exI [of _ "open_response ttl"]) auto
next
  case (probing n)
  have "on_world (redis_set_nx_ex env (half_open_key (route_id (ctx s))) ''1'' 10) s = (Inr False, s)"
    using string_server_reads(4) [OF assms(1,2) probing(4), of "''1''" 10] by (simp add: on_world_def)
  then have "\<forall>next. circuit_breaker env c next r s = (Inr probing_response, s)"
    using breaker_when_not_open [OF assms(1-3) probing(1,2)] probing(3) by (simp add: and_then_def)
  then show ?thesis
    by (intro exI [of _ probing_response] exI [of _ s])
       (simp add: probing_response_def json_detail_def mk_response_def)
qed (use assms(5) in auto)

text \<open>Otherwise the call is made, and its result moves the circuit as the machine says.\<close>

lemma proceed_moves:
  assumes "string_server env keys" and "breaker_conf_ok c thr" and "redis_ready env (world s)"
    and "next_keeps env keys rid call" and "stored_count (keys (world s) (fails_key rid)) = Some n"
    and "keys (world s) (open_key rid) = None" and "call s = (out, t)" and "\<not> probing \<Longrightarrow> n < thr"
  shows "\<exists>w. proceed env c rid probing call s = (out, t\<lparr>world := w\<rparr>) \<and> redis_ready env w \<and> count_ok (keys w) rid \<and>
     circuit_of thr (keys w) rid = circuit_step thr (if probing then Ready else Closed n) (call_ok out)"
proof -
  note k = next_keepsD [OF assms(4,3,7)]
  have n: "stored_count (keys (world t) (fails_key rid)) = Some n" using assms(5) k(3) by simp
  have thr: "0 < thr" using assms(2) by (simp add: breaker_conf_ok_def)
  have op: "keys (world t) (open_key rid) = None" using k(2) assms(6) by simp
  obtain w where w: "proceed env c rid probing call s = (out, t\<lparr>world := w\<rparr>)" "redis_ready env w"
    "keys w = (if call_ok out
       then (if probing then (keys (world t))(fails_key rid := None, half_open_key rid := None) else keys (world t))
       else if probing then (keys (world t))(open_key rid \<mapsto> ''1'', half_open_key rid := None)
       else if thr \<le> Suc n
       then (keys (world t))(fails_key rid \<mapsto> str_nat (Suc n), open_key rid \<mapsto> ''1'')
       else (keys (world t))(fails_key rid \<mapsto> str_nat (Suc n)))"
    using proceed_spec [where call = call and s = s and probing = probing, OF assms(1,2,7) k(1) n] by blast
  have "count_ok (keys w) rid \<and>
     circuit_of thr (keys w) rid = circuit_step thr (if probing then Ready else Closed n) (call_ok out)"
    using n thr op assms(8)
    by (simp add: circuit_of_def count_ok_def Let_def w(3))
  with w(1,2) show ?thesis by blast
qed

lemma breaker_forwards:
  assumes "string_server env keys" and "redis_ready env (world s)" and "breaker_conf_ok c thr"
    and "count_ok (keys (world s)) (route_id (ctx s))"
    and "circuit_verdict (circuit_of thr (keys (world s)) (route_id (ctx s))) = Forward"
    and "next_keeps env keys (route_id (ctx s)) (next r)"
  shows "\<exists>u out t w. next r u = (out, t) \<and> ctx u = ctx s \<and> circuit_breaker env c next r s = (out, t\<lparr>world := w\<rparr>) \<and>
     redis_ready env w \<and> count_ok (keys w) (route_id (ctx s)) \<and>
     circuit_of thr (keys w) (route_id (ctx s)) =
       circuit_step thr (circuit_of thr (keys (world s)) (route_id (ctx s))) (call_ok out)"
  using assms(4)
proof (cases rule: circuit_of_cases [where thr = thr])
  case (closed n)
  obtain out t where call: "next r s = (out, t)" by fastforce
  show ?thesis
    using proceed_moves [where probing = False, OF assms(1,3,2,6) closed(2,1) call] closed call
      breaker_when_not_open [OF assms(1-3) closed(1,2)]
    by (metis (full_types))
next
  case (ready n)
  let ?k = "half_open_key (route_id (ctx s))"
  obtain w where w: "redis_set_nx_ex env ?k ''1'' 10 (world s) = (Inr True, w)" "redis_ready env w"
    "keys w = (keys (world s))(?k \<mapsto> ''1'')"
    using string_server_writes(2) [OF assms(1,2) ready(4), of 10 "''1''"] by auto
  let ?u = "s\<lparr>world := w\<rparr>"
  obtain out t where call: "next r ?u = (out, t)" by fastforce
  have "circuit_breaker env c next r s = proceed env c (route_id (ctx s)) True (next r) ?u"
    using breaker_when_not_open [OF assms(1-3) ready(1,2)] ready(3) w(1) by (simp add: on_world_def and_then_def)
  moreover have "\<exists>v. proceed env c (route_id (ctx s)) True (next r) ?u = (out, t\<lparr>world := v\<rparr>) \<and> redis_ready env v \<and>
     count_ok (keys v) (route_id (ctx s)) \<and> circuit_of thr (keys v) (route_id (ctx s)) = circuit_step thr Ready (call_ok out)"
    using proceed_moves [where probing = True and s = ?u and n = n, OF assms(1,3) _ assms(6) _ _ call] w ready by simp
  moreover have "ctx ?u = ctx s" by simp
  ultimately show ?thesis using call ready(5) by metis
qed (use assms(5) in auto)

section \<open>Properties\<close>

text \<open>
  C5. The breaker refines the circuit machine of its header comment: on a Redis server that meets
  \<open>string_server\<close>, with a positive threshold, recovery time and window and a rest of chain that
  does not touch the breaker's keys of this route, an open circuit or one being probed answers 503
  without calling on, whatever the rest of the chain is, and stays as it is; a closed or ready
  circuit calls on and returns exactly what the call gave, an exception included, and the stored
  keys then represent the state the machine moves to (threshold reached: open; probe succeeded:
  closed with no failures; probe failed: open). As in the header comment the threshold is of the failures
  within the window, and a success of a closed circuit does not reset their count
  (\<open>failures_accumulate\<close>); \<open>docs/api_spec.md\<close>, section 3.3, speaks of consecutive failures.
\<close>

theorem breaker_refines_machine:
  fixes inner :: "'w handler"
  assumes "string_server env keys" and "redis_ready env (world s)" and "breaker_conf_ok c thr"
    and "route_id (ctx s) = rid" and "count_ok (keys (world s)) rid"
    and "next_keeps env keys rid (inner r)"
  shows "case circuit_verdict (circuit_of thr (keys (world s)) rid) of
      Reject \<Rightarrow> \<exists>resp t. rs_status resp = 503 \<and> keys (world t) = keys (world s) \<and>
        (\<forall>handler :: 'w handler. circuit_breaker env c handler r s = (Inr resp, t))
    | Forward \<Rightarrow> \<exists>u out t w. inner r u = (out, t) \<and> ctx u = ctx s \<and>
        circuit_breaker env c inner r s = (out, t\<lparr>world := w\<rparr>) \<and> count_ok (keys w) rid \<and>
        circuit_of thr (keys w) rid = circuit_step thr (circuit_of thr (keys (world s)) rid) (call_ok out)"
proof (cases "circuit_verdict (circuit_of thr (keys (world s)) rid)")
  case Reject
  then show ?thesis using breaker_rejects [OF assms(1-3), of r] assms(4,5) by (simp, metis)
next
  case Forward
  then show ?thesis using breaker_forwards [OF assms(1-3), of inner r] assms(4-6)
    by (simp, metis)
qed

definition demo_breaker :: breaker_conf where
  "demo_breaker = \<lparr>cb_failure_threshold = JInt 1, cb_recovery_timeout = JFloat 30, cb_window_seconds = JInt 60\<rparr>"

definition failing :: "'w handler" where
  "failing r = throw TimeoutException"

lemma demo_breaker_ok: "breaker_conf_ok demo_breaker 1"
  by (simp add: breaker_conf_ok_def demo_breaker_def)

lemma failing_apply [simp]: "failing r s = (Inl TimeoutException, s)"
  by (simp add: failing_def)

lemma failing_keeps: "next_keeps env keys rid (failing r)"
  by (simp add: next_keeps_def)

theorem breaker_refines_machine_witness:
  "\<exists>t w. circuit_breaker demo_env demo_breaker failing demo_request demo_gw = (Inl TimeoutException, t\<lparr>world := w\<rparr>) \<and>
     circuit_of 1 (d_keys w) ''users'' = Open"
proof -
  have "circuit_of 1 (d_keys (world demo_gw)) ''users'' = Closed 0" "redis_ready demo_env (world demo_gw)"
    "route_id (ctx demo_gw) = ''users''" "count_ok (d_keys (world demo_gw)) ''users''"
    by (simp_all add: demo_gw_def demo_world_def circuit_of_def count_ok_def demo_env_def new_context_def)
  with breaker_refines_machine [where inner = failing and s = demo_gw and rid = "''users''" and r = demo_request,
      OF demo_string_server _ demo_breaker_ok _ _ failing_keeps]
  obtain t w where "circuit_breaker demo_env demo_breaker failing demo_request demo_gw = (Inl TimeoutException, t\<lparr>world := w\<rparr>)"
      "circuit_of 1 (d_keys w) ''users'' = Open"
    by (auto simp: call_ok_def)
  then show ?thesis by blast
qed

end
