(* ===== verification/Steps.thy ===== *)
theory Steps
  imports Prelude
begin

text \<open>
  What a computation does to its state, composed. \<open>step_order\<close> is the interface of a preorder on
  states: a computation goes along it when it leads from every state to a later one, and every shape the
  coroutines are made of goes along it when its parts do. Keeping a view of the state and preserving a
  predicate are the two instances most components use; the key store of the admin API is another.
  \<open>stable\<close> is the interface of a step relation that never leaves an invariant.
\<close>

section \<open>Along a preorder\<close>

locale step_order =
  fixes rel :: "'s \<Rightarrow> 's \<Rightarrow> bool"
  assumes rel_refl: "rel s s" and rel_trans: "rel s t \<Longrightarrow> rel t u \<Longrightarrow> rel s u"
begin

definition along :: "('s, 'b) act \<Rightarrow> bool" where
  "along m = (\<forall>s. rel s (snd (m s)))"

lemma along_run: "along m \<Longrightarrow> m s = (r, t) \<Longrightarrow> rel s t"
  unfolding along_def by (metis snd_conv)

lemma along_and_then: "along m \<Longrightarrow> (\<And>x. along (f x)) \<Longrightarrow> along (and_then m f)"
  unfolding along_def and_then_def by (auto split: prod.split sum.split) (metis rel_trans snd_conv)+

lemma along_catching: "along m \<Longrightarrow> (\<And>e. along (h e)) \<Longrightarrow> along (catching m h)"
  unfolding along_def catching_def by (auto split: prod.split sum.split) (metis rel_trans snd_conv)+

lemma along_same: "(\<And>s. snd (m s) = s) \<Longrightarrow> along m"
  by (simp add: along_def rel_refl)

lemma along_basic: "along (ret x)" "along (throw e)"
  by (simp_all add: along_same)

lemma along_if: "(b \<Longrightarrow> along m) \<Longrightarrow> (\<not> b \<Longrightarrow> along n) \<Longrightarrow> along (if b then m else n)"
  by simp

lemma along_option: "along m \<Longrightarrow> (\<And>x. along (n x)) \<Longrightarrow> along (case v of None \<Rightarrow> m | Some x \<Rightarrow> n x)"
  by (cases v) simp_all

lemma along_pair: "(\<And>x y. along (f x y)) \<Longrightarrow> along (case p of (x, y) \<Rightarrow> f x y)"
  by (cases p) simp

lemmas along_shapes = along_and_then along_catching along_basic along_if along_option along_pair

end

section \<open>Keeping a view\<close>

named_theorems keeps_intros \<open>steps that keep a view, by their shape\<close>

definition keeps :: "('s \<Rightarrow> 'v) \<Rightarrow> ('s, 'b) act \<Rightarrow> bool" where
  "keeps view m = (\<forall>s. view (snd (m s)) = view s)"

interpretation kept: step_order "\<lambda>s t. view t = view s" for view :: "'s \<Rightarrow> 'v"
  by unfold_locales simp_all

lemma keeps_along: "keeps view = step_order.along (\<lambda>s t. view t = view s)"
  by (simp add: fun_eq_iff keeps_def kept.along_def)

lemmas keeps_shapes [keeps_intros] = kept.along_shapes [folded keeps_along]

lemma keepsD: "keeps view m \<Longrightarrow> m s = (r, t) \<Longrightarrow> view t = view s"
  by (rule kept.along_run [folded keeps_along])

section \<open>Preserving a predicate\<close>

named_theorems preserves_intros \<open>steps that preserve a predicate, by their shape\<close>

definition preserves :: "('s \<Rightarrow> bool) \<Rightarrow> ('s, 'b) act \<Rightarrow> bool" where
  "preserves P m = (\<forall>s. P s \<longrightarrow> P (snd (m s)))"

interpretation preserved: step_order "\<lambda>s t. P s \<longrightarrow> P t" for P :: "'s \<Rightarrow> bool"
  by unfold_locales simp_all

lemma preserves_along: "preserves P = step_order.along (\<lambda>s t. P s \<longrightarrow> P t)"
  by (simp add: fun_eq_iff preserves_def preserved.along_def)

lemmas preserves_shapes [preserves_intros] = preserved.along_shapes [folded preserves_along]

section \<open>Staying in an invariant\<close>

text \<open>\<open>stable\<close> is what a step relation promises that never leaves an invariant; then no run does.\<close>

locale stable =
  fixes step :: "'s \<Rightarrow> 's \<Rightarrow> bool" and inv :: "'s \<Rightarrow> bool"
  assumes inv_step: "inv s \<Longrightarrow> step s t \<Longrightarrow> inv t"
begin

lemma inv_steps: "step\<^sup>*\<^sup>* s t \<Longrightarrow> inv s \<Longrightarrow> inv t"
  by (induction rule: rtranclp_induct) (auto dest: inv_step)

end

end
