(* ===== verification/Pipeline.thy ===== *)
theory Pipeline
  imports Auth Logging RateLimit Breaker Steps
begin

text \<open>
  The middleware engine: the plugin registry of \<open>gateway/plugins/base.py\<close> and the plugin
  cache and chain of \<open>gateway/core/pipeline.py\<close>. A plugin instance is a value of the type
  \<open>plugin\<close>, one constructor per registered class, carrying what \<open>configure\<close> stored.
\<close>

section \<open>Plugins and their registry\<close>

datatype plugin =
    RequestIDPlugin
  | LoggingPlugin logging_conf
  | MTLSEnforcerPlugin mtls_conf
  | JWTPlugin jwt_conf
  | APIKeyPlugin apikey_conf
  | RateLimiterPlugin rate_conf
  | CircuitBreakerPlugin breaker_conf

fun plugin_call :: "'w env \<Rightarrow> plugin \<Rightarrow> 'w handler \<Rightarrow> 'w handler" where
  "plugin_call env RequestIDPlugin = request_id_plugin"
| "plugin_call env (LoggingPlugin c) = access_logger env c"
| "plugin_call env (MTLSEnforcerPlugin c) = mtls_enforcer c"
| "plugin_call env (JWTPlugin c) = jwt_validator env c"
| "plugin_call env (APIKeyPlugin c) = api_key c"
| "plugin_call env (RateLimiterPlugin c) = rate_limiter env c"
| "plugin_call env (CircuitBreakerPlugin c) = circuit_breaker env c"

fun plugin_order :: "plugin \<Rightarrow> int" where
  "plugin_order RequestIDPlugin = 1"
| "plugin_order (LoggingPlugin _) = 2"
| "plugin_order (MTLSEnforcerPlugin _) = 5"
| "plugin_order (JWTPlugin _) = 10"
| "plugin_order (APIKeyPlugin _) = 11"
| "plugin_order (RateLimiterPlugin _) = 20"
| "plugin_order (CircuitBreakerPlugin _) = 25"

text \<open>A registered class: its name and its construction with \<open>configure\<close>.\<close>

record plugin_class =
  cls_name :: string
  cls_configure :: "(string, json) dict \<Rightarrow> plugin outcome"

type_synonym registry = "(string, plugin_class) dict"

definition register :: "plugin_class \<Rightarrow> registry \<Rightarrow> registry" where
  "register cls reg = dict_set (cls_name cls) cls reg"

definition registry_get :: "registry \<Rightarrow> string \<Rightarrow> plugin_class option" where
  "registry_get reg name = dict_get reg name"

definition list_plugins :: "registry \<Rightarrow> string list" where
  "list_plugins reg = sort (map fst reg)"

text \<open>The classes in the order in which the application imports their modules.\<close>

definition plugin_classes :: "plugin_class list" where
  "plugin_classes =
     [\<lparr>cls_name = ''api-key'', cls_configure = (\<lambda>cfg. map_sum id APIKeyPlugin (configure_apikey cfg))\<rparr>,
      \<lparr>cls_name = ''jwt-validator'', cls_configure = (\<lambda>cfg. map_sum id JWTPlugin (configure_jwt cfg))\<rparr>,
      \<lparr>cls_name = ''mtls-enforcer'', cls_configure = (\<lambda>cfg. map_sum id MTLSEnforcerPlugin (configure_mtls cfg))\<rparr>,
      \<lparr>cls_name = ''circuit-breaker'', cls_configure = (\<lambda>cfg. map_sum id CircuitBreakerPlugin (configure_breaker cfg))\<rparr>,
      \<lparr>cls_name = ''request-id'', cls_configure = (\<lambda>cfg. Inr RequestIDPlugin)\<rparr>,
      \<lparr>cls_name = ''access-logger'', cls_configure = (\<lambda>cfg. map_sum id LoggingPlugin (configure_logging cfg))\<rparr>,
      \<lparr>cls_name = ''rate-limiter'', cls_configure = (\<lambda>cfg. map_sum id RateLimiterPlugin (configure_rate cfg))\<rparr>]"

definition plugin_registry :: registry where
  "plugin_registry = fold register plugin_classes []"

section \<open>The plugin cache\<close>

type_synonym plugin_cache = "(string, plugin) dict"

definition config_data :: "PluginConfig \<Rightarrow> json" where
  "config_data cfg = JObj [(''name'', JStr (pc_name cfg)), (''config'', JObj (pc_config cfg))]"

text \<open>\<open>config_digest\<close> is the MD5 digest of the text of a value.\<close>

definition config_hash :: "'w env \<Rightarrow> PluginConfig \<Rightarrow> string" where
  "config_hash env cfg = config_digest env (json_sort (config_data cfg))"

definition instantiate :: "registry \<Rightarrow> PluginConfig \<Rightarrow> plugin option" where
  "instantiate reg cfg =
     (case registry_get reg (pc_name cfg) of
        None \<Rightarrow> None
      | Some cls \<Rightarrow> (case cls_configure cls (pc_config cfg) of Inl e \<Rightarrow> None | Inr p \<Rightarrow> Some p))"

definition get_or_create :: "'w env \<Rightarrow> registry \<Rightarrow> PluginConfig \<Rightarrow> plugin_cache \<Rightarrow> plugin option \<times> plugin_cache" where
  "get_or_create env reg cfg cache =
     (let h = config_hash env cfg in
      case dict_get cache h of
        Some p \<Rightarrow> (Some p, cache)
      | None \<Rightarrow>
          (case instantiate reg cfg of
             None \<Rightarrow> (None, cache)
           | Some p \<Rightarrow> (Some p, dict_set h p cache)))"

section \<open>The chain\<close>

fun collect_plugins :: "'w env \<Rightarrow> registry \<Rightarrow> PluginConfig list \<Rightarrow> plugin_cache \<Rightarrow> plugin list \<times> plugin_cache" where
  "collect_plugins env reg [] cache = ([], cache)"
| "collect_plugins env reg (cfg # cfgs) cache =
     (if \<not> pc_enabled cfg then collect_plugins env reg cfgs cache
      else (let (inst, cache') = get_or_create env reg cfg cache;
                (rest, cache'') = collect_plugins env reg cfgs cache'
            in (case inst of None \<Rightarrow> rest | Some p \<Rightarrow> p # rest, cache'')))"

definition get_plugins :: "'w env \<Rightarrow> registry \<Rightarrow> PluginConfig list \<Rightarrow> plugin_cache \<Rightarrow> plugin list \<times> plugin_cache" where
  "get_plugins env reg cfgs cache =
     (let (ps, cache') = collect_plugins env reg cfgs cache in (sort_key plugin_order ps, cache'))"

definition default_handler :: "'w handler" where
  "default_handler r = ret (json_detail ''No upstream handler resolved the request'' 502 [])"

definition build_chain :: "'w env \<Rightarrow> plugin list \<Rightarrow> 'w handler \<Rightarrow> 'w handler" where
  "build_chain env ps endpoint = foldr (plugin_call env) ps endpoint"

definition execute :: "'w env \<Rightarrow> registry \<Rightarrow> PluginConfig list \<Rightarrow> PluginConfig list \<Rightarrow> 'w handler \<Rightarrow>
    request \<Rightarrow> plugin_cache \<Rightarrow> 'w gw \<Rightarrow> (response outcome \<times> 'w gw) \<times> plugin_cache" where
  "execute env reg global_configs route_configs proxy_handler r cache s =
     (let (global_plugins, cache') = get_plugins env reg global_configs cache;
          (route_plugins, cache'') = get_plugins env reg route_configs cache'
      in (build_chain env (global_plugins @ route_plugins) proxy_handler r s, cache''))"

section \<open>Chains of well-behaved wrappers\<close>

text \<open>
  What the pipeline relies on of its plugins: each is \<open>calls_once\<close>. Then the whole chain is,
  and a plugin that does not depend on the rest of the chain for a request cuts the chain there.
\<close>

locale middleware =
  fixes wrap :: "'p \<Rightarrow> (request \<Rightarrow> 's \<Rightarrow> 's answer) \<Rightarrow> request \<Rightarrow> 's \<Rightarrow> 's answer"
  assumes once: "calls_once (wrap p)"
begin

definition chain :: "'p list \<Rightarrow> (request \<Rightarrow> 's \<Rightarrow> 's answer) \<Rightarrow> request \<Rightarrow> 's \<Rightarrow> 's answer" where
  "chain ps endpoint = foldr wrap ps endpoint"

definition closed_for :: "'p \<Rightarrow> request \<Rightarrow> bool" where
  "closed_for p r = (\<forall>e e' s. wrap p e r s = wrap p e' r s)"

lemma wrap_plan: "\<exists>p'. \<forall>next. wrap p next r s = follow p' (next r)"
  using calls_onceD [OF once] .

lemma wrap_cong: "(\<And>t. e r t = e' r t) \<Longrightarrow> wrap p e r s = wrap p e' r s"
  using wrap_plan [of p r s] by (metis ext)

lemma chain_once: "calls_once (chain ps)"
proof (induction ps)
  case Nil
  show ?case by (simp add: calls_once_iff chain_def planned_call)
next
  case (Cons p ps)
  show ?case
  proof (rule calls_onceI)
    fix r s
    obtain q where q: "\<forall>next. wrap p next r s = follow q (next r)" using wrap_plan by blast
    show "\<exists>q'. \<forall>next. chain (p # ps) next r s = follow q' (next r)"
    proof (cases q)
      case (Inl out)
      with q show ?thesis by (intro exI [of _ "Inl out"]) (simp add: chain_def)
    next
      case (Inr tp)
      obtain t post where tp: "tp = (t, post)" by fastforce
      obtain q' where q': "\<forall>next. chain ps next r t = follow q' (next r)" using calls_onceD [OF Cons.IH] by blast
      have "\<forall>next. chain (p # ps) next r s = post (follow q' (next r))"
        using q q' by (simp add: Inr tp chain_def)
      then show ?thesis
        by (cases q') (auto intro: exI [of _ "Inl (post _)"] exI [of _ "Inr (_, post \<circ> _)"])
    qed
  qed
qed

lemma chain_append: "chain (ps @ qs) e = chain ps (chain qs e)"
  by (simp add: chain_def)

lemma chain_closed:
  assumes "p \<in> set ps" and "closed_for p r"
  shows "chain ps e r s = chain ps e' r s"
  using assms(1)
proof (induction ps arbitrary: s)
  case (Cons q qs)
  show ?case
  proof (cases "p = q")
    case True
    with assms(2) show ?thesis unfolding chain_def closed_for_def by simp
  next
    case False
    with Cons have "\<And>t. chain qs e r t = chain qs e' r t" by simp
    then have "wrap q (chain qs e) r s = wrap q (chain qs e') r s" by (rule wrap_cong)
    then show ?thesis by (simp add: chain_def)
  qed
qed simp

end

lemma plugin_call_once: "calls_once (plugin_call env p)"
  by (cases p) (simp_all add: request_id_once access_logger_once mtls_enforcer_once jwt_validator_once
      api_key_once rate_limiter_once circuit_breaker_once)

interpretation mw: middleware "plugin_call env" for env :: "'w env"
  by unfold_locales (rule plugin_call_once)

lemma chain_is_build_chain: "mw.chain env = build_chain env"
  by (intro ext) (simp add: mw.chain_def build_chain_def)

section \<open>The cache\<close>

text \<open>
  Two configurations of the ones in use have one hash only when they are the same plugin name and the same
  dictionary. This follows from what is asked of MD5, that it tells apart the texts it is given here
  (\<open>digest_collision_free\<close>); dictionaries are lists in the model, and equal ones within the values of
  a configuration are to be written alike.
\<close>

definition collision_free :: "'w env \<Rightarrow> PluginConfig set \<Rightarrow> bool" where
  "collision_free env used = (\<forall>c \<in> used. \<forall>c' \<in> used. config_hash env c = config_hash env c' \<longrightarrow>
     pc_name c = pc_name c' \<and> dict_get (pc_config c) = dict_get (pc_config c'))"

definition written_alike :: "PluginConfig set \<Rightarrow> bool" where
  "written_alike used = (\<forall>c \<in> used. \<forall>c' \<in> used. \<forall>k v v'. dict_get (pc_config c) k = Some v \<and>
     dict_get (pc_config c') k = Some v' \<and> json_sort v = json_sort v' \<longrightarrow> v = v')"

lemma map_of_sort_key: "map_of (sort_key fst xs) = map_of xs"
proof
  fix k
  have "map_of ys k = map_of (filter (\<lambda>p. fst p = k) ys) k" for ys :: "('a \<times> 'b) list"
    by (induction ys) auto
  then show "map_of (sort_key fst xs) k = map_of xs k" by (metis sort_key_stable)
qed

lemma sorted_data_get:
  "json_sort (JObj kvs) = json_sort (JObj kvs') \<Longrightarrow> map_option json_sort (dict_get kvs k) = map_option json_sort (dict_get kvs' k)"
proof -
  assume "json_sort (JObj kvs) = json_sort (JObj kvs')"
  then have "map_of (sort_key fst (map (map_prod id json_sort) kvs)) k = map_of (sort_key fst (map (map_prod id json_sort) kvs')) k"
    by simp
  moreover have "map_of (map (map_prod id json_sort) xs) k = map_option json_sort (map_of xs k)" for xs
    by (induction xs) auto
  ultimately show ?thesis by (simp add: map_of_sort_key)
qed

lemma digest_collision_free:
  assumes "inj_on (config_digest env) (json_sort ` config_data ` used)" and "written_alike used"
  shows "collision_free env used"
  unfolding collision_free_def
proof (intro ballI impI)
  fix c c' assume used: "c \<in> used" "c' \<in> used" and "config_hash env c = config_hash env c'"
  then have data: "json_sort (config_data c) = json_sort (config_data c')"
    using assms(1) by (auto simp: config_hash_def dest: inj_onD)
  note get = sorted_data_get [OF data [unfolded config_data_def]]
  have name: "pc_name c = pc_name c'" using get [of "''name''"] by simp
  have "json_sort (JObj (pc_config c)) = json_sort (JObj (pc_config c'))" using get [of "''config''"] by simp
  then have "map_option json_sort (dict_get (pc_config c) k) = map_option json_sort (dict_get (pc_config c') k)" for k
    by (rule sorted_data_get)
  moreover have "dict_get (pc_config c) k = dict_get (pc_config c') k"
    if "map_option json_sort (dict_get (pc_config c) k) = map_option json_sort (dict_get (pc_config c') k)" for k
  proof (cases "dict_get (pc_config c) k")
    case (Some v)
    with that obtain v' where v': "dict_get (pc_config c') k = Some v'" "json_sort v = json_sort v'"
      by (cases "dict_get (pc_config c') k") auto
    have "v = v'" using assms(2) used Some v' unfolding written_alike_def by blast
    with Some v'(1) show ?thesis by simp
  qed (use that in simp)
  ultimately have "dict_get (pc_config c) = dict_get (pc_config c')" by (intro ext) blast
  with name show "pc_name c = pc_name c' \<and> dict_get (pc_config c) = dict_get (pc_config c')" by blast
qed

definition cache_ok :: "'w env \<Rightarrow> PluginConfig set \<Rightarrow> plugin_cache \<Rightarrow> bool" where
  "cache_ok env used cache = (\<forall>h p. dict_get cache h = Some p \<longrightarrow>
     (\<exists>c \<in> used. config_hash env c = h \<and> instantiate plugin_registry c = Some p))"

text \<open>The plugin list of a route without any cache.\<close>

definition fresh_plugins :: "registry \<Rightarrow> PluginConfig list \<Rightarrow> plugin list" where
  "fresh_plugins reg cfgs = sort_key plugin_order (List.map_filter (instantiate reg) (filter pc_enabled cfgs))"

lemma cache_ok_Nil [simp]: "cache_ok env used []"
  by (simp add: cache_ok_def)

lemma cfg_get_cong: "dict_get d = dict_get d' \<Longrightarrow> cfg_get d k v = cfg_get d' k v"
  by (simp add: cfg_get_def dict_get_default_def)

lemma configure_cong:
  assumes "dict_get d = dict_get d'"
  shows "configure_apikey d = configure_apikey d'" and "configure_jwt d = configure_jwt d'"
    and "configure_mtls d = configure_mtls d'" and "configure_breaker d = configure_breaker d'"
    and "configure_logging d = configure_logging d'" and "configure_rate d = configure_rate d'"
  using cfg_get_cong [OF assms]
  by (simp_all add: configure_apikey_def configure_jwt_def configure_mtls_def configure_breaker_def
      configure_logging_def configure_rate_def split: sum.split)

lemma plugin_registry_get:
  "registry_get plugin_registry name = find (\<lambda>cls. cls_name cls = name) plugin_classes"
  by (simp add: plugin_registry_def plugin_classes_def register_def registry_get_def)

lemma instantiate_cong:
  assumes "pc_name c = pc_name c'" and "dict_get (pc_config c) = dict_get (pc_config c')"
  shows "instantiate plugin_registry c = instantiate plugin_registry c'"
  using configure_cong [OF assms(2)] assms(1)
  by (simp add: instantiate_def plugin_registry_get plugin_classes_def)

lemma get_or_create_spec:
  assumes "cache_ok env used cache" and "collision_free env used" and "c \<in> used"
    and "get_or_create env plugin_registry c cache = (res, cache')"
  shows "res = instantiate plugin_registry c \<and> cache_ok env used cache'"
proof (cases "dict_get cache (config_hash env c)")
  case None
  show ?thesis
  proof (cases "instantiate plugin_registry c")
    case None
    with \<open>dict_get cache _ = None\<close> assms(1,4) show ?thesis by (simp add: get_or_create_def)
  next
    case (Some p)
    with None assms(4) have "res = Some p" and c': "cache' = dict_set (config_hash env c) p cache"
      by (simp_all add: get_or_create_def)
    with Some assms(1,3) show ?thesis
      unfolding cache_ok_def c' update_conv by (metis (no_types, lifting) fun_upd_apply)
  qed
next
  case (Some p)
  with assms(1) have "\<exists>c' \<in> used. config_hash env c' = config_hash env c \<and> instantiate plugin_registry c' = Some p"
    unfolding cache_ok_def by blast
  then obtain c' where c': "c' \<in> used" "config_hash env c' = config_hash env c"
    "instantiate plugin_registry c' = Some p" by blast
  have "pc_name c' = pc_name c \<and> dict_get (pc_config c') = dict_get (pc_config c)"
    using assms(2) c'(1,2) assms(3) unfolding collision_free_def by blast
  then have "instantiate plugin_registry c = Some p"
    using c'(3) instantiate_cong [of c' c] by simp
  with Some assms(1,4) show ?thesis by (simp add: get_or_create_def)
qed

lemma collect_plugins_spec:
  assumes "cache_ok env used cache" and "collision_free env used" and "set cfgs \<subseteq> used"
    and "collect_plugins env plugin_registry cfgs cache = (ps, cache')"
  shows "ps = List.map_filter (instantiate plugin_registry) (filter pc_enabled cfgs) \<and> cache_ok env used cache'"
  using assms
proof (induction cfgs arbitrary: cache ps cache')
  case Nil
  then show ?case by (simp add: map_filter_simps)
next
  case (Cons c cfgs)
  show ?case
  proof (cases "pc_enabled c")
    case False
    with Cons show ?thesis by (simp add: map_filter_simps)
  next
    case True
    obtain inst k where g: "get_or_create env plugin_registry c cache = (inst, k)" by fastforce
    then have i: "inst = instantiate plugin_registry c" "cache_ok env used k"
      using get_or_create_spec [OF Cons.prems(1,2) _ g] Cons.prems(3) by auto
    obtain rest k' where r: "collect_plugins env plugin_registry cfgs k = (rest, k')" by fastforce
    from Cons.IH [OF i(2) Cons.prems(2) _ r] Cons.prems(3)
    have "rest = List.map_filter (instantiate plugin_registry) (filter pc_enabled cfgs)" "cache_ok env used k'"
      by auto
    with True Cons.prems(4) g r i show ?thesis by (auto simp: map_filter_simps split: option.splits)
  qed
qed

lemma plugin_cache_spec:
  assumes "cache_ok env used cache" and "collision_free env used" and "set cfgs \<subseteq> used"
    and "get_plugins env plugin_registry cfgs cache = (ps, cache')"
  shows "ps = fresh_plugins plugin_registry cfgs \<and> cache_ok env used cache'"
proof -
  obtain qs k where "collect_plugins env plugin_registry cfgs cache = (qs, k)" by fastforce
  with collect_plugins_spec [OF assms(1-3) this] assms(4) show ?thesis
    by (auto simp: get_plugins_def fresh_plugins_def)
qed

text \<open>
  C34. The plugin cache is transparent: whatever lists of configurations requests built before, starting from an empty cache,
  the plugins built from a list now are those that instantiating every enabled configuration afresh
  and sorting by order would give, equal orders in configuration order; in particular a
  reloaded route never runs with the plugins of its old configuration. Configurations with an unknown name
  or that fail to configure are skipped. Asked is only that MD5 does not map two of the hashed texts
  to one digest and that equal dictionaries nested in the values are written alike.
\<close>

theorem plugin_cache_transparent:
  assumes "inj_on (config_digest env) (json_sort ` config_data ` set (concat (cfgs # earlier)))"
    and "written_alike (set (concat (cfgs # earlier)))"
  shows "let cache = fold (\<lambda>cs k. snd (get_plugins env plugin_registry cs k)) earlier [];
         ps = fst (get_plugins env plugin_registry cfgs cache)
    in ps = sort_key plugin_order (List.map_filter (instantiate plugin_registry) (filter pc_enabled cfgs))"
proof -
  let ?used = "set (concat (cfgs # earlier))"
  note free = digest_collision_free [OF assms]
  have "cache_ok env ?used (fold (\<lambda>cs k. snd (get_plugins env plugin_registry cs k)) ls k)"
    if "cache_ok env ?used k" "set ls \<subseteq> set earlier" for ls k
    using that
  proof (induction ls arbitrary: k)
    case (Cons cs ls)
    obtain ps k' where g: "get_plugins env plugin_registry cs k = (ps, k')" by fastforce
    have "set cs \<subseteq> ?used" using Cons.prems(2) by auto
    with plugin_cache_spec [OF Cons.prems(1) free _ g] Cons.IH [of k'] Cons.prems(2) g show ?case by simp
  qed simp
  then have "cache_ok env ?used (fold (\<lambda>cs k. snd (get_plugins env plugin_registry cs k)) earlier [])" by simp
  from plugin_cache_spec [OF this free _ surjective_pairing] show ?thesis
    by (simp add: Let_def fresh_plugins_def)
qed

definition demo_key_config :: PluginConfig where
  "demo_key_config = \<lparr>pc_name = ''api-key'', pc_enabled = True, pc_config = [(''keys'', JList [JStr ''k1''])]\<rparr>"

definition demo_id_config :: PluginConfig where
  "demo_id_config = \<lparr>pc_name = ''request-id'', pc_enabled = True, pc_config = []\<rparr>"

definition digest_env :: "demo env" where
  "digest_env = demo_env\<lparr>config_digest := (\<lambda>j. case j of JObj kvs \<Rightarrow>
     (case map_of kvs ''name'' of Some (JStr s) \<Rightarrow> s | _ \<Rightarrow> []) | _ \<Rightarrow> [])\<rparr>"

lemma demo_collision_free: "collision_free digest_env {demo_key_config, demo_id_config}"
  by (simp add: collision_free_def config_hash_def config_data_def digest_env_def demo_key_config_def demo_id_config_def)

lemma demo_instances:
  "instantiate plugin_registry demo_id_config = Some RequestIDPlugin"
  "instantiate plugin_registry demo_key_config = Some (APIKeyPlugin
     \<lparr>ak_keys = [JStr ''k1''], ak_header_name = JStr ''x-api-key'', ak_query_param = JNull\<rparr>)"
  by (simp_all add: instantiate_def plugin_registry_get plugin_classes_def demo_id_config_def demo_key_config_def
      configure_apikey_def cfg_get_def dict_get_default_def)

text \<open>
  Two limiters that differ in their configuration only, and a digest that is the text itself.
\<close>

definition demo_limiter :: "int \<Rightarrow> PluginConfig" where
  "demo_limiter n = \<lparr>pc_name = ''rate-limiter'', pc_enabled = True, pc_config = [(''limit'', JInt n)]\<rparr>"

definition text_env :: "demo env" where
  "text_env = demo_env\<lparr>config_digest := json_text (\<lambda>_. ''0.0'')\<rparr>"

theorem plugin_cache_transparent_witness:
  "fst (get_plugins text_env plugin_registry [demo_limiter 6] (snd (get_plugins text_env plugin_registry [demo_limiter 5] []))) =
     [RateLimiterPlugin \<lparr>rl_limit = JInt 6, rl_window = JInt 60, rl_key_func = JStr ''ip'', rl_rate = 1 / 10\<rparr>]"
proof -
  have "json_text (\<lambda>_. ''0.0'') (json_sort (config_data (demo_limiter 5))) \<noteq> json_text (\<lambda>_. ''0.0'') (json_sort (config_data (demo_limiter 6)))"
    by code_simp
  then have "inj_on (config_digest text_env) (json_sort ` config_data ` set (concat [[demo_limiter 6], [demo_limiter 5]]))"
    by (auto simp: text_env_def inj_on_def)
  moreover have "written_alike (set (concat [[demo_limiter 6], [demo_limiter 5]]))"
    by (auto simp: written_alike_def demo_limiter_def split: if_splits)
  moreover have "instantiate plugin_registry (demo_limiter 6) =
      Some (RateLimiterPlugin \<lparr>rl_limit = JInt 6, rl_window = JInt 60, rl_key_func = JStr ''ip'', rl_rate = 1 / 10\<rparr>)"
    by (simp add: instantiate_def plugin_registry_get plugin_classes_def demo_limiter_def configure_rate_def cfg_get_def
        dict_get_default_def true_div_def)
  ultimately show ?thesis
    using plugin_cache_transparent [of text_env "[demo_limiter 6]" "[[demo_limiter 5]]"]
    by (simp add: Let_def map_filter_simps) (simp add: demo_limiter_def)
qed

section \<open>The chain\<close>

lemma execute_split:
  "fst (execute env reg gs rs e r cache s) =
     build_chain env (fst (get_plugins env reg gs cache) @
       fst (get_plugins env reg rs (snd (get_plugins env reg gs cache)))) e r s"
  by (simp add: execute_def split_beta)

text \<open>
  C15. However many plugins a request passes, the endpoint is called at most once, with the request
  as it came: for every request and state either the response does not depend on the endpoint at
  all, or it is the endpoint's answer on one state, transformed. So the proxy never forwards one
  client request twice on account of the pipeline, and no plugin rewrites the request.
\<close>

theorem execute_calls_endpoint_once:
  "calls_once (\<lambda>endpoint r s. fst (execute env reg global_configs route_configs endpoint r cache s))"
  unfolding execute_split chain_is_build_chain [symmetric] by (rule mw.chain_once)

text \<open>Whether a plugin lets a request in by the request alone.\<close>

fun lets_in :: "plugin \<Rightarrow> request \<Rightarrow> bool" where
  "lets_in (APIKeyPlugin c) r = valid_api_key c r"
| "lets_in (MTLSEnforcerPlugin c) r = valid_certificate c r"
| "lets_in _ r = True"

lemma closed_if_not_let_in:
  fixes env :: "'w env"
  assumes "\<not> lets_in p r"
  shows "middleware.closed_for (plugin_call env) p r"
proof (cases p)
  case (APIKeyPlugin c)
  then obtain out where "\<forall>(next :: 'w handler) s. api_key c next r s = (out, s)" using api_key_denies [of c r] assms by auto
  with APIKeyPlugin show ?thesis by (simp add: mw.closed_for_def)
next
  case (MTLSEnforcerPlugin c)
  then obtain out where "\<forall>(next :: 'w handler) s. mtls_enforcer c next r s = (out, s)" using mtls_denies [of c r] assms by auto
  with MTLSEnforcerPlugin show ?thesis by (simp add: mw.closed_for_def)
qed (use assms in simp_all)

text \<open>
  A refusal: an exception or an error status. A plugin answers with a refusal of its own or passes on
  what the rest of the chain gives, so a refusal at one place is a refusal of the whole chain.
\<close>

definition refused :: "response outcome \<Rightarrow> bool" where
  "refused out = (case out of Inl _ \<Rightarrow> True | Inr resp \<Rightarrow> 400 \<le> rs_status resp)"

lemma refused_simps [simp]: "refused (Inl e)" "refused (Inr resp) \<longleftrightarrow> 400 \<le> rs_status resp"
  by (simp_all add: refused_def)

definition refuses :: "('s, response) act \<Rightarrow> bool" where
  "refuses m = (\<forall>s. refused (fst (m s)))"

lemma refuses_run: "refuses m \<Longrightarrow> refused (fst (m s))"
  by (simp add: refuses_def)

lemma refuses_intros:
  "(\<And>a. refuses (f a)) \<Longrightarrow> refuses (and_then any f)"
  "refuses m \<Longrightarrow> refuses m' \<Longrightarrow> refuses (if b then m else m')"
  "400 \<le> rs_status resp \<Longrightarrow> refuses (ret resp)" "refuses (throw e)"
  by (auto simp: refuses_def and_then_def split: prod.splits sum.splits)

lemma refuses_passed_on:
  assumes "refuses m" and "\<And>resp s. refused (fst (f resp s)) \<or> (\<exists>resp'. fst (f resp s) = Inr resp' \<and> rs_status resp' = rs_status resp)"
  shows "refuses (and_then m f)"
  unfolding refuses_def
proof
  fix s
  show "refused (fst (and_then m f s))"
  proof (cases "m s")
    case (Pair out t)
    with assms(1) have "refused out" unfolding refuses_def by (metis fst_conv)
    with Pair assms(2) show ?thesis by (cases out) (fastforce simp: and_then_def)+
  qed
qed

lemma refuses_catching: "refuses m \<Longrightarrow> (\<And>e. refuses (h e)) \<Longrightarrow> refuses (catching m h)"
  unfolding refuses_def catching_def
  by (auto split: prod.splits sum.splits) (metis fst_conv refused_simps(2))

lemma plugin_refuses:
  assumes "refuses (next r)"
  shows "refuses (plugin_call env p next r)"
proof (cases p)
  case RequestIDPlugin
  have "refused (fst (request_id_plugin next r s))" for s
    using assms unfolding request_id_plugin_spec refuses_def Let_def
    by (auto split: prod.split sum.split option.split) (metis fst_conv refused_simps(2))+
  with RequestIDPlugin show ?thesis by (simp add: refuses_def)
next
  case (LoggingPlugin c)
  have "refused (fst (access_logger env c next r s))" for s
    using assms unfolding access_logger_spec refuses_def
    by (auto split: prod.split sum.split) (metis fst_conv refused_simps(2))+
  with LoggingPlugin show ?thesis by (simp add: refuses_def)
next
  case (MTLSEnforcerPlugin c)
  then show ?thesis by (simp add: mtls_enforcer_def Let_def) (intro refuses_intros assms; simp)
next
  case (JWTPlugin c)
  then show ?thesis
    by (simp add: jwt_validator_def Let_def) (intro refuses_intros assms; simp add: jwt_unauthorized_def)
next
  case (APIKeyPlugin c)
  then show ?thesis
    by (simp add: api_key_def Let_def) (intro refuses_intros assms; simp add: apikey_unauthorized_def apikey_forbidden_def)
next
  case (RateLimiterPlugin c)
  have ok: "res = Inr None \<or> (\<exists>resp. res = Inr (Some resp) \<and> 400 \<le> rs_status resp)"
    if "catching (check_limit env c key) (\<lambda>exc. ret None) s = (res, t)" for key s res t
    using that by (auto simp: catching_def check_limit_def and_then_def too_many_def split: prod.splits sum.splits if_splits)
  have "refused (fst (rate_limiter env c next r s))" for s
  proof -
    obtain key raw where k: "resolve_key c r (ctx s) = (key, raw)" by fastforce
    obtain res t where t: "catching (check_limit env c key) (\<lambda>exc. ret None) (s\<lparr>ctx := (ctx s)\<lparr>rate_limit_key := raw\<rparr>\<rparr>) = (res, t)"
      by fastforce
    from ok [OF t] t k assms show ?thesis by (auto simp: rate_limiter_def refuses_def)
  qed
  with RateLimiterPlugin show ?thesis by (simp add: refuses_def)
next
  case (CircuitBreakerPlugin c)
  have "refuses (proceed env c rid b (next r))" for rid b
    unfolding proceed_def
    by (intro refuses_catching refuses_passed_on assms refuses_intros)
       (auto simp: after_response_def and_then_def split: prod.splits sum.splits)
  note pr = this
  have "refused (fst (circuit_breaker env c next r s))" for s
    unfolding circuit_breaker_def Let_def
    by (rule refuses_run [where s = s]) (intro refuses_intros pr; simp add: open_response_def probing_response_def)
  with CircuitBreakerPlugin show ?thesis by (simp add: refuses_def)
qed

lemma chain_refuses:
  assumes "p \<in> set ps" and "\<not> lets_in p r"
  shows "refuses (build_chain env ps e r)"
  using assms(1)
proof (induction ps)
  case (Cons q qs)
  show ?case
  proof (cases "p = q")
    case True
    have "denied out \<Longrightarrow> refused out" for out by (auto simp: denied_def refused_def split: sum.splits)
    then have "refuses (plugin_call env p next r)" for "next"
    proof (cases p)
      case (APIKeyPlugin c)
      then obtain out where "denied out" "\<And>s. api_key c next r s = (out, s)"
        using api_key_denies [of c r] assms(2) by auto
      with APIKeyPlugin \<open>\<And>out. denied out \<Longrightarrow> refused out\<close> show ?thesis by (simp add: refuses_def)
    next
      case (MTLSEnforcerPlugin c)
      then obtain out where "denied out" "\<And>s. mtls_enforcer c next r s = (out, s)"
        using mtls_denies [of c r] assms(2) by auto
      with MTLSEnforcerPlugin \<open>\<And>out. denied out \<Longrightarrow> refused out\<close> show ?thesis by (simp add: refuses_def)
    qed (use assms(2) in simp_all)
    with True show ?thesis by (simp add: build_chain_def)
  next
    case False
    with Cons have "refuses (build_chain env qs e r)" by simp
    then show ?thesis by (simp add: build_chain_def plugin_refuses)
  qed
qed simp

lemma closed_plugin_execute:
  assumes "cache_ok env used cache" and "collision_free env used"
    and "set global_configs \<subseteq> used" and "set route_configs \<subseteq> used"
    and "cfg \<in> set (global_configs @ route_configs)" and "pc_enabled cfg"
    and "instantiate plugin_registry cfg = Some p" and "\<not> lets_in p r"
  shows "fst (execute env plugin_registry global_configs route_configs e r cache s) =
     fst (execute env plugin_registry global_configs route_configs e' r cache s) \<and>
     refused (fst (fst (execute env plugin_registry global_configs route_configs e r cache s)))"
proof -
  obtain gp k where g: "get_plugins env plugin_registry global_configs cache = (gp, k)" by fastforce
  obtain rp k' where h: "get_plugins env plugin_registry route_configs k = (rp, k')" by fastforce
  have gp: "gp = fresh_plugins plugin_registry global_configs" "cache_ok env used k"
    using plugin_cache_spec [OF assms(1,2,3) g] by auto
  have rp: "rp = fresh_plugins plugin_registry route_configs"
    using plugin_cache_spec [OF gp(2) assms(2,4) h] by auto
  have "p \<in> set (gp @ rp)"
    using assms(5-7) gp(1) rp by (auto simp: fresh_plugins_def map_filter_def image_iff)
  then have "build_chain env (gp @ rp) e r s = build_chain env (gp @ rp) e' r s"
    "refused (fst (build_chain env (gp @ rp) e r s))"
    using mw.chain_closed closed_if_not_let_in [OF assms(8)] chain_refuses [OF _ assms(8)]
    unfolding chain_is_build_chain [symmetric] refuses_def by blast+
  then show ?thesis using g h by (simp add: execute_split)
qed


text \<open>
  A route with an enabled API key or client certificate plugin that configures keeps out every
  request without a valid credential: whatever other plugins are configured before or after it and
  whatever the cache holds, the result is a refusal (an error status or an exception), and result
  and resulting state are the same for every endpoint, hence the upstream is never contacted for it.
\<close>

theorem credential_required:
  assumes "cache_ok env used cache" and "collision_free env used"
    and "set global_configs \<subseteq> used" and "set route_configs \<subseteq> used"
    and "cfg \<in> set (global_configs @ route_configs)" and "pc_enabled cfg"
    and "instantiate plugin_registry cfg = Some p" and "\<not> lets_in p r"
  shows "fst (execute env plugin_registry global_configs route_configs e r cache s) =
     fst (execute env plugin_registry global_configs route_configs e' r cache s) \<and>
     refused (fst (fst (execute env plugin_registry global_configs route_configs e r cache s)))"
  using assms by (rule closed_plugin_execute)

lemma credential_required_witness:
  "refused (fst (fst (execute digest_env plugin_registry [demo_id_config] [demo_key_config] default_handler demo_request [] demo_gw)))"
proof -
  have k: "instantiate plugin_registry demo_key_config = Some (APIKeyPlugin
     \<lparr>ak_keys = [JStr ''k1''], ak_header_name = JStr ''x-api-key'', ak_query_param = JNull\<rparr>)"
    by (rule demo_instances)
  have e: "pc_enabled demo_key_config" by (simp add: demo_key_config_def)
  have n: "\<not> lets_in (APIKeyPlugin \<lparr>ak_keys = [JStr ''k1''], ak_header_name = JStr ''x-api-key'', ak_query_param = JNull\<rparr>)
      demo_request"
    by (simp add: demo_request_def valid_api_key_def extract_key_def header_get_def)
  show ?thesis
    by (rule conjunct2 [OF credential_required [OF cache_ok_Nil demo_collision_free _ _ _ e k n, where e' = failing]]) simp_all
qed

section \<open>The request identifier\<close>

text \<open>
  Steps that keep a request identifier \<open>v\<close> once it is set.
\<close>

definition keeps_id :: "string \<Rightarrow> ('w gw, 'a) act \<Rightarrow> bool" where
  "keeps_id v m = (\<forall>s. request_id (ctx s) = v \<longrightarrow> request_id (ctx (snd (m s))) = v)"

lemma keeps_id_run: "keeps_id v m \<Longrightarrow> request_id (ctx s) = v \<Longrightarrow> request_id (ctx (snd (m s))) = v"
  by (simp add: keeps_id_def)

lemma keeps_id_preserves: "keeps_id v = preserves (\<lambda>s. request_id (ctx s) = v)"
  by (simp add: fun_eq_iff keeps_id_def preserves_def)

lemma keeps_id_basic:
  "keeps_id v (ret a)" "keeps_id v (throw e)" "keeps_id v (reads f)" "keeps_id v (lift_outcome x)"
  "keeps_id v (on_world m)" "keeps_id v (get_redis env)" "keeps_id v (write_log le)"
  "(\<And>cx. request_id (g cx) = request_id cx) \<Longrightarrow> keeps_id v (set_ctx g)"
  by (simp_all add: keeps_id_def on_world_def get_redis_def split_beta)

lemmas keeps_id_intros =
  preserves_shapes [where P = "\<lambda>s :: 'w gw. request_id (ctx s) = v" for v, folded keeps_id_preserves] keeps_id_basic

lemma keeps_id_helpers:
  "keeps_id v (fetch_jwks env url)" "keeps_id v (get_script_sha env)" "keeps_id v (set_open env c rid)"
  "keeps_id v (record_failure env c rid)" "keeps_id v (handle_failure env c rid b)"
  "keeps_id v (after_response env c rid b resp)"
proof -
  show f: "keeps_id v (fetch_jwks env url)"
    by (auto simp: keeps_id_def fetch_jwks_def and_then_def on_world_def split: option.splits sum.splits prod.splits)
  show "keeps_id v (get_script_sha env)"
    by (auto simp: keeps_id_def get_script_sha_def and_then_def on_world_def Let_def
        split: option.splits sum.splits prod.splits)
  show o: "keeps_id v (set_open env c rid)" for c rid
    unfolding set_open_def by (intro keeps_id_intros)
  show r: "keeps_id v (record_failure env c rid)"
    unfolding record_failure_def by (intro keeps_id_intros o)
  show h: "keeps_id v (handle_failure env c rid b)"
    unfolding handle_failure_def by (intro keeps_id_intros o r)
  show "keeps_id v (after_response env c rid b resp)"
    unfolding after_response_def by (intro keeps_id_intros h)
qed

lemma plugin_keeps_id:
  assumes "header_get r ''x-request-id'' = Some v" and "v \<noteq> []" and "keeps_id v (next r)"
  shows "keeps_id v (plugin_call env p next r)"
proof (cases p)
  case RequestIDPlugin
  with assms show ?thesis
    by (auto simp: keeps_id_def request_id_plugin_spec Let_def split: prod.splits sum.splits)
next
  case (LoggingPlugin c)
  have "keeps_id v (log_handled env info start resp)" for info start resp
    unfolding log_handled_def by (intro keeps_id_intros)
  with LoggingPlugin show ?thesis
    by (simp add: access_logger_def) (intro keeps_id_intros assms(3); simp)
next
  case (MTLSEnforcerPlugin c)
  then show ?thesis
    by (simp add: mtls_enforcer_def Let_def) (intro keeps_id_intros assms(3); simp)
next
  case (JWTPlugin c)
  have "keeps_id v (verification_key env c)"
    unfolding verification_key_def by (intro keeps_id_intros keeps_id_helpers)
  with JWTPlugin show ?thesis
    by (simp add: jwt_validator_def Let_def) (intro keeps_id_intros assms(3); simp add: accept_token_def)
next
  case (APIKeyPlugin c)
  then show ?thesis
    by (simp add: api_key_def Let_def) (intro keeps_id_intros assms(3); simp)
next
  case (RateLimiterPlugin c)
  have "keeps_id v (check_limit env c key)" for key
    unfolding check_limit_def by (intro keeps_id_intros keeps_id_helpers)
  then have "keeps_id v (and_then (catching (check_limit env c key) (\<lambda>exc. ret None))
      (\<lambda>refusal. case refusal of Some resp \<Rightarrow> ret resp | None \<Rightarrow> next r))" for key
    by (intro keeps_id_intros) (auto split: option.split simp: keeps_id_basic assms(3))
  then show ?thesis
    using RateLimiterPlugin by (auto simp: keeps_id_def rate_limiter_def split_beta Let_def)
next
  case (CircuitBreakerPlugin c)
  have "keeps_id v (proceed env c rid b (next r))" for rid b
    unfolding proceed_def by (intro keeps_id_intros keeps_id_helpers assms(3))
  then have "request_id (ctx (snd (circuit_breaker env c next r s))) = v" if "request_id (ctx s) = v" for s
    unfolding circuit_breaker_def Let_def
    by (intro keeps_id_run [OF _ that] keeps_id_intros) simp_all
  then have "keeps_id v (circuit_breaker env c next r)" by (simp add: keeps_id_def)
  then show ?thesis using CircuitBreakerPlugin by simp
qed

lemma chain_keeps_id:
  assumes "header_get r ''x-request-id'' = Some v" and "v \<noteq> []" and "keeps_id v (e r)"
  shows "keeps_id v (build_chain env ps e r)"
  using assms(3) by (induction ps) (simp_all add: build_chain_def plugin_keeps_id [OF assms(1,2)])

text \<open>
  A client that sends its own request identifier finds it in the response, whatever plugins
  follow the request-id plugin and whichever of them answers, as long as the endpoint leaves the
  identifier of the context alone.
\<close>

theorem request_id_echoed:
  assumes "header_get r ''x-request-id'' = Some v" and "v \<noteq> []"
    and "\<And>s. request_id (ctx (snd (e r s))) = request_id (ctx s)"
    and "fst (build_chain env (RequestIDPlugin # ps) e r s) = Inr resp"
  shows "response_header resp ''X-Request-ID'' = Some v"
proof -
  let ?t = "s\<lparr>ctx := (ctx s)\<lparr>request_id := v\<rparr>\<rparr>"
  have "keeps_id v (build_chain env ps e r)"
    by (rule chain_keeps_id [OF assms(1,2)]) (simp add: keeps_id_def assms(3))
  then have "request_id (ctx (snd (build_chain env ps e r ?t))) = v"
    by (simp add: keeps_id_def)
  moreover have "build_chain env (RequestIDPlugin # ps) e r s = request_id_plugin (build_chain env ps e) r s"
    by (simp add: build_chain_def)
  ultimately show ?thesis
    using assms(1,2,4) by (auto simp: request_id_plugin_spec Let_def split: prod.splits sum.splits)
qed

definition id_request :: request where
  "id_request = demo_request\<lparr>rq_headers := [(''x-request-id'', ''abc'')]\<rparr>"

theorem request_id_echoed_witness:
  "\<exists>resp. fst (build_chain demo_env [RequestIDPlugin] default_handler id_request demo_gw) = Inr resp \<and>
     response_header resp ''X-Request-ID'' = Some ''abc''"
proof -
  have h: "header_get id_request ''x-request-id'' = Some ''abc''"
    by (simp add: id_request_def header_get_def lower_def lower_char_def)
  moreover obtain resp where r: "fst (build_chain demo_env [RequestIDPlugin] default_handler id_request demo_gw) = Inr resp"
    by (simp add: build_chain_def request_id_plugin_spec h default_handler_def)
  ultimately show ?thesis
    using request_id_echoed [OF h _ _ r] by (simp add: default_handler_def)
qed

end
