(* ===== verification/Proxy.thy ===== *)
theory Proxy
  imports DemoWorld Router
begin

text \<open>
  The HTTP reverse proxy of \<open>gateway/core/proxy.py\<close>: header filtering, the upstream URL, the
  retry loop and the mapping of transport errors to responses. The HTTP client is the external
  operation \<open>http_request\<close>; its timeouts and connection errors are the two exceptions the code
  catches, every other exception passes through.
\<close>

section \<open>Headers and URL\<close>

definition HOP_BY_HOP_HEADERS :: "string list" where
  "HOP_BY_HOP_HEADERS =
     [''connection'', ''keep-alive'', ''proxy-authenticate'', ''proxy-authorization'', ''te'',
      ''trailers'', ''transfer-encoding'', ''upgrade'']"

definition filter_headers :: "(string, string) dict \<Rightarrow> (string, string) dict" where
  "filter_headers headers = filter (\<lambda>(k, v). lower k \<notin> set HOP_BY_HOP_HEADERS) headers"

definition stripped_prefix :: "string \<Rightarrow> string" where
  "stripped_prefix prefix =
     (if endswith prefix ''/**'' then take (length prefix - 3) prefix
      else if endswith prefix ''*'' then take (length prefix - 1) prefix
      else prefix)"

definition build_url :: "string \<Rightarrow> request \<Rightarrow> RouteConfig \<Rightarrow> string" where
  "build_url base r route =
     (let path =
        (if r_strip_prefix route
         then (let rest = drop (length (stripped_prefix (m_path (r_match route)))) (rq_path r)
               in if rest = [] then ''/'' else rest)
         else rq_path r);
          url = rstrip_chars (\<lambda>c. c = CHR ''/'') base @ path
      in if rq_query r \<noteq> [] then url @ ''?'' @ rq_query r else url)"

definition request_headers :: "GatewayContext \<Rightarrow> RouteConfig \<Rightarrow> request \<Rightarrow> (string, string) dict" where
  "request_headers cx route r =
     (let h = filter_headers (headers_dict (rq_headers r));
          h = dict_set ''X-Forwarded-For'' (client_host_or r ''unknown'') h;
          h = dict_set ''X-Request-ID'' (request_id cx) h;
          h = dict_set ''X-Gateway-Route'' (route_id cx) h
      in if r_preserve_host route then h else dict_pop ''host'' h)"

definition upstream_call :: "GatewayContext \<Rightarrow> UpstreamInfo \<Rightarrow> RouteConfig \<Rightarrow> request \<Rightarrow> http_call" where
  "upstream_call cx up route r =
     \<lparr>hc_method = rq_method r, hc_url = build_url (ui_url up) r route,
      hc_headers = request_headers cx route r, hc_content = rq_body r,
      hc_timeout = u_timeout (r_upstream route)\<rparr>"

section \<open>The retry loop\<close>

fun is_transport_error :: "exn \<Rightarrow> bool" where
  "is_transport_error TimeoutException = True"
| "is_transport_error ConnectError = True"
| "is_transport_error _ = False"

definition backoff :: "RetryConfig \<Rightarrow> nat \<Rightarrow> rat" where
  "backoff cfg attempt = rc_backoff_factor cfg * 2 ^ attempt"

text \<open>
  \<open>for attempt in range(count + 1)\<close>, with the attempts that are left and the last exception.
  Leaving the loop raises the last exception, or a request error when there was none.
\<close>

fun retry_loop :: "'w env \<Rightarrow> http_call \<Rightarrow> RetryConfig \<Rightarrow> nat \<Rightarrow> nat \<Rightarrow> exn option \<Rightarrow> ('w gw, http_reply) act" where
  "retry_loop env call cfg attempt 0 last_exc =
     throw (case last_exc of Some e \<Rightarrow> e | None \<Rightarrow> RequestError ''Retry exhausted'')"
| "retry_loop env call cfg attempt (Suc left) last_exc = (\<lambda>s.
     case on_world (http_request env call) s of
       (Inr reply, t) \<Rightarrow>
         if hr_status reply \<notin> set (rc_status_codes cfg) \<or> int attempt = rc_count cfg then (Inr reply, t)
         else and_then (on_world (sleep env (backoff cfg attempt)))
                (\<lambda>_. retry_loop env call cfg (Suc attempt) left last_exc) t
     | (Inl e, t) \<Rightarrow>
         if \<not> is_transport_error e then (Inl e, t)
         else if int attempt = rc_count cfg then (Inl e, t)
         else and_then (on_world (sleep env (backoff cfg attempt)))
                (\<lambda>_. retry_loop env call cfg (Suc attempt) left (Some e)) t)"

definition send_with_retry :: "'w env \<Rightarrow> http_call \<Rightarrow> RetryConfig \<Rightarrow> ('w gw, http_reply) act" where
  "send_with_retry env call cfg = retry_loop env call cfg 0 (nat (rc_count cfg + 1)) None"

section \<open>The proxy\<close>

definition forward_reply :: "GatewayContext \<Rightarrow> http_reply \<Rightarrow> response" where
  "forward_reply cx reply =
     mk_response (hr_content reply) (hr_status reply)
       (dict_set ''X-Request-ID'' (request_id cx) (filter_headers (hr_headers reply)))
       (dict_get (hr_headers reply) ''content-type'')"

definition proxy_error :: "exn \<Rightarrow> response option" where
  "proxy_error e =
     (if e = TimeoutException then Some (json_detail ''Upstream timeout'' 504 [])
      else if e = ConnectError then Some (json_detail ''Upstream unavailable'' 502 [])
      else None)"

text \<open>\<open>started\<close>: whether \<open>startup\<close> has created the client.\<close>

definition proxy :: "'w env \<Rightarrow> bool \<Rightarrow> RouteConfig \<Rightarrow> 'w handler" where
  "proxy env started route r =
     and_then (reads ctx) (\<lambda>cx.
       case upstream cx of
         None \<Rightarrow> ret (json_detail ''No upstream resolved'' 502 [])
       | Some up \<Rightarrow>
           if \<not> started then ret (json_detail ''Proxy not initialized'' 503 [])
           else catching
             (and_then (send_with_retry env (upstream_call cx up route r) (u_retry (r_upstream route)))
                (\<lambda>reply. and_then (reads ctx) (\<lambda>cx'. ret (forward_reply cx' reply))))
             (\<lambda>e. case proxy_error e of Some resp \<Rightarrow> ret resp | None \<Rightarrow> throw e))"

section \<open>What the retry loop does\<close>

text \<open>
  \<open>attempt_trace\<close> issues a request, then as many more as asked for, sleeping before each; its
  results are the replies and exceptions in order. It has no exit of its own: the property below
  says at which attempt the loop stops.
\<close>

fun attempt_trace :: "'w env \<Rightarrow> http_call \<Rightarrow> RetryConfig \<Rightarrow> nat \<Rightarrow> nat \<Rightarrow> 'w gw \<Rightarrow> http_reply outcome list \<times> 'w gw" where
  "attempt_trace env call cfg attempt 0 s =
     (let (res, t) = on_world (http_request env call) s in ([res], t))"
| "attempt_trace env call cfg attempt (Suc extra) s =
     (let (res, t) = on_world (http_request env call) s;
          (_, u) = on_world (sleep env (backoff cfg attempt)) t;
          (rest, v) = attempt_trace env call cfg (Suc attempt) extra u
      in (res # rest, v))"

definition retryable :: "RetryConfig \<Rightarrow> http_reply outcome \<Rightarrow> bool" where
  "retryable cfg res = (case res of Inl e \<Rightarrow> is_transport_error e | Inr reply \<Rightarrow> hr_status reply \<in> set (rc_status_codes cfg))"

definition sleeps :: "'w env \<Rightarrow> bool" where
  "sleeps env = (\<forall>d w. \<exists>w'. sleep env d w = (Inr (), w'))"

lemma length_attempt_trace: "length (fst (attempt_trace env call cfg a k s)) = Suc k"
  by (induction k arbitrary: a s) (simp_all add: split_beta Let_def)

lemma retry_loop_trace:
  assumes "sleeps env" and "int a + int k = rc_count cfg"
  shows "\<exists>j \<le> k. \<exists>rs t. attempt_trace env call cfg a j s = (rs, t) \<and> retry_loop env call cfg a (Suc k) e s = (last rs, t) \<and>
     list_all (retryable cfg) (butlast rs) \<and> (retryable cfg (last rs) \<longrightarrow> j = k)"
  using assms(2)
proof (induction k arbitrary: a e s)
  case 0
  obtain res t where r: "on_world (http_request env call) s = (res, t)" by fastforce
  with 0 show ?case by (cases res) (simp_all add: r)
next
  case (Suc k)
  obtain res t where r: "on_world (http_request env call) s = (res, t)" by fastforce
  have stop: "int a \<noteq> rc_count cfg" using Suc.prems by simp
  show ?case
  proof (cases "retryable cfg res")
    case False
    with r stop have "retry_loop env call cfg a (Suc (Suc k)) e s = (res, t)"
      by (cases res) (simp_all add: retryable_def)
    with r False show ?thesis by (intro exI [of _ 0]) simp
  next
    case True
    obtain w where w: "sleep env (backoff cfg a) (world t) = (Inr (), w)" using assms(1) by (auto simp: sleeps_def)
    define u where "u = t\<lparr>world := w\<rparr>"
    have u: "on_world (sleep env (backoff cfg a)) t = (Inr (), u)" using w by (simp add: on_world_def u_def)
    obtain e' where l: "retry_loop env call cfg a (Suc (Suc k)) e s = retry_loop env call cfg (Suc a) (Suc k) e' u"
      using True r stop u by (cases res) (auto simp: retryable_def and_then_def simp del: retry_loop.simps(2) simp: retry_loop.simps(2) [of env call cfg a])
    have "int (Suc a) + int k = rc_count cfg" using Suc.prems by simp
    from Suc.IH [OF this, of u e'] obtain j rs v where j: "j \<le> k" "attempt_trace env call cfg (Suc a) j u = (rs, v)"
      "retry_loop env call cfg (Suc a) (Suc k) e' u = (last rs, v)" "list_all (retryable cfg) (butlast rs)"
      "retryable cfg (last rs) \<longrightarrow> j = k" by blast
    have ne: "rs \<noteq> []" using length_attempt_trace [of env call cfg "Suc a" j u] j(2) by auto
    have "attempt_trace env call cfg a (Suc j) s = (res # rs, v)" using r u j(2) by simp
    with l j ne True show ?thesis by (intro exI [of _ "Suc j"]) auto
  qed
qed

section \<open>Properties\<close>

text \<open>
  C16. The retry loop sends at least one and at most \<open>count + 1\<close> requests, sleeping between them:
  it stops at the first result that is not to be retried (a reply whose status is not configured for
  retry, or an exception that is no transport error), and at attempt \<open>count + 1\<close> with whatever
  that one gave. Its result is the last attempt's.
\<close>

theorem retry_bounds:
  assumes "sleeps env" and "0 \<le> rc_count cfg"
  shows "\<exists>j \<le> nat (rc_count cfg). \<exists>rs t. attempt_trace env call cfg 0 j s = (rs, t) \<and> length rs = Suc j \<and>
     send_with_retry env call cfg s = (last rs, t) \<and> list_all (retryable cfg) (butlast rs) \<and>
     (retryable cfg (last rs) \<longrightarrow> j = nat (rc_count cfg))"
proof -
  have "nat (rc_count cfg + 1) = Suc (nat (rc_count cfg))" using assms(2) by simp
  then show ?thesis
    using retry_loop_trace [OF assms(1), of 0 "nat (rc_count cfg)" cfg call s None] assms(2)
      length_attempt_trace [of env call cfg 0 _ s]
    unfolding send_with_retry_def by (metis fst_conv int_nat_eq int_ops(1) add_0)
qed

definition one_retry :: RetryConfig where
  "one_retry = \<lparr>rc_count = 1, rc_backoff_factor = 0, rc_status_codes = [503]\<rparr>"

lemma demo_sleeps: "sleeps demo_env"
  by (simp add: sleeps_def demo_env_def)

definition demo_call :: http_call where
  "demo_call = \<lparr>hc_method = ''GET'', hc_url = ''http://u:1/'', hc_headers = [], hc_content = [], hc_timeout = 5\<rparr>"

theorem retry_bounds_witness:
  "\<exists>j \<le> 1. \<exists>rs t. attempt_trace demo_env demo_call one_retry 0 j demo_gw = (rs, t) \<and>
     send_with_retry demo_env demo_call one_retry demo_gw = (last rs, t)"
  using retry_bounds [OF demo_sleeps, of one_retry demo_call demo_gw] by (auto simp: one_retry_def)

lemma dict_set_keys: "fst ` set (dict_set k v d) = insert k (fst ` set d)"
  by (simp add: dom_update)

lemma dict_pop_keys: "fst ` set (dict_pop k d) \<subseteq> fst ` set d"
  by (induction d) auto

lemma filter_headers_keys: "k \<in> fst ` set (filter_headers h) \<Longrightarrow> lower k \<notin> set HOP_BY_HOP_HEADERS"
  by (auto simp: filter_headers_def)

lemma forwarding_names:
  "lower ''X-Forwarded-For'' \<notin> set HOP_BY_HOP_HEADERS" "lower ''X-Request-ID'' \<notin> set HOP_BY_HOP_HEADERS"
  "lower ''X-Gateway-Route'' \<notin> set HOP_BY_HOP_HEADERS"
  by (simp_all add: HOP_BY_HOP_HEADERS_def lower_def lower_char_def)

lemma request_headers_keys:
  "k \<in> fst ` set (request_headers cx route r) \<Longrightarrow> lower k \<notin> set HOP_BY_HOP_HEADERS"
proof -
  assume k: "k \<in> fst ` set (request_headers cx route r)"
  have "fst ` set (request_headers cx route r) \<subseteq>
     {''X-Forwarded-For'', ''X-Request-ID'', ''X-Gateway-Route''} \<union> fst ` set (filter_headers (headers_dict (rq_headers r)))"
  proof -
    let ?h = "dict_set ''X-Gateway-Route'' (route_id cx) (dict_set ''X-Request-ID'' (request_id cx)
      (dict_set ''X-Forwarded-For'' (client_host_or r ''unknown'') (filter_headers (headers_dict (rq_headers r)))))"
    have "fst ` set (request_headers cx route r) \<subseteq> fst ` set ?h"
      using dict_pop_keys [of "''host''" ?h] unfolding request_headers_def Let_def
      by (cases "r_preserve_host route") (simp_all only: if_True if_False order_refl)
    moreover have "fst ` set ?h = {''X-Forwarded-For'', ''X-Request-ID'', ''X-Gateway-Route''} \<union>
        fst ` set (filter_headers (headers_dict (rq_headers r)))"
      unfolding dict_set_keys by blast
    ultimately show ?thesis by simp
  qed
  with k have "k \<in> {''X-Forwarded-For'', ''X-Request-ID'', ''X-Gateway-Route''} \<or>
      k \<in> fst ` set (filter_headers (headers_dict (rq_headers r)))"
    by (auto simp only: Un_iff)
  then show ?thesis
    using filter_headers_keys forwarding_names by (elim disjE insertE) (simp_all only: not_False_eq_True empty_iff)
qed

text \<open>
  No hop-by-hop header crosses the gateway, in either direction and in any letter case: none of
  the client's is in the call to the upstream, none of the upstream's is in the response.
\<close>

theorem hop_by_hop_removed:
  "lower ` fst ` set (hc_headers (upstream_call cx up route r)) \<inter> set HOP_BY_HOP_HEADERS = {} \<and>
   fst ` set (rs_headers (forward_reply cx reply)) \<inter> set HOP_BY_HOP_HEADERS = {}"
proof (intro conjI)
  show "lower ` fst ` set (hc_headers (upstream_call cx up route r)) \<inter> set HOP_BY_HOP_HEADERS = {}"
    using request_headers_keys [of _ cx route r] by (force simp: upstream_call_def)
  have "fst ` set (rs_headers (forward_reply cx reply)) =
      lower ` insert ''X-Request-ID'' (fst ` set (filter_headers (hr_headers reply)))"
    unfolding dict_set_keys [symmetric, where v = "request_id cx"]
    by (simp add: forward_reply_def image_image split_beta)
  then show "fst ` set (rs_headers (forward_reply cx reply)) \<inter> set HOP_BY_HOP_HEADERS = {}"
    using filter_headers_keys forwarding_names by auto
qed

lemma request_headers_set:
  assumes "rq_headers r = []"
  shows "dict_get (request_headers cx route r) ''X-Forwarded-For'' = Some (client_host_or r ''unknown'')"
  using assms by (simp add: request_headers_def filter_headers_def Let_def update_conv delete_conv)

lemma map_of_lowered:
  assumes "\<And>k' v. (k', v) \<in> set h \<Longrightarrow> lower k' = k'"
  shows "map_of (map (\<lambda>(k, v). (lower k, v)) h) k = map_of h k"
proof -
  have "map (\<lambda>(k, v). (lower k, v)) h = map id h" using assms by (intro map_cong) auto
  then show ?thesis by simp
qed

lemma lowered_dict_set:
  "k \<noteq> lower k0 \<Longrightarrow> map_of (map (\<lambda>(k, v). (lower k, v)) (dict_set k0 v h)) k = map_of (map (\<lambda>(k, v). (lower k, v)) h) k"
  by (induction h) auto

lemma filter_headers_get: "lower k \<notin> set HOP_BY_HOP_HEADERS \<Longrightarrow> dict_get (filter_headers h) k = dict_get h k"
  using dict_get_filter_key [of "\<lambda>k. lower k \<notin> set HOP_BY_HOP_HEADERS" h k] by (simp add: filter_headers_def)

text \<open>What a client that follows the headers makes of a response.\<close>

definition client_reads :: "(string \<Rightarrow> string) \<Rightarrow> response \<Rightarrow> string" where
  "client_reads gunzip resp =
     (let body = (case response_header resp ''content-length'' of Some n \<Rightarrow> take (nat_of_digits n) (rs_body resp) | None \<Rightarrow> rs_body resp)
      in if response_header resp ''content-encoding'' = Some ''gzip'' then gunzip body else body)"

text \<open>
  A compressed reply is forwarded broken. The upstream sent the bytes \<open>wire\<close> and the client library of the
  gateway has decoded them, but the header that names the encoding and the length of the encoded bytes
  are passed on beside the decoded body: a client that follows them cuts the body off after as many
  bytes as were on the wire and decodes it a second time. (Header names in a reply are lower case.)
\<close>

theorem decoded_body_keeps_encoding:
  assumes "\<And>k v. (k, v) \<in> set (hr_headers reply) \<Longrightarrow> lower k = k"
    and "hr_content reply = gunzip wire" and "dict_get (hr_headers reply) ''content-encoding'' = Some ''gzip''"
    and "dict_get (hr_headers reply) ''content-length'' = Some (str_nat (length wire))"
    and "send_with_retry env (upstream_call (ctx s) up route r) (u_retry (r_upstream route)) s = (Inr reply, t)"
    and "upstream (ctx s) = Some up"
  shows "\<exists>resp. proxy env True route r s = (Inr resp, t) \<and> rs_body resp = gunzip wire \<and>
    client_reads gunzip resp = gunzip (take (length wire) (gunzip wire))"
proof -
  have kept: "response_header (forward_reply (ctx t) reply) k = dict_get (hr_headers reply) k"
    if "lower k = k" "k \<notin> set HOP_BY_HOP_HEADERS" "k \<noteq> lower ''X-Request-ID''" for k
  proof -
    let ?h = "filter_headers (hr_headers reply)"
    have "map_of (map (\<lambda>(k, v). (lower k, v)) (dict_set ''X-Request-ID'' (request_id (ctx t)) ?h)) k =
        map_of (map (\<lambda>(k, v). (lower k, v)) ?h) k"
      by (rule lowered_dict_set [OF that(3)])
    also have "\<dots> = dict_get ?h k"
      using assms(1) by (intro map_of_lowered) (auto simp: filter_headers_def)
    finally show ?thesis using that by (simp add: response_header_def forward_reply_def filter_headers_get)
  qed
  have "proxy env True route r s = (Inr (forward_reply (ctx t) reply), t)"
    using assms(5,6) by (simp add: proxy_def and_then_def catching_def)
  moreover have "rs_body (forward_reply (ctx t) reply) = gunzip wire" using assms(2) by (simp add: forward_reply_def)
  moreover have "lower ''content-encoding'' = ''content-encoding''" "lower ''content-length'' = ''content-length''"
    "lower ''X-Request-ID'' = ''x-request-id''" by code_simp+
  ultimately show ?thesis using kept [of "''content-encoding''"] kept [of "''content-length''"] assms(3,4)
    by (simp add: HOP_BY_HOP_HEADERS_def client_reads_def nat_of_digits_str_nat)
qed

text \<open>A toy coding that writes a byte for each pair of equal ones.\<close>

definition doubled :: "string \<Rightarrow> string" where
  "doubled wire = concat (map (\<lambda>c. [c, c]) wire)"

definition gzip_reply :: http_reply where
  "gzip_reply = \<lparr>hr_status = 200, hr_headers = [(''content-encoding'', ''gzip''), (''content-length'', str_nat (length ''abc''))],
     hr_content = doubled ''abc''\<rparr>"

lemma decoded_body_keeps_encoding_witness:
  "\<exists>resp t. proxy demo_env True (two_targets ''round_robin'')
       demo_request (demo_gw\<lparr>ctx := (ctx demo_gw)\<lparr>upstream := Some \<lparr>ui_url = ''http://u:1'', ui_protocol = HTTP, ui_weight = 1\<rparr>\<rparr>,
         world := demo_world\<lparr>d_replies := [Inr gzip_reply]\<rparr>\<rparr>) = (Inr resp, t) \<and>
     rs_body resp = ''aabbcc'' \<and> client_reads doubled resp = ''aaaabb''"
proof -
  let ?up = "\<lparr>ui_url = ''http://u:1'', ui_protocol = HTTP, ui_weight = 1\<rparr>" and ?route = "two_targets ''round_robin''"
  let ?s = "demo_gw\<lparr>ctx := (ctx demo_gw)\<lparr>upstream := Some ?up\<rparr>, world := demo_world\<lparr>d_replies := [Inr gzip_reply]\<rparr>\<rparr>"
  have retry: "rc_count (u_retry (r_upstream ?route)) = 3" "rc_status_codes (u_retry (r_upstream ?route)) = [502, 503, 504]"
    by (simp_all add: two_targets_def default_RouteConfig_def default_UpstreamConfig_def default_RetryConfig_def)
  have "retry_loop demo_env call (u_retry (r_upstream ?route)) 0 4 None ?s = (Inr gzip_reply, ?s\<lparr>world := demo_world\<rparr>)" for call
    using retry by (simp add: eval_nat_numeral on_world_def demo_env_def demo_world_def gzip_reply_def)
  then have "send_with_retry demo_env (upstream_call (ctx ?s) ?up ?route demo_request) (u_retry (r_upstream ?route)) ?s =
      (Inr gzip_reply, ?s\<lparr>world := demo_world\<rparr>)" by (simp add: send_with_retry_def retry)
  from decoded_body_keeps_encoding [where gunzip = doubled and wire = "''abc''", OF _ _ _ _ this] show ?thesis
    by (force simp: gzip_reply_def lower_def lower_char_def doubled_def)
qed

text \<open>
  A route for a subtree that strips its prefix forwards the path below it: when the pattern
  \<open>p/**\<close> accepts the request, the upstream address without trailing slashes is followed by a slash
  and the rest of the path.
\<close>

theorem strip_prefix_url:
  assumes "plain p" and "\<not> startswith p ''~''" and "p \<noteq> []" and "m_path (r_match route) = p @ ''/**''"
    and "r_strip_prefix route" and "match_path re (m_path (r_match route)) (rq_path r) = Inr True" and "rq_query r = []"
  shows "\<exists>rest. rq_path r = p @ ''/'' @ rest \<and>
     build_url base r route = rstrip_chars (\<lambda>c. c = CHR ''/'') base @ ''/'' @ rest"
proof -
  have "startswith (rq_path r) (p @ ''/'')"
    using assms(4,6) match_path_prefix [OF assms(1-3), of re "rq_path r"] by simp
  then obtain rest where rest: "rq_path r = p @ ''/'' @ rest"
    by (auto simp: startswith_iff)
  moreover have "stripped_prefix (p @ ''/**'') = p" by (simp add: stripped_prefix_def endswith_iff)
  ultimately show ?thesis using assms(4,5,7) by (simp add: build_url_def Let_def)
qed

definition demo_subtree :: "string \<Rightarrow> RouteConfig" where
  "demo_subtree pat = (two_targets ''round_robin'')\<lparr>r_match := default_MatchConfig\<lparr>m_path := pat\<rparr>, r_strip_prefix := True\<rparr>"

definition users_request :: request where
  "users_request = demo_request\<lparr>rq_path := ''/api/users''\<rparr>"

lemma strip_prefix_url_witness:
  "build_url ''http://u:1/'' users_request (demo_subtree ''/api/**'') = ''http://u:1/users''"
proof -
  have m: "match_path (\<lambda>_ _. Inl RegexError) ''/api/**'' ''/api/users'' = Inr True"
    using match_path_prefix [of "''/api''" "\<lambda>_ _. Inl RegexError" "''/api/users''"]
    by (simp add: plain_def startswith_def)
  have "\<exists>rest. rq_path users_request = ''/api'' @ ''/'' @ rest \<and>
     build_url ''http://u:1/'' users_request (demo_subtree ''/api/**'') =
       rstrip_chars (\<lambda>c. c = CHR ''/'') ''http://u:1/'' @ ''/'' @ rest"
    by (rule strip_prefix_url [where re = "\<lambda>_ _. Inl RegexError"])
       (simp_all add: plain_def startswith_def demo_subtree_def users_request_def demo_request_def m)
  then show ?thesis by (auto simp: users_request_def rstrip_chars_def)
qed

text \<open>
  With a pattern that ends in one star after a slash, stripping the prefix removes the slash too:
  the rest of the path is glued to the upstream address without a separator, so it continues the
  host name or port (a request for \<open>/api/.evil.com\<close> on the route \<open>/api/*\<close> of the upstream
  \<open>http://users\<close> goes to \<open>http://users.evil.com\<close>).
\<close>

theorem strip_star_glues_host:
  assumes "m_path (r_match route) = p @ ''/*''" and "r_strip_prefix route" and "rq_path r = p @ ''/'' @ rest"
    and "rest \<noteq> []"
  shows "build_url base r route = rstrip_chars (\<lambda>c. c = CHR ''/'') base @ rest @
     (if rq_query r = [] then [] else ''?'' @ rq_query r)"
proof -
  have "\<not> endswith (p @ ''/*'') ''/**''"
    by (cases p rule: rev_cases) (simp_all add: endswith_def startswith_def)
  moreover have "endswith (p @ ''/*'') ''*''" by (auto simp: endswith_iff intro: exI [of _ "p @ ''/''"])
  ultimately have "stripped_prefix (p @ ''/*'') = p @ ''/''" by (simp add: stripped_prefix_def)
  with assms show ?thesis by (simp add: build_url_def Let_def)
qed

lemma strip_star_glues_host_witness:
  "build_url ''http://users'' (demo_request\<lparr>rq_path := ''/api/.evil.com''\<rparr>) (demo_subtree ''/api/*'') = ''http://users.evil.com''"
  using strip_star_glues_host [of "demo_subtree ''/api/*''" "''/api''" "demo_request\<lparr>rq_path := ''/api/.evil.com''\<rparr>"
      "''.evil.com''" "''http://users''"]
  by (simp add: demo_subtree_def demo_request_def rstrip_chars_def)

lemma proxy_spec:
  "proxy env started route r s = (case upstream (ctx s) of
      None \<Rightarrow> (Inr (json_detail ''No upstream resolved'' 502 []), s)
    | Some up \<Rightarrow>
        if \<not> started then (Inr (json_detail ''Proxy not initialized'' 503 []), s)
        else (case send_with_retry env (upstream_call (ctx s) up route r) (u_retry (r_upstream route)) s of
            (Inr reply, t) \<Rightarrow> (Inr (forward_reply (ctx t) reply), t)
          | (Inl e, t) \<Rightarrow> (case proxy_error e of Some resp \<Rightarrow> Inr resp | None \<Rightarrow> Inl e, t)))"
  by (auto simp: proxy_def and_then_def catching_def split: option.splits prod.splits sum.splits)

lemma on_world_only: "\<exists>w. snd (on_world m s) = s\<lparr>world := w\<rparr>"
  by (auto simp: on_world_def split: prod.splits)

lemma retry_loop_world: "\<exists>w. snd (retry_loop env call cfg a k e s) = s\<lparr>world := w\<rparr>"
proof (induction k arbitrary: a e s)
  case 0
  then show ?case by (auto intro: exI [of _ "world s"])
next
  case (Suc k)
  obtain res w where r: "on_world (http_request env call) s = (res, s\<lparr>world := w\<rparr>)"
    using on_world_only [of "http_request env call" s] by (metis prod.collapse)
  let ?t = "s\<lparr>world := w\<rparr>"
  obtain x v where z: "on_world (sleep env (backoff cfg a)) ?t = (x, ?t\<lparr>world := v\<rparr>)"
    using on_world_only [of "sleep env (backoff cfg a)" ?t] by (metis prod.collapse)
  have "\<exists>w'. snd (and_then (on_world (sleep env (backoff cfg a))) (\<lambda>_. retry_loop env call cfg (Suc a) k e') ?t) = s\<lparr>world := w'\<rparr>" for e'
    using Suc.IH [of "Suc a" e' "?t\<lparr>world := v\<rparr>"] z by (cases x) (auto simp: and_then_def)
  with r show ?case by (cases res) (auto simp del: retry_loop.simps simp: retry_loop.simps(2))
qed

text \<open>
  The proxy answers 502 without an upstream, 503 before its client exists and never lets a timeout
  or a connection error escape: they become 504 and 502 responses. It changes nothing of the gateway's
  state but the world outside; the caches, the log and the request's context stay as they are.
\<close>

theorem proxy_contains_transport_errors:
  "fst (proxy env started route r s) \<notin> {Inl TimeoutException, Inl ConnectError} \<and>
   (\<exists>w. snd (proxy env started route r s) = s\<lparr>world := w\<rparr>) \<and>
   (case upstream (ctx s) of
      None \<Rightarrow> proxy env started route r s = (Inr (json_detail ''No upstream resolved'' 502 []), s)
    | Some up \<Rightarrow>
        (case fst (send_with_retry env (upstream_call (ctx s) up route r) (u_retry (r_upstream route)) s) of
           Inl TimeoutException \<Rightarrow> fst (proxy env True route r s) = Inr (json_detail ''Upstream timeout'' 504 [])
         | Inl ConnectError \<Rightarrow> fst (proxy env True route r s) = Inr (json_detail ''Upstream unavailable'' 502 [])
         | Inl e \<Rightarrow> fst (proxy env True route r s) = Inl e
         | Inr reply \<Rightarrow> fst (proxy env True route r s) = Inr (forward_reply (ctx s) reply)))"
proof (cases "upstream (ctx s)")
  case None
  then show ?thesis by (auto simp: proxy_spec intro: exI [of _ "world s"])
next
  case (Some up)
  obtain res w where send: "send_with_retry env (upstream_call (ctx s) up route r) (u_retry (r_upstream route)) s =
      (res, s\<lparr>world := w\<rparr>)"
    using retry_loop_world unfolding send_with_retry_def by (metis prod.collapse)
  have p: "proxy env True route r s =
      (case res of Inr reply \<Rightarrow> Inr (forward_reply (ctx s) reply)
         | Inl e \<Rightarrow> (case proxy_error e of Some resp \<Rightarrow> Inr resp | None \<Rightarrow> Inl e), s\<lparr>world := w\<rparr>)"
    using Some send by (simp add: proxy_spec split: sum.splits)
  have q: "proxy env False route r s = (Inr (json_detail ''Proxy not initialized'' 503 []), s)"
    using Some by (simp add: proxy_spec)
  show ?thesis
    using Some p q send by (cases started) (auto simp: proxy_error_def split: sum.splits exn.splits intro: exI [of _ "world s"])
qed

end
