(* ===== verification/Watcher.thy ===== *)
theory Watcher
  imports Prelude
begin

text \<open>
  The configuration file watcher of \<open>gateway/config/watcher.py\<close>: the recorded modification
  times, one turn of the polling loop, and the callback it runs. \<open>stat\<close> is the file system: the
  modification time of a file, nothing when it does not exist, or another error of the operating system.
\<close>

section \<open>The watcher\<close>

text \<open>The task of the loop: none, polling, or ended by an exception.\<close>

datatype watch_task = NoLoop | Polling | Broken exn

record watcher =
  w_files :: "string list"
  w_mtimes :: "(string, rat) dict"
  w_task :: watch_task

definition w_running :: "watcher \<Rightarrow> bool" where
  "w_running w = (w_task w = Polling)"

type_synonym stat = "string \<Rightarrow> rat option outcome"

definition new_watcher :: "string list \<Rightarrow> watcher" where
  "new_watcher files = \<lparr>w_files = files, w_mtimes = [], w_task = NoLoop\<rparr>"

definition set_mtime :: "string \<Rightarrow> rat \<Rightarrow> watcher \<Rightarrow> watcher" where
  "set_mtime f t w = w\<lparr>w_mtimes := dict_set f t (w_mtimes w)\<rparr>"

fun record_times :: "stat \<Rightarrow> string list \<Rightarrow> (watcher, unit) act" where
  "record_times stat [] w = (Inr (), w)"
| "record_times stat (f # fs) w =
     (case stat f of
        Inl e \<Rightarrow> (Inl e, w)
      | Inr found \<Rightarrow> record_times stat fs (set_mtime f (case found of Some t \<Rightarrow> t | None \<Rightarrow> 0) w))"

definition start_watcher :: "stat \<Rightarrow> (watcher, unit) act" where
  "start_watcher stat w = and_then (record_times stat (w_files w)) (\<lambda>_ v. (Inr (), v\<lparr>w_task := Polling\<rparr>)) w"

text \<open>A cancellation ends the task; a task that has ended by an exception raises it when it is awaited.\<close>

definition stop_watcher :: "(watcher, unit) act" where
  "stop_watcher w =
     (case w_task w of
        Broken e \<Rightarrow> (Inl e, w)
      | _ \<Rightarrow> (Inr (), w\<lparr>w_task := NoLoop\<rparr>))"

text \<open>The body of the loop over the files: only a missing file is an exception it handles.\<close>

fun poll_files :: "stat \<Rightarrow> string list \<Rightarrow> bool \<Rightarrow> (watcher, bool) act" where
  "poll_files stat [] changed w = (Inr changed, w)"
| "poll_files stat (f # fs) changed w =
     (case stat f of
        Inl e \<Rightarrow> (Inl e, w)
      | Inr (Some current_mtime) \<Rightarrow>
          if Some current_mtime \<noteq> dict_get (w_mtimes w) f then poll_files stat fs True (set_mtime f current_mtime w)
          else poll_files stat fs changed w
      | Inr None \<Rightarrow>
          if dict_get_default (w_mtimes w) f 0 \<noteq> 0 then poll_files stat fs True (set_mtime f 0 w)
          else poll_files stat fs changed w)"

definition poll_once :: "stat \<Rightarrow> (watcher, bool) act" where
  "poll_once stat w = poll_files stat (w_files w) False w"

text \<open>
  One turn of the loop: the callback's exceptions are swallowed, one of the file system ends the loop.
\<close>

definition watch_turn :: "stat \<Rightarrow> ('s, unit) act option \<Rightarrow> watcher \<times> 's \<Rightarrow> watcher \<times> 's" where
  "watch_turn stat callback ws =
     (case ws of (w, s) \<Rightarrow>
        (case poll_once stat w of
           (Inl e, w') \<Rightarrow> (w'\<lparr>w_task := Broken e\<rparr>, s)
         | (Inr changed, w') \<Rightarrow>
             (w', if changed then (case callback of None \<Rightarrow> s | Some m \<Rightarrow> snd (m s)) else s)))"

section \<open>Lemmas\<close>

text \<open>Every file has a recorded time once the watcher has started.\<close>

definition watching :: "watcher \<Rightarrow> bool" where
  "watching w = list_all (\<lambda>f. dict_get (w_mtimes w) f \<noteq> None) (w_files w)"

definition recorded :: "watcher \<Rightarrow> string \<Rightarrow> rat" where
  "recorded w f = dict_get_default (w_mtimes w) f 0"

definition seen :: "stat \<Rightarrow> string \<Rightarrow> rat" where
  "seen stat f = (case stat f of Inr (Some t) \<Rightarrow> t | _ \<Rightarrow> 0)"

lemma set_mtime_simps [simp]:
  "w_files (set_mtime f t w) = w_files w" "w_task (set_mtime f t w) = w_task w"
  "dict_get (w_mtimes (set_mtime f t w)) g = (if g = f then Some t else dict_get (w_mtimes w) g)"
  by (simp_all add: set_mtime_def update_conv')

lemma poll_file:
  assumes "dict_get (w_mtimes w) f = Some t" and "stat f = Inr found"
  shows "\<exists>v. poll_files stat (f # fs) changed w = poll_files stat fs (changed \<or> seen stat f \<noteq> t) v \<and> w_files v = w_files w \<and>
    w_task v = w_task w \<and> dict_get (w_mtimes v) = (dict_get (w_mtimes w))(f \<mapsto> seen stat f)"
proof (cases "seen stat f = t")
  case True
  then have "poll_files stat (f # fs) changed w = poll_files stat fs changed w"
    using assms by (auto simp: seen_def dict_get_default_def split: option.splits)
  with True assms(1) show ?thesis by (intro exI [of _ w]) auto
next
  case False
  then have "poll_files stat (f # fs) changed w = poll_files stat fs True (set_mtime f (seen stat f) w)"
    using assms by (auto simp: seen_def dict_get_default_def split: option.splits)
  with False show ?thesis by (intro exI [of _ "set_mtime f (seen stat f) w"]) (auto simp: fun_eq_iff)
qed

lemma poll_files_spec:
  assumes "\<And>f. f \<in> set fs \<Longrightarrow> dict_get (w_mtimes w) f \<noteq> None" and "distinct fs"
    and "poll_files stat fs changed w = (Inr changed', w')"
  shows "(changed' \<longleftrightarrow> changed \<or> (\<exists>f \<in> set fs. dict_get (w_mtimes w) f \<noteq> Some (seen stat f))) \<and>
    (\<forall>f. dict_get (w_mtimes w') f = (if f \<in> set fs then Some (seen stat f) else dict_get (w_mtimes w) f)) \<and>
    w_files w' = w_files w \<and> w_task w' = w_task w \<and> list_all (\<lambda>f. \<exists>found. stat f = Inr found) fs"
  using assms
proof (induction fs arbitrary: changed w)
  case Nil
  then show ?case by simp
next
  case (Cons f fs)
  obtain t where t: "dict_get (w_mtimes w) f = Some t" using Cons.prems(1) by fastforce
  obtain found where found: "stat f = Inr found" using Cons.prems(3) by (cases "stat f") auto
  obtain v where v: "poll_files stat (f # fs) changed w = poll_files stat fs (changed \<or> seen stat f \<noteq> t) v"
    "w_files v = w_files w" "w_task v = w_task w" and m: "dict_get (w_mtimes v) = (dict_get (w_mtimes w))(f \<mapsto> seen stat f)"
    using poll_file [where stat = stat, OF t found] by metis
  have f: "f \<notin> set fs" "distinct fs" using Cons.prems(2) by simp_all
  have present: "dict_get (w_mtimes v) g \<noteq> None" if "g \<in> set fs" for g using Cons.prems(1) [of g] m that by simp
  have rest: "poll_files stat fs (changed \<or> seen stat f \<noteq> t) v = (Inr changed', w')" using Cons.prems(3) v(1) by simp
  note IH = Cons.IH [OF present f(2) rest]
  have "(\<exists>g \<in> set fs. dict_get (w_mtimes v) g \<noteq> Some (seen stat g)) \<longleftrightarrow> (\<exists>g \<in> set fs. dict_get (w_mtimes w) g \<noteq> Some (seen stat g))"
    using f(1) m by (metis fun_upd_other)
  with IH t have "changed' \<longleftrightarrow> changed \<or> (\<exists>g \<in> set (f # fs). dict_get (w_mtimes w) g \<noteq> Some (seen stat g))" by auto
  moreover have "\<forall>g. dict_get (w_mtimes w') g = (if g \<in> set (f # fs) then Some (seen stat g) else dict_get (w_mtimes w) g)"
    using IH m by simp
  ultimately show ?case using IH v(2,3) found by simp
qed

lemma poll_total:
  "list_all (\<lambda>f. \<exists>found. stat f = Inr found) fs \<Longrightarrow> \<exists>changed' w'. poll_files stat fs changed w = (Inr changed', w')"
  by (induction fs arbitrary: changed w) (auto split: option.splits)

lemma poll_quiet:
  assumes "list_all (\<lambda>f. dict_get (w_mtimes w) f = Some (seen stat f)) fs" and "list_all (\<lambda>f. \<exists>found. stat f = Inr found) fs"
  shows "poll_files stat fs changed w = (Inr changed, w)"
  using assms
proof (induction fs)
  case (Cons f fs)
  then obtain found where "stat f = Inr found" by auto
  with Cons show ?case by (auto simp: seen_def dict_get_default_def split: option.splits)
qed simp

section \<open>Properties\<close>

text \<open>
  A poll loses no change and reports none twice: it reports exactly when some watched file's
  modification time (0 for a missing file) differs from the recorded one, it then has the current
  times recorded for every file, and polling again with nothing changed reports nothing.
\<close>

theorem poll_detects_changes:
  assumes "watching w" and "distinct (w_files w)" and "poll_once stat w = (Inr changed, w')"
  shows "(changed \<longleftrightarrow> (\<exists>f \<in> set (w_files w). recorded w f \<noteq> seen stat f)) \<and>
    list_all (\<lambda>f. recorded w' f = seen stat f) (w_files w) \<and> watching w' \<and> w_files w' = w_files w \<and> w_task w' = w_task w \<and>
    poll_once stat w' = (Inr False, w')"
proof -
  have old: "\<And>f. f \<in> set (w_files w) \<Longrightarrow> dict_get (w_mtimes w) f \<noteq> None"
    using assms(1) by (simp add: watching_def list_all_iff)
  note a = poll_files_spec [OF old assms(2) assms(3) [unfolded poll_once_def]]
  then have new: "list_all (\<lambda>f. dict_get (w_mtimes w') f = Some (seen stat f)) (w_files w')" by (simp add: list_all_iff)
  then have again: "poll_once stat w' = (Inr False, w')" using a by (simp add: poll_once_def poll_quiet)
  have "recorded w f \<noteq> seen stat f \<longleftrightarrow> dict_get (w_mtimes w) f \<noteq> Some (seen stat f)" if "f \<in> set (w_files w)" for f
    using old [OF that] by (auto simp: recorded_def dict_get_default_def)
  then have "changed \<longleftrightarrow> (\<exists>f \<in> set (w_files w). recorded w f \<noteq> seen stat f)" using a by simp
  moreover have "list_all (\<lambda>f. recorded w' f = seen stat f) (w_files w)" "watching w'"
    using a by (simp_all add: recorded_def watching_def dict_get_default_def list_all_iff)
  ultimately show ?thesis using again a by blast
qed

definition demo_watcher :: watcher where
  "demo_watcher = snd (start_watcher (\<lambda>f. Inr (if f = ''routes.yaml'' then Some 5 else None)) (new_watcher [''routes.yaml'', ''gateway.yaml'']))"

theorem poll_detects_changes_witness:
  "\<exists>w. poll_once (\<lambda>f. Inr (Some 5)) demo_watcher = (Inr True, w)"
proof -
  have d: "watching demo_watcher" "w_files demo_watcher = [''routes.yaml'', ''gateway.yaml'']"
    "recorded demo_watcher ''gateway.yaml'' = 0"
    by (simp_all add: demo_watcher_def new_watcher_def start_watcher_def watching_def recorded_def seen_def
        dict_get_default_def set_mtime_def and_then_def)
  obtain c w' where p: "poll_once (\<lambda>f. Inr (Some 5)) demo_watcher = (Inr c, w')"
    using poll_total [of "\<lambda>f. Inr (Some 5)" "w_files demo_watcher" False demo_watcher] by (auto simp: poll_once_def list_all_iff)
  have "c \<longleftrightarrow> (\<exists>f \<in> set (w_files demo_watcher). recorded demo_watcher f \<noteq> seen (\<lambda>f. Inr (Some 5)) f)"
    using poll_detects_changes [OF d(1) _ p] d(2) by simp
  then show ?thesis using p d by (simp add: seen_def)
qed

text \<open>A file that cannot be examined ends the loop for good, and stopping raises the error.\<close>

lemma unreadable_file_ends_loop:
  assumes "poll_once stat w = (Inl e, w')"
  shows "watch_turn stat callback (w, s) = (w'\<lparr>w_task := Broken e\<rparr>, s) \<and> stop_watcher (w'\<lparr>w_task := Broken e\<rparr>) = (Inl e, w'\<lparr>w_task := Broken e\<rparr>)"
  using assms by (simp add: watch_turn_def stop_watcher_def)

end
