(* ===== verification/Gateway.thy ===== *)
theory Gateway
  imports Pipeline Proxy Loader
begin

text \<open>
  The application of \<open>gateway/app.py\<close>: its singletons as one state, the HTTP catch-all handler
  that composes routing, pipeline and proxy, the health and reload endpoints, and the callback that
  the file watcher and the Redis subscription run. One world lies outside: the loader's.
\<close>

section \<open>State\<close>

record 'w app =
  a_loader :: "'w ConfigLoader"
  a_engine :: RoutingEngine
  a_proxy_started :: bool
  a_plugin_cache :: plugin_cache
  a_sha_cache :: "(int, string) dict"
  a_jwks_cache :: "(json, json) dict"
  a_log :: "log_entry list"

text \<open>What one request sees of it, and what it leaves.\<close>

definition enter_request :: "GatewayContext \<Rightarrow> 'w app \<Rightarrow> 'w gw" where
  "enter_request cx a =
     \<lparr>ctx = cx, sha_cache = a_sha_cache a, jwks_cache = a_jwks_cache a, access_log = a_log a,
      world = outside (a_loader a)\<rparr>"

definition leave_request :: "'w gw \<Rightarrow> plugin_cache \<Rightarrow> 'w app \<Rightarrow> 'w app" where
  "leave_request s cache a =
     a\<lparr>a_loader := (a_loader a)\<lparr>outside := world s\<rparr>, a_plugin_cache := cache,
       a_sha_cache := sha_cache s, a_jwks_cache := jwks_cache s, a_log := access_log s\<rparr>"

section \<open>Configuration changes\<close>

definition with_loader :: "('w ConfigLoader, 'b) act \<Rightarrow> ('w app, 'b) act" where
  "with_loader m a = (case m (a_loader a) of (r, l) \<Rightarrow> (r, a\<lparr>a_loader := l\<rparr>))"

declare with_loader_def [part_defs]

definition on_outside :: "('w, 'a) act \<Rightarrow> ('w app, 'a) act" where
  "on_outside m a = (case m (outside (a_loader a)) of (r, w) \<Rightarrow> (r, a\<lparr>a_loader := (a_loader a)\<lparr>outside := w\<rparr>\<rparr>))"

declare on_outside_def [part_defs]

definition publish_routes :: "('w app, unit) act" where
  "publish_routes a = (Inr (), a\<lparr>a_engine := update_routes (l_routes (a_loader a)) (a_engine a)\<rparr>)"

definition on_config_changed :: "'w loader_deps \<Rightarrow> ('w app, unit) act" where
  "on_config_changed d = and_then (with_loader (reload d)) (\<lambda>_. publish_routes)"

text \<open>The configuration part of the startup.\<close>

definition load_at_startup :: "'w loader_deps \<Rightarrow> ('w app, unit) act" where
  "load_at_startup d = and_then (with_loader (load_config d)) (\<lambda>_. publish_routes)"

section \<open>System endpoints\<close>

definition json_response :: "'w env \<Rightarrow> json \<Rightarrow> int \<Rightarrow> response" where
  "json_response env v status = mk_response (json_text (float_str env) v) status [] (Some ''application/json'')"

text \<open>\<open>redis_ping\<close> is the client's \<open>PING\<close>.\<close>

definition health :: "'w env \<Rightarrow> ('w, unit) act \<Rightarrow> ('w app, response) act" where
  "health env redis_ping a =
     (let pinged = (if redis_ready env (outside (a_loader a)) then redis_ping (outside (a_loader a))
          else (Inl (RuntimeError ''Redis client is not initialized''), outside (a_loader a)));
          a' = a\<lparr>a_loader := (a_loader a)\<lparr>outside := snd pinged\<rparr>\<rparr>
      in case fst pinged of
           Inl e \<Rightarrow> (Inr (json_response env (JObj [(''status'', JStr ''error''), (''reason'', JStr ''redis_unavailable'')]) 503), a')
         | Inr _ \<Rightarrow> (Inr (json_response env (JObj [(''status'', JStr ''ok''),
               (''routes'', JInt (int (length (l_routes (a_loader a'))))), (''redis'', JStr ''ok'')]) 200), a'))"

definition readiness :: "'w env \<Rightarrow> response" where
  "readiness env = json_response env (JObj [(''status'', JStr ''ready'')]) 200"

definition presented_admin_key :: "request \<Rightarrow> string" where
  "presented_admin_key r =
     (let h = text_or_empty (header_get r ''x-admin-key'')
      in if h \<noteq> [] then h else text_or_empty (query_param_get r ''_key''))"

definition reload_config :: "'w env \<Rightarrow> 'w loader_deps \<Rightarrow> string \<Rightarrow> request \<Rightarrow> ('w app, response) act" where
  "reload_config env d configured_key r =
     (let admin_key = presented_admin_key r in
      if admin_key = [] \<or> admin_key \<noteq> configured_key
      then ret (json_response env (JObj [(''detail'', JStr ''Unauthorized'')]) 401)
      else and_then (on_config_changed d) (\<lambda>_.
           and_then (reads (\<lambda>a. int (length (l_routes (a_loader a))))) (\<lambda>n.
           ret (json_response env (JObj [(''status'', JStr ''reloaded''), (''routes'', JInt n)]) 200))))"

section \<open>The HTTP catch-all\<close>

text \<open>
  What is drawn for one request: the identifier and start time of its context, the value of
  \<open>random()\<close>; \<open>re\<close> is the regular expression engine and \<open>py_hash\<close> the built-in hash.
\<close>

record draws =
  dr_uuid :: string
  dr_now :: rat
  dr_random :: rat

definition not_found :: "'w env \<Rightarrow> request \<Rightarrow> string \<Rightarrow> response" where
  "not_found env r path =
     json_response env (JObj [(''detail'', JStr (''No route matched for '' @ rq_method r @ '' /'' @ path))]) 404"

definition routed_context :: "request \<Rightarrow> RouteConfig \<Rightarrow> GatewayContext \<Rightarrow> GatewayContext" where
  "routed_context r route cx =
     (let cx = cx\<lparr>route_id := r_id route\<rparr> in cx\<lparr>upstream_hash_key := build_upstream_hash_key r route cx\<rparr>)"

definition http_gateway ::
  "'w env \<Rightarrow> regex_engine \<Rightarrow> (string \<Rightarrow> int) \<Rightarrow> draws \<Rightarrow> request \<Rightarrow> string \<Rightarrow> ('w app, response) act" where
  "http_gateway env re py_hash dr r path a =
     (case match_request re (a_engine a) r of
        Inl e \<Rightarrow> (Inl e, a)
      | Inr None \<Rightarrow> (Inr (not_found env r path), a)
      | Inr (Some route) \<Rightarrow>
          (let cx = routed_context r route (new_context (dr_uuid dr) (dr_now dr))
           in case resolve_upstream py_hash (dr_random dr) route cx (a_engine a) of
                (Inl e, engine) \<Rightarrow> (Inl e, a\<lparr>a_engine := engine\<rparr>)
              | (Inr up, engine) \<Rightarrow>
                  (let a' = a\<lparr>a_engine := engine\<rparr>;
                       cx' = cx\<lparr>upstream := up\<rparr>;
                       ((res, s), cache) =
                         execute env plugin_registry (gc_global_plugins (l_gateway_cfg (a_loader a')))
                           (r_plugins route) (proxy env (a_proxy_started a') route) r
                           (a_plugin_cache a') (enter_request cx' a')
                   in (res, leave_request s cache a'))))"

section \<open>Lemmas\<close>

text \<open>Nothing but the proxy uses the HTTP client.\<close>

lemmas full_congs = if_cong let_cong sum.case_cong option.case_cong prod.case_cong

lemma plugin_call_no_http: "plugin_call (env\<lparr>http_request := f\<rparr>) p = plugin_call env p"
proof -
  have redis: "get_redis (env\<lparr>http_request := f\<rparr>) = get_redis env"
    by (intro ext) (simp add: get_redis_def cong: full_congs)
  have "fetch_jwks (env\<lparr>http_request := f\<rparr>) = fetch_jwks env" by (intro ext) (simp add: fetch_jwks_def cong: full_congs)
  moreover have "decode_token (env\<lparr>http_request := f\<rparr>) = decode_token env"
    by (intro ext) (simp add: decode_token_def cong: full_congs)
  ultimately have jwt: "jwt_validator (env\<lparr>http_request := f\<rparr>) = jwt_validator env"
    by (intro ext) (simp add: jwt_validator_def verification_key_def cong: full_congs)
  have str: "json_str (env\<lparr>http_request := f\<rparr>) = json_str env"
    by (intro ext, rename_tac v, case_tac v) simp_all
  have "get_script_sha (env\<lparr>http_request := f\<rparr>) = get_script_sha env"
    by (intro ext) (simp add: get_script_sha_def cong: full_congs)
  then have "check_limit (env\<lparr>http_request := f\<rparr>) = check_limit env"
    by (intro ext) (simp add: check_limit_def redis too_many_def str cong: full_congs)
  then have rate: "rate_limiter (env\<lparr>http_request := f\<rparr>) = rate_limiter env"
    by (intro ext) (simp add: rate_limiter_def cong: full_congs)
  have "set_open (env\<lparr>http_request := f\<rparr>) = set_open env" by (intro ext) (simp add: set_open_def cong: full_congs)
  then have "handle_failure (env\<lparr>http_request := f\<rparr>) = handle_failure env"
    by (intro ext) (simp add: handle_failure_def record_failure_def cong: full_congs)
  moreover from this have "after_response (env\<lparr>http_request := f\<rparr>) = after_response env"
    by (intro ext) (simp add: after_response_def cong: full_congs)
  ultimately have "proceed (env\<lparr>http_request := f\<rparr>) = proceed env"
    by (intro ext) (simp add: proceed_def cong: full_congs)
  then have breaker: "circuit_breaker (env\<lparr>http_request := f\<rparr>) = circuit_breaker env"
    by (intro ext) (simp add: circuit_breaker_def redis cong: full_congs)
  have "log_handled (env\<lparr>http_request := f\<rparr>) = log_handled env"
    by (intro ext) (simp add: log_handled_def cong: full_congs)
  then have log: "access_logger (env\<lparr>http_request := f\<rparr>) = access_logger env"
    by (intro ext) (simp add: access_logger_def cong: full_congs)
  show ?thesis by (cases p) (simp_all add: jwt rate breaker log)
qed

lemma execute_no_http: "execute (env\<lparr>http_request := f\<rparr>) = execute env"
proof -
  have "get_or_create (env\<lparr>http_request := f\<rparr>) = get_or_create env"
    by (intro ext) (simp add: get_or_create_def config_hash_def)
  then have "collect_plugins (env\<lparr>http_request := f\<rparr>) reg cfgs c = collect_plugins env reg cfgs c" for reg cfgs c
    by (induction cfgs arbitrary: c) (simp_all add: split_beta)
  moreover have "plugin_call (env\<lparr>http_request := f\<rparr>) = plugin_call env"
    by (rule ext) (rule plugin_call_no_http)
  then have "build_chain (env\<lparr>http_request := f\<rparr>) = build_chain env"
    by (intro ext) (simp add: build_chain_def)
  ultimately show ?thesis by (intro ext) (simp add: execute_def get_plugins_def)
qed

lemma collect_disabled: "filter pc_enabled cfgs = [] \<Longrightarrow> collect_plugins env reg cfgs cache = ([], cache)"
  by (induction cfgs) (simp_all split: if_splits)

lemma execute_disabled:
  "filter pc_enabled (gs @ rs) = [] \<Longrightarrow> execute env reg gs rs e r cache s = (e r s, cache)"
  by (simp add: execute_def get_plugins_def collect_disabled build_chain_def)

section \<open>Properties\<close>

text \<open>
  C1. A request for a route with an API key or client certificate plugin, on the route or global,
  never makes the gateway contact an upstream unless it carries a valid credential: the whole
  handler gives the same response and leaves the same state whatever the HTTP client would do, and
  the response is an error status or an exception.
\<close>

theorem unauthenticated_never_proxied:
  assumes "match_request re (a_engine a) r = Inr (Some route)"
    and "cache_ok env used (a_plugin_cache a)" and "collision_free env used"
    and "set (gc_global_plugins (l_gateway_cfg (a_loader a))) \<subseteq> used" and "set (r_plugins route) \<subseteq> used"
    and "cfg \<in> set (gc_global_plugins (l_gateway_cfg (a_loader a)) @ r_plugins route)" and "pc_enabled cfg"
    and "instantiate plugin_registry cfg = Some p" and "\<not> lets_in p r"
  shows "http_gateway (env\<lparr>http_request := client\<rparr>) re py_hash dr r path a = http_gateway env re py_hash dr r path a \<and>
     refused (fst (http_gateway env re py_hash dr r path a))"
proof -
  let ?gs = "gc_global_plugins (l_gateway_cfg (a_loader a))"
  have same: "execute env plugin_registry ?gs (r_plugins route) e r (a_plugin_cache a) s =
     execute env plugin_registry ?gs (r_plugins route) e' r (a_plugin_cache a) s" for e e' s
    using closed_plugin_execute [where e = e and e' = e' and s = s, OF assms(2-9)]
    by (simp add: execute_def split_beta prod_eq_iff)
  have ref: "refused (fst (fst (execute env plugin_registry ?gs (r_plugins route) e r (a_plugin_cache a) s)))" for e s
    using closed_plugin_execute [where e = e and e' = e and s = s, OF assms(2-9)] by simp
  have "http_gateway (env\<lparr>http_request := client\<rparr>) re py_hash dr r path a = http_gateway env re py_hash dr r path a"
    using assms(1)
    by (simp add: http_gateway_def execute_no_http Let_def
        same [of "proxy (env\<lparr>http_request := client\<rparr>) (a_proxy_started a) route" _ "proxy env (a_proxy_started a) route"]
        cong: full_congs)
  moreover have "refused (fst (http_gateway env re py_hash dr r path a))"
    using assms(1) ref by (auto simp: http_gateway_def Let_def split_beta split: sum.split prod.split)
  ultimately show ?thesis by blast
qed

definition guarded_route :: RouteConfig where
  "guarded_route = (two_targets ''round_robin'')\<lparr>r_match := default_MatchConfig\<lparr>m_path := ''/users''\<rparr>,
     r_plugins := [demo_key_config]\<rparr>"

definition demo_app :: "demo app" where
  "demo_app = \<lparr>a_loader = new_ConfigLoader ''routes.yaml'' ''gateway.yaml'' demo_world,
     a_engine = update_routes [guarded_route] new_RoutingEngine, a_proxy_started = True,
     a_plugin_cache = [], a_sha_cache = [], a_jwks_cache = [], a_log = []\<rparr>"

definition demo_re :: regex_engine where
  "demo_re = (\<lambda>_ _. Inr False)"

definition demo_hash :: "string \<Rightarrow> int" where
  "demo_hash s = int (length s)"

definition demo_draws :: draws where
  "demo_draws = \<lparr>dr_uuid = ''req-1'', dr_now = 0, dr_random = 0\<rparr>"

lemma demo_match: "match_request re (a_engine demo_app) demo_request = Inr (Some guarded_route)"
  by (simp add: match_request_def demo_app_def update_routes_def new_RoutingEngine_def guarded_route_def
      demo_request_def protocol_from_request_def header_or_def header_get_def startswith_def lower_def
      default_MatchConfig_def upper_def upper_char_def host_mismatch_def match_path_def)

theorem unauthenticated_never_proxied_witness:
  "refused (fst (http_gateway digest_env demo_re demo_hash demo_draws demo_request ''users'' demo_app))"
proof -
  have k: "instantiate plugin_registry demo_key_config = Some (APIKeyPlugin
     \<lparr>ak_keys = [JStr ''k1''], ak_header_name = JStr ''x-api-key'', ak_query_param = JNull\<rparr>)"
    by (rule demo_instances)
  have e: "pc_enabled demo_key_config" by (simp add: demo_key_config_def)
  have n: "\<not> lets_in (APIKeyPlugin \<lparr>ak_keys = [JStr ''k1''], ak_header_name = JStr ''x-api-key'', ak_query_param = JNull\<rparr>)
      demo_request"
    by (simp add: demo_request_def valid_api_key_def extract_key_def header_get_def)
  show ?thesis
    by (rule conjunct2 [OF unauthenticated_never_proxied [OF demo_match _ demo_collision_free _ _ _ e k n, where client = "\<lambda>c w. (Inl ConnectError, w)"]])
       (simp_all add: demo_app_def new_ConfigLoader_def default_GatewayConfig_def guarded_route_def)
qed

text \<open>
  Hot reload replaces the routing table in one step or not at all: when reading the files fails,
  the engine routes as before; when it succeeds, the table is the loader's new one and the rotation
  counters of the routes that stay are kept.
\<close>

theorem reload_all_or_nothing:
  "case on_config_changed d a of
     (Inl e, a') \<Rightarrow> a_engine a' = a_engine a
   | (Inr _, a') \<Rightarrow> load_routes d (a_loader a) = Inr (routes (a_engine a')) \<and> l_routes (a_loader a') = routes (a_engine a') \<and>
       (\<forall>rid. dict_get (round_robin_counters (a_engine a')) rid =
          (if rid \<in> r_id ` set (routes (a_engine a')) then dict_get (round_robin_counters (a_engine a)) rid else None))"
proof -
  obtain res l where l: "reload d (a_loader a) = (res, l)" by fastforce
  have "load_routes d (a_loader a) = Inr (l_routes l)" if "res = Inr u" for u
    using l that by (auto simp: reload_def Let_def split: sum.splits)
  with l show ?thesis
    by (cases res) (auto simp: on_config_changed_def with_loader_def publish_routes_def update_routes_def Let_def
        and_then_def dict_get_filter_key)
qed

lemma reload_needs_key:
  "presented_admin_key r = [] \<or> presented_admin_key r \<noteq> key \<Longrightarrow>
   \<exists>resp. rs_status resp = 401 \<and> reload_config env d key r a = (Inr resp, a)"
  by (auto simp: reload_config_def Let_def json_response_def)

text \<open>
  C26. A routes file that is missing or empty when it is read, as it is while another process rewrites it,
  is no error: the reload succeeds with no routes, and from then on every HTTP request is answered 404
  until a later reload. (Writing a file starts by truncating it; an empty text is YAML's null.)
\<close>

theorem empty_file_unroutes_everything:
  assumes "read_file d (outside (a_loader a)) (l_routes_path (a_loader a)) = Inr found"
    and "found = None \<or> (\<exists>text v. found = Some text \<and> yaml_load d text = Inr v \<and> \<not> truthy v)"
    and "load_gateway d ((a_loader a)\<lparr>l_routes := []\<rparr>) = Inr g"
  shows "\<exists>b. on_config_changed d a = (Inr (), b) \<and> routes (a_engine b) = [] \<and>
    (\<forall>env re py_hash dr r path. http_gateway env re py_hash dr r path b = (Inr (not_found env r path), b))"
proof -
  have "load_routes d (a_loader a) = Inr []"
    using assms(1,2) by (auto simp: load_routes_def read_yaml_def bind_outcome_def dict_get_default_def)
  then have "reload d (a_loader a) = (Inr (), (a_loader a)\<lparr>l_routes := [], l_gateway_cfg := g\<rparr>)"
    using assms(3) by (simp add: reload_def Let_def)
  then show ?thesis
    by (simp add: on_config_changed_def with_loader_def publish_routes_def update_routes_def and_then_def Let_def
        http_gateway_def match_request_def)
qed

definition truncated_file :: "demo loader_deps" where
  "truncated_file = \<lparr>yaml_load = (\<lambda>_. Inr JNull), yaml_dump = (\<lambda>_. []), json_loads = (\<lambda>_. Inr JNull),
     route_validate = (\<lambda>_. Inl TypeError), gateway_validate = (\<lambda>_. Inr default_GatewayConfig), route_dump = (\<lambda>_. JNull),
     route_dump_json = (\<lambda>_. []), gateway_dump_json = (\<lambda>_. []),
     read_file = (\<lambda>_ f. Inr (if f = ''routes.yaml'' then Some [] else None)), write_file = (\<lambda>_ _ w. (Inr (), w)),
     getenv = (\<lambda>_ _. None), redis_hgetall = (\<lambda>_ _. Inl RedisError), redis_get = (\<lambda>_ _. Inl RedisError),
     redis_pipeline = (\<lambda>_ w. (Inr (), w))\<rparr>"

theorem empty_file_unroutes_everything_witness:
  "match_request demo_re (a_engine demo_app) demo_request = Inr (Some guarded_route) \<and>
   (\<exists>b. on_config_changed truncated_file demo_app = (Inr (), b) \<and>
     http_gateway demo_env demo_re demo_hash demo_draws demo_request ''users'' b = (Inr (not_found demo_env demo_request ''users''), b))"
proof -
  have "read_file truncated_file (outside (a_loader demo_app)) (l_routes_path (a_loader demo_app)) = Inr (Some [])"
    "yaml_load truncated_file [] = Inr JNull" "\<not> truthy JNull"
    "load_gateway truncated_file ((a_loader demo_app)\<lparr>l_routes := []\<rparr>) = Inr default_GatewayConfig"
    by (simp_all add: truncated_file_def demo_app_def new_ConfigLoader_def load_gateway_def bind_outcome_def)
  with empty_file_unroutes_everything [of truncated_file demo_app "Some []" default_GatewayConfig] demo_match show ?thesis by blast
qed

text \<open>
  A routed request without plugins goes to the target whose turn it is: the proxy is called with the
  target at the route's counter, modulo the number of targets, the counter is advanced by one, and
  the proxy's result is the response.
\<close>

theorem plain_route_forwards:
  assumes "match_request re (a_engine a) r = Inr (Some route)" and "round_robin route"
    and "filter pc_enabled (gc_global_plugins (l_gateway_cfg (a_loader a)) @ r_plugins route) = []"
  shows "\<exists>cx t. upstream cx = Some (upstream_info route
         (u_targets (r_upstream route) ! (rr_counter route (a_engine a) mod length (u_targets (r_upstream route))))) \<and>
     route_id cx = r_id route \<and> request_id cx = dr_uuid dr \<and>
     proxy env (a_proxy_started a) route r (enter_request cx a) =
       (fst (http_gateway env re py_hash dr r path a), t) \<and>
     rr_counter route (a_engine (snd (http_gateway env re py_hash dr r path a))) = rr_counter route (a_engine a) + 1"
proof -
  let ?cx = "routed_context r route (new_context (dr_uuid dr) (dr_now dr))"
  obtain up e where u: "resolve_upstream py_hash (dr_random dr) route ?cx (a_engine a) = (up, e)" by fastforce
  then have up: "up = rr_pick route (rr_counter route (a_engine a))" and e: "rr_counter route e = rr_counter route (a_engine a) + 1"
    using resolve_round_robin [OF assms(2), of py_hash "dr_random dr" ?cx "a_engine a"] by simp_all
  obtain target where t: "up = Inr (Some (upstream_info route target))"
    "target = u_targets (r_upstream route) ! (rr_counter route (a_engine a) mod length (u_targets (r_upstream route)))"
    using up by (simp add: rr_pick_def Let_def)
  let ?cx' = "?cx\<lparr>upstream := Some (upstream_info route target)\<rparr>"
  obtain res s where p: "proxy env (a_proxy_started a) route r (enter_request ?cx' a) = (res, s)" by fastforce
  have "enter_request ?cx' (a\<lparr>a_engine := e\<rparr>) = enter_request ?cx' a" by (simp add: enter_request_def)
  with assms(1) u t(1) p have
    "http_gateway env re py_hash dr r path a = (res, leave_request s (a_plugin_cache a) (a\<lparr>a_engine := e\<rparr>))"
    using execute_disabled [of "gc_global_plugins (l_gateway_cfg (a_loader a))" "r_plugins route" env plugin_registry]
      assms(3) by (simp add: http_gateway_def Let_def)
  then show ?thesis
    using p t(2) e by (intro exI [of _ ?cx'] exI [of _ s])
      (simp add: routed_context_def Let_def leave_request_def)
qed

theorem plain_route_forwards_witness:
  "rr_counter (two_targets ''round_robin'') (a_engine (snd (http_gateway demo_env demo_re demo_hash demo_draws demo_request ''users''
     (demo_app\<lparr>a_engine := update_routes [(two_targets ''round_robin'')\<lparr>r_match := default_MatchConfig\<lparr>m_path := ''/users''\<rparr>\<rparr>] new_RoutingEngine\<rparr>)))) = 1"
proof -
  let ?route = "(two_targets ''round_robin'')\<lparr>r_match := default_MatchConfig\<lparr>m_path := ''/users''\<rparr>\<rparr>"
  let ?a = "demo_app\<lparr>a_engine := update_routes [?route] new_RoutingEngine\<rparr>"
  have m: "match_request demo_re (a_engine ?a) demo_request = Inr (Some ?route)"
    by (simp add: match_request_def update_routes_def new_RoutingEngine_def
      demo_request_def protocol_from_request_def header_or_def header_get_def startswith_def lower_def
      default_MatchConfig_def upper_def upper_char_def host_mismatch_def match_path_def)
  have "rr_counter ?route (a_engine ?a) = 0"
    by (simp add: rr_counter_def update_routes_def new_RoutingEngine_def dict_get_default_def)
  moreover have "round_robin ?route" by (simp add: round_robin_def two_targets_def default_RouteConfig_def default_UpstreamConfig_def)
  ultimately show ?thesis
    using plain_route_forwards [OF m, of demo_draws demo_env demo_hash "''users''"]
    by (auto simp: demo_app_def new_ConfigLoader_def default_GatewayConfig_def two_targets_def default_RouteConfig_def
        rr_counter_def)
qed

end
