(* ===== verification/Grpc.thy ===== *)
theory Grpc
  imports Gateway
begin

text \<open>
  The gRPC side of the gateway: \<open>gateway/adapters/grpc_proxy.py\<close>. Looking up the handler of a
  call, the preflight through the plugin pipeline, the metadata that is forwarded, the channel cache
  and the four call cardinalities, whose answers are the events the gateway sends to the caller.
  Opening a channel and invoking a method on it are external operations.
\<close>

section \<open>What the proxy calls\<close>

type_synonym metadata = "(string \<times> string) list"

type_synonym rpc_error = "StatusCode \<times> string"

text \<open>
  An upstream call: the initial metadata or an error before it, the messages that arrive, and the
  trailing metadata or the error that ends it. A unary answer is one message.
\<close>

record rpc_call =
  rpc_initial :: "rpc_error + metadata"
  rpc_messages :: "string list"
  rpc_end :: "rpc_error + metadata"

datatype cardinality = UnaryUnary | UnaryStream | StreamUnary | StreamStream

record invocation =
  iv_channel :: nat
  iv_cardinality :: cardinality
  iv_method :: string
  iv_messages :: "string list"
  iv_metadata :: metadata
  iv_timeout :: rat
  iv_wait_for_ready :: bool

record 'w grpc_deps =
  g_loads :: "string \<Rightarrow> json outcome"
  g_parse_query :: "string \<Rightarrow> (string \<times> string) list"
  g_open_channel :: "string \<Rightarrow> bool \<Rightarrow> string option \<Rightarrow> ('w, nat) act"
  g_invoke :: "invocation \<Rightarrow> ('w, rpc_call) act"
  g_close_channel :: "nat \<Rightarrow> ('w, unit) act"

section \<open>Metadata\<close>

definition forward_metadata :: "metadata \<Rightarrow> GatewayContext \<Rightarrow> GRPCProxyConfig \<Rightarrow> metadata" where
  "forward_metadata md cx cfg =
     (let dropped = set (map lower (g_drop_metadata cfg));
          forwarded = filter (\<lambda>(k, v). lower k \<notin> dropped) md
      in if g_inject_request_id cfg \<and> \<not> list_ex (\<lambda>(k, _). lower k = ''x-request-id'') forwarded
         then forwarded @ [(''x-request-id'', request_id cx)] else forwarded)"

text \<open>The metadata as a dictionary with lower-case keys, where the last value of a key counts.\<close>

definition metadata_dict :: "metadata \<Rightarrow> (string, string) dict" where
  "metadata_dict md = dict_of (map (\<lambda>(k, v). (lower k, v)) md)"

section \<open>Channels\<close>

type_synonym channel_key = "string \<times> bool \<times> string option"

record 'w grpc_state =
  gs_app :: "'w app"
  gs_channels :: "(channel_key, nat) dict"

definition normalized_target :: "string \<Rightarrow> string" where
  "normalized_target url =
     str_replace ''https://'' [] (str_replace ''http://'' [] (str_replace ''grpcs://'' [] (str_replace ''grpc://'' [] url)))"

definition target_secure :: "string \<Rightarrow> GRPCProxyConfig \<Rightarrow> bool" where
  "target_secure url cfg =
     (case g_secure cfg of Some b \<Rightarrow> b | None \<Rightarrow> startswith url ''grpcs://'' \<or> startswith url ''https://'')"

definition on_app :: "('w app, 'a) act \<Rightarrow> ('w grpc_state, 'a) act" where
  "on_app m s = (case m (gs_app s) of (r, a) \<Rightarrow> (r, s\<lparr>gs_app := a\<rparr>))"

declare on_app_def [part_defs]

definition channel_for :: "'w grpc_deps \<Rightarrow> string \<Rightarrow> GRPCProxyConfig \<Rightarrow> ('w grpc_state, nat) act" where
  "channel_for d url cfg s =
     (let target = normalized_target url; secure = target_secure url cfg;
          cache_key = (target, secure, g_root_cert_file cfg)
      in case dict_get (gs_channels s) cache_key of
           Some ch \<Rightarrow> (Inr ch, s)
         | None \<Rightarrow>
             and_then (on_app (on_outside (g_open_channel d target secure
                 (if secure then (case g_root_cert_file cfg of Some f \<Rightarrow> if f = [] then None else Some f | None \<Rightarrow> None)
                  else None))))
               (\<lambda>ch t. (Inr ch, t\<lparr>gs_channels := dict_set cache_key ch (gs_channels t)\<rparr>)) s)"

fun close_each :: "'w grpc_deps \<Rightarrow> nat list \<Rightarrow> ('w grpc_state, unit) act" where
  "close_each d [] = ret ()"
| "close_each d (ch # chs) = and_then (on_app (on_outside (g_close_channel d ch))) (\<lambda>_. close_each d chs)"

definition close_channels :: "'w grpc_deps \<Rightarrow> ('w grpc_state, unit) act" where
  "close_channels d s =
     and_then (close_each d (map snd (gs_channels s))) (\<lambda>_ t. (Inr (), t\<lparr>gs_channels := []\<rparr>)) s"

section \<open>Preparing a call\<close>

definition allow_handler :: "'w handler" where
  "allow_handler r = ret (mk_response [] 204 [] None)"

definition run_preflight :: "'w env \<Rightarrow> RouteConfig \<Rightarrow> request \<Rightarrow> GatewayContext \<Rightarrow> 'w app \<Rightarrow>
    (response outcome \<times> GatewayContext) \<times> 'w app" where
  "run_preflight env route r cx a =
     (let ((res, s), cache) = execute env plugin_registry (gc_global_plugins (l_gateway_cfg (a_loader a)))
            (r_plugins route) allow_handler r (a_plugin_cache a) (enter_request cx a)
      in ((res, ctx s), leave_request s cache a))"

text \<open>\<open>context.abort\<close> ends the call with a status; that and an exception are the two ways not to go on.\<close>

datatype prepared =
    Aborted StatusCode string
  | Prepared GatewayContext UpstreamInfo metadata

definition grpc_request :: "'w grpc_deps \<Rightarrow> string \<Rightarrow> metadata \<Rightarrow> string option \<Rightarrow> request" where
  "grpc_request d meth md peer =
     build_synthetic_request (g_parse_query d) meth ''POST'' (metadata_dict md) [] (Some (client_from_peer peer))"

definition prepare_call :: "'w env \<Rightarrow> 'w grpc_deps \<Rightarrow> (string \<Rightarrow> int) \<Rightarrow> draws \<Rightarrow> RouteConfig \<Rightarrow> string \<Rightarrow>
    metadata \<Rightarrow> string option \<Rightarrow> ('w app, prepared) act" where
  "prepare_call env d py_hash dr route meth md peer a =
     (let r = grpc_request d meth md peer;
          ((res, cx), a') = run_preflight env route r (routed_context r route (new_context (dr_uuid dr) (dr_now dr))) a
      in case res of
           Inl e \<Rightarrow> (Inl e, a')
         | Inr resp \<Rightarrow>
             if rs_status resp \<ge> 400 then
               (case response_detail (g_loads d) resp ''gRPC request rejected by gateway'' of
                  Inl e \<Rightarrow> (Inl e, a')
                | Inr detail \<Rightarrow> (Inr (Aborted (http_status_to_grpc_status (rs_status resp)) detail), a'))
             else
               (case resolve_upstream py_hash (dr_random dr) route cx (a_engine a') of
                  (Inl e, engine) \<Rightarrow> (Inl e, a'\<lparr>a_engine := engine\<rparr>)
                | (Inr None, engine) \<Rightarrow>
                    (Inr (Aborted UNAVAILABLE ''No upstream servers available''), a'\<lparr>a_engine := engine\<rparr>)
                | (Inr (Some target), engine) \<Rightarrow>
                    (Inr (Prepared cx target (forward_metadata md cx (r_grpc route))), a'\<lparr>a_engine := engine\<rparr>)))"

section \<open>The handlers\<close>

datatype grpc_event =
    SendInitialMetadata metadata
  | SendMessage string
  | SetTrailingMetadata metadata
  | Abort StatusCode string

definition initial_events :: "metadata \<Rightarrow> grpc_event list" where
  "initial_events md = (if md \<noteq> [] then [SendInitialMetadata md] else [])"

definition trailing_events :: "metadata \<Rightarrow> grpc_event list" where
  "trailing_events md = (if md \<noteq> [] then [SetTrailingMetadata md] else [])"

text \<open>\<open>async for response in call: yield response\<close>.\<close>

definition stream_answer :: "rpc_call \<Rightarrow> grpc_event list" where
  "stream_answer call =
     (case rpc_initial call of
        Inl (code, details) \<Rightarrow> [Abort code details]
      | Inr md \<Rightarrow>
          initial_events md @ map SendMessage (rpc_messages call) @
          (case rpc_end call of Inl (code, details) \<Rightarrow> [Abort code details] | Inr md' \<Rightarrow> trailing_events md'))"

text \<open>\<open>await call\<close>: one message, or the error; the message is returned after the trailing metadata.\<close>

definition unary_answer :: "rpc_call \<Rightarrow> grpc_event list" where
  "unary_answer call =
     (case rpc_initial call of
        Inl (code, details) \<Rightarrow> [Abort code details]
      | Inr md \<Rightarrow>
          initial_events md @
          (case rpc_end call of
             Inl (code, details) \<Rightarrow> [Abort code details]
           | Inr md' \<Rightarrow> trailing_events md' @ map SendMessage (take 1 (rpc_messages call))))"

fun answer :: "cardinality \<Rightarrow> rpc_call \<Rightarrow> grpc_event list" where
  "answer UnaryUnary call = unary_answer call"
| "answer StreamUnary call = unary_answer call"
| "answer UnaryStream call = stream_answer call"
| "answer StreamStream call = stream_answer call"

definition call_timeout :: "RouteConfig \<Rightarrow> rat" where
  "call_timeout route =
     (case g_timeout (r_grpc route) of
        Some t \<Rightarrow> if t \<noteq> 0 then t else u_timeout (r_upstream route)
      | None \<Rightarrow> u_timeout (r_upstream route))"

definition run_method :: "'w env \<Rightarrow> 'w grpc_deps \<Rightarrow> (string \<Rightarrow> int) \<Rightarrow> draws \<Rightarrow> cardinality \<Rightarrow> RouteConfig \<Rightarrow> string \<Rightarrow>
    metadata \<Rightarrow> string option \<Rightarrow> string list \<Rightarrow> ('w grpc_state, grpc_event list) act" where
  "run_method env d py_hash dr kind route meth md peer msgs =
     and_then (on_app (prepare_call env d py_hash dr route meth md peer)) (\<lambda>prep.
       case prep of
         Aborted code details \<Rightarrow> ret [Abort code details]
       | Prepared cx target fmd \<Rightarrow>
           and_then (channel_for d (ui_url target) (r_grpc route)) (\<lambda>ch.
           and_then (on_app (on_outside (g_invoke d
               \<lparr>iv_channel = ch, iv_cardinality = kind, iv_method = meth, iv_messages = msgs,
                iv_metadata = fmd, iv_timeout = call_timeout route,
                iv_wait_for_ready = g_wait_for_ready (r_grpc route)\<rparr>)))
             (\<lambda>call. ret (answer kind call))))"

text \<open>
  The four handlers. They differ in the cardinality of the call on the channel, in passing a request
  iterator or one request, and in streaming the answer or returning it.
\<close>

definition unary_unary :: "'w env \<Rightarrow> 'w grpc_deps \<Rightarrow> (string \<Rightarrow> int) \<Rightarrow> draws \<Rightarrow> RouteConfig \<Rightarrow> string \<Rightarrow>
    metadata \<Rightarrow> string option \<Rightarrow> string list \<Rightarrow> ('w grpc_state, grpc_event list) act" where
  "unary_unary env d py_hash dr = run_method env d py_hash dr UnaryUnary"

definition unary_stream :: "'w env \<Rightarrow> 'w grpc_deps \<Rightarrow> (string \<Rightarrow> int) \<Rightarrow> draws \<Rightarrow> RouteConfig \<Rightarrow> string \<Rightarrow>
    metadata \<Rightarrow> string option \<Rightarrow> string list \<Rightarrow> ('w grpc_state, grpc_event list) act" where
  "unary_stream env d py_hash dr = run_method env d py_hash dr UnaryStream"

definition stream_unary :: "'w env \<Rightarrow> 'w grpc_deps \<Rightarrow> (string \<Rightarrow> int) \<Rightarrow> draws \<Rightarrow> RouteConfig \<Rightarrow> string \<Rightarrow>
    metadata \<Rightarrow> string option \<Rightarrow> string list \<Rightarrow> ('w grpc_state, grpc_event list) act" where
  "stream_unary env d py_hash dr = run_method env d py_hash dr StreamUnary"

definition stream_stream :: "'w env \<Rightarrow> 'w grpc_deps \<Rightarrow> (string \<Rightarrow> int) \<Rightarrow> draws \<Rightarrow> RouteConfig \<Rightarrow> string \<Rightarrow>
    metadata \<Rightarrow> string option \<Rightarrow> string list \<Rightarrow> ('w grpc_state, grpc_event list) act" where
  "stream_stream env d py_hash dr = run_method env d py_hash dr StreamStream"

fun call_method :: "cardinality \<Rightarrow> 'w env \<Rightarrow> 'w grpc_deps \<Rightarrow> (string \<Rightarrow> int) \<Rightarrow> draws \<Rightarrow> RouteConfig \<Rightarrow> string \<Rightarrow>
    metadata \<Rightarrow> string option \<Rightarrow> string list \<Rightarrow> ('w grpc_state, grpc_event list) act" where
  "call_method UnaryUnary = unary_unary"
| "call_method UnaryStream = unary_stream"
| "call_method StreamUnary = stream_unary"
| "call_method StreamStream = stream_stream"

lemma call_method_run: "call_method kind env d py_hash dr = run_method env d py_hash dr kind"
  by (cases kind) (simp_all add: unary_unary_def unary_stream_def stream_unary_def stream_stream_def)

text \<open>\<open>service\<close> and \<open>_build_method_handler\<close>: the handler for a method, by its route.\<close>

datatype method_handler = NotFoundHandler | MethodHandler cardinality RouteConfig

definition build_method_handler :: "RouteConfig \<Rightarrow> method_handler" where
  "build_method_handler route =
     (let c = g_cardinality (r_grpc route)
      in if c = ''stream_stream'' then MethodHandler StreamStream route
         else if c = ''stream_unary'' then MethodHandler StreamUnary route
         else if c = ''unary_stream'' then MethodHandler UnaryStream route
         else MethodHandler UnaryUnary route)"

definition service :: "regex_engine \<Rightarrow> RoutingEngine \<Rightarrow> string \<Rightarrow> metadata \<Rightarrow> method_handler outcome" where
  "service re e meth md =
     (let headers = metadata_dict md;
          host = dict_get_default headers ''host'' (dict_get_default headers '':authority'' [])
      in map_sum id (\<lambda>found. case found of None \<Rightarrow> NotFoundHandler | Some route \<Rightarrow> build_method_handler route)
           (match_grpc re e meth host headers))"

text \<open>A call from its arrival to the events sent back.\<close>

definition handle_call :: "'w env \<Rightarrow> 'w grpc_deps \<Rightarrow> regex_engine \<Rightarrow> (string \<Rightarrow> int) \<Rightarrow> draws \<Rightarrow> string \<Rightarrow>
    metadata \<Rightarrow> string option \<Rightarrow> string list \<Rightarrow> ('w grpc_state, grpc_event list) act" where
  "handle_call env d re py_hash dr meth md peer msgs s =
     (case service re (a_engine (gs_app s)) meth md of
        Inl e \<Rightarrow> (Inl e, s)
      | Inr NotFoundHandler \<Rightarrow> (Inr [Abort NOT_FOUND ''Route not found''], s)
      | Inr (MethodHandler kind route) \<Rightarrow> call_method kind env d py_hash dr route meth md peer msgs s)"

section \<open>Properties\<close>

text \<open>
  C30. A gRPC call for a route with an API key or client certificate plugin is never forwarded without
  a valid credential in its metadata: the caller gets one abort (or the handler an exception), no
  upstream is selected, and neither a channel nor the upstream method is touched, whatever they
  would do.
\<close>

theorem grpc_unauthenticated_never_forwarded:
  assumes "service re (a_engine (gs_app s)) meth md = Inr (MethodHandler kind route)"
    and "cache_ok env used (a_plugin_cache (gs_app s))" and "collision_free env used"
    and "set (gc_global_plugins (l_gateway_cfg (a_loader (gs_app s)))) \<subseteq> used" and "set (r_plugins route) \<subseteq> used"
    and "cfg \<in> set (gc_global_plugins (l_gateway_cfg (a_loader (gs_app s))) @ r_plugins route)" and "pc_enabled cfg"
    and "instantiate plugin_registry cfg = Some p" and "\<not> lets_in p (grpc_request d meth md peer)"
  shows "(\<forall>opn inv. handle_call env (d\<lparr>g_open_channel := opn, g_invoke := inv\<rparr>) re py_hash dr meth md peer msgs s =
      handle_call env d re py_hash dr meth md peer msgs s) \<and>
    a_engine (gs_app (snd (handle_call env d re py_hash dr meth md peer msgs s))) = a_engine (gs_app s) \<and>
    (case fst (handle_call env d re py_hash dr meth md peer msgs s) of
       Inl _ \<Rightarrow> True | Inr evs \<Rightarrow> \<exists>code details. evs = [Abort code details])"
proof -
  let ?r = "grpc_request d meth md peer"
  let ?cx = "routed_context ?r route (new_context (dr_uuid dr) (dr_now dr))"
  obtain res cx a where pre: "run_preflight env route ?r ?cx (gs_app s) = ((res, cx), a)" by (metis prod.exhaust)
  have "refused res"
    using pre closed_plugin_execute [where e = allow_handler and e' = allow_handler and s = "enter_request ?cx (gs_app s)", OF assms(2-9)]
    by (auto simp: run_preflight_def split_beta)
  moreover have eng: "a_engine a = a_engine (gs_app s)"
    using pre by (auto simp: run_preflight_def leave_request_def split_beta)
  ultimately have prep: "case prepare_call env d py_hash dr route meth md peer (gs_app s) of
      (Inl e, a') \<Rightarrow> a_engine a' = a_engine (gs_app s)
    | (Inr (Aborted code details), a') \<Rightarrow> a_engine a' = a_engine (gs_app s)
    | (Inr (Prepared cx' target fmd), a') \<Rightarrow> False"
    using pre by (auto simp: prepare_call_def Let_def split: sum.splits)
  have same: "prepare_call env (d\<lparr>g_open_channel := opn, g_invoke := inv\<rparr>) = prepare_call env d" for opn inv
    by (intro ext) (simp add: prepare_call_def grpc_request_def cong: full_congs)
  show ?thesis
    using prep assms(1)
    by (cases "prepare_call env d py_hash dr route meth md peer (gs_app s)")
       (auto simp: handle_call_def call_method_run run_method_def same and_then_def on_app_def split: sum.splits prepared.splits)
qed

definition grpc_route :: RouteConfig where
  "grpc_route = guarded_route\<lparr>r_match := default_MatchConfig\<lparr>m_path := ''/pkg.Svc/Get'', m_protocol := ''gRPC''\<rparr>\<rparr>"

definition demo_grpc :: "demo grpc_state" where
  "demo_grpc = \<lparr>gs_app = demo_app\<lparr>a_engine := update_routes [grpc_route] new_RoutingEngine\<rparr>, gs_channels = []\<rparr>"

definition demo_grpc_deps :: "demo grpc_deps" where
  "demo_grpc_deps = \<lparr>g_loads = (\<lambda>_. Inl (ValueError [])), g_parse_query = (\<lambda>_. []),
     g_open_channel = (\<lambda>_ _ _ w. (Inr 0, w)),
     g_invoke = (\<lambda>_ w. (Inr \<lparr>rpc_initial = Inr [], rpc_messages = [''m''], rpc_end = Inr []\<rparr>, w)),
     g_close_channel = (\<lambda>_ w. (Inr (), w))\<rparr>"

theorem grpc_unauthenticated_never_forwarded_witness:
  "case fst (handle_call digest_env demo_grpc_deps demo_re demo_hash demo_draws ''/pkg.Svc/Get'' [] None [''m''] demo_grpc) of
     Inl _ \<Rightarrow> True | Inr evs \<Rightarrow> \<exists>code details. evs = [Abort code details]"
proof -
  have k: "instantiate plugin_registry demo_key_config = Some (APIKeyPlugin
     \<lparr>ak_keys = [JStr ''k1''], ak_header_name = JStr ''x-api-key'', ak_query_param = JNull\<rparr>)"
    by (rule demo_instances)
  have e: "pc_enabled demo_key_config" by (simp add: demo_key_config_def)
  have n: "\<not> lets_in (APIKeyPlugin \<lparr>ak_keys = [JStr ''k1''], ak_header_name = JStr ''x-api-key'', ak_query_param = JNull\<rparr>)
      (grpc_request demo_grpc_deps ''/pkg.Svc/Get'' [] None)"
    by (simp add: valid_api_key_def extract_key_def header_get_def grpc_request_def build_synthetic_request_def
        metadata_dict_def dict_of_def)
  have m: "service demo_re (a_engine (gs_app demo_grpc)) ''/pkg.Svc/Get'' [] = Inr (MethodHandler UnaryUnary grpc_route)"
    by (simp add: service_def demo_grpc_def match_grpc_def update_routes_def new_RoutingEngine_def grpc_route_def
        guarded_route_def two_targets_def default_RouteConfig_def default_MatchConfig_def default_GRPCProxyConfig_def
        metadata_dict_def dict_of_def upper_def upper_char_def host_mismatch_def match_path_def startswith_def
        build_method_handler_def)
  show ?thesis
    by (rule conjunct2 [OF conjunct2 [OF grpc_unauthenticated_never_forwarded [OF m _ demo_collision_free _ _ _ e k n]]])
       (simp_all add: demo_grpc_def demo_app_def new_ConfigLoader_def default_GatewayConfig_def grpc_route_def guarded_route_def)
qed

text \<open>
  Forwarded metadata: apart from the request identifier, exactly the entries whose key is not
  configured to be dropped, in their order; with injection on, a request identifier is always there,
  and it is the context's when the caller sent none.
\<close>

theorem forward_metadata_spec:
  "filter (\<lambda>(k, _). lower k \<noteq> ''x-request-id'') (forward_metadata md cx cfg) =
     filter (\<lambda>(k, _). lower k \<notin> set (map lower (g_drop_metadata cfg)) \<and> lower k \<noteq> ''x-request-id'') md \<and>
   (if g_inject_request_id cfg then list_ex (\<lambda>(k, _). lower k = ''x-request-id'') (forward_metadata md cx cfg) else True) \<and>
   (if g_inject_request_id cfg \<and> \<not> list_ex (\<lambda>(k, _). lower k = ''x-request-id'') md
    then filter (\<lambda>(k, _). lower k = ''x-request-id'') (forward_metadata md cx cfg) = [(''x-request-id'', request_id cx)]
    else True)"
proof -
  have x: "lower ''x-request-id'' = ''x-request-id''" by (simp add: lower_def lower_char_def)
  have "filter (\<lambda>(k, _). lower k = ''x-request-id'') (filter (\<lambda>(k, v). lower k \<notin> D) md) = []"
    if "\<not> list_ex (\<lambda>(k, _). lower k = ''x-request-id'') md" for D
    using that by (auto simp: list_ex_iff filter_empty_conv)
  then show ?thesis
    by (auto simp: forward_metadata_def Let_def x list_ex_iff conj_commute intro!: filter_cong)
qed

text \<open>
  A channel is opened once per target, security and certificate: after \<open>channel_for\<close> has
  answered, the same route gets the same channel without any further effect, even if opening would
  fail by now, and the channels of other targets are still there.
\<close>

theorem channel_reused:
  assumes "channel_for d url cfg s = (Inr ch, t)"
  shows "channel_for d' url cfg t = (Inr ch, t) \<and>
    (\<forall>key. dict_get (gs_channels s) key \<in> {None, dict_get (gs_channels t) key})"
proof -
  let ?key = "(normalized_target url, target_secure url cfg, g_root_cert_file cfg)"
  have "dict_get (gs_channels t) ?key = Some ch \<and> (t = s \<or> dict_get (gs_channels s) ?key = None \<and>
      gs_channels t = dict_set ?key ch (gs_channels s))"
  proof (cases "dict_get (gs_channels s) ?key")
    case None
    obtain res u where o: "on_app (on_outside (g_open_channel d (normalized_target url) (target_secure url cfg)
        (if target_secure url cfg then (case g_root_cert_file cfg of Some f \<Rightarrow> if f = [] then None else Some f | None \<Rightarrow> None)
         else None))) s = (res, u)" by fastforce
    then have "gs_channels u = gs_channels s" by (auto simp: on_app_def split: prod.splits)
    with None o assms show ?thesis
      by (cases res) (auto simp: channel_for_def Let_def and_then_def update_conv)
  next
    case (Some c)
    with assms show ?thesis by (simp add: channel_for_def Let_def)
  qed
  then show ?thesis by (auto simp: channel_for_def Let_def update_conv split: if_splits)
qed

theorem channel_reused_witness:
  "channel_for (demo_grpc_deps\<lparr>g_open_channel := (\<lambda>_ _ _ w. (Inl OSError, w))\<rparr>) ''grpc://h:1'' default_GRPCProxyConfig
     (snd (channel_for demo_grpc_deps ''grpc://h:1'' default_GRPCProxyConfig demo_grpc)) =
   (Inr 0, snd (channel_for demo_grpc_deps ''grpc://h:1'' default_GRPCProxyConfig demo_grpc))"
proof -
  have "channel_for demo_grpc_deps ''grpc://h:1'' default_GRPCProxyConfig demo_grpc =
      (Inr 0, snd (channel_for demo_grpc_deps ''grpc://h:1'' default_GRPCProxyConfig demo_grpc))"
    by (simp add: channel_for_def demo_grpc_def Let_def and_then_def on_app_def on_outside_def demo_grpc_deps_def)
  from conjunct1 [OF channel_reused [OF this]] show ?thesis .
qed

definition is_abort :: "grpc_event \<Rightarrow> bool" where
  "is_abort e = (case e of Abort _ _ \<Rightarrow> True | _ \<Rightarrow> False)"

fun sent_messages :: "grpc_event list \<Rightarrow> string list" where
  "sent_messages [] = []"
| "sent_messages (SendMessage m # evs) = m # sent_messages evs"
| "sent_messages (_ # evs) = sent_messages evs"

lemma sent_messages_append [simp]: "sent_messages (xs @ ys) = sent_messages xs @ sent_messages ys"
  by (induction xs rule: sent_messages.induct) simp_all

lemma sent_messages_parts [simp]:
  "sent_messages (initial_events md) = []" "sent_messages (trailing_events md) = []"
  "sent_messages (map SendMessage ms) = ms"
  by (simp add: initial_events_def, simp add: trailing_events_def, induction ms, simp_all)

lemma no_abort_parts:
  "\<forall>e \<in> set (initial_events md). \<not> is_abort e" "\<forall>e \<in> set (trailing_events md). \<not> is_abort e"
  "\<forall>e \<in> set (map SendMessage ms). \<not> is_abort e"
  by (auto simp: initial_events_def trailing_events_def is_abort_def)

lemma abort_last: "\<forall>e \<in> set xs. \<not> is_abort e \<Longrightarrow> e \<in> set (butlast (xs @ [a])) \<Longrightarrow> \<not> is_abort e"
  "\<forall>e \<in> set xs. \<not> is_abort e \<Longrightarrow> e \<in> set (butlast xs) \<Longrightarrow> \<not> is_abort e"
  by (auto dest: in_set_butlastD)

text \<open>
  What the caller gets of an upstream answer: an abort is always the last event, and when the
  upstream's initial metadata arrives, a streamed answer carries exactly its messages, in order,
  before whatever ends it.
\<close>

theorem answer_events:
  "list_all (\<lambda>e. \<not> is_abort e) (butlast (answer kind call)) \<and>
   (case rpc_initial call of
      Inl (code, details) \<Rightarrow> answer kind call = [Abort code details]
    | Inr md \<Rightarrow> sent_messages (answer UnaryStream call) = rpc_messages call \<and>
        sent_messages (answer StreamStream call) = rpc_messages call)"
proof -
  have "\<forall>e \<in> set (butlast (stream_answer call)). \<not> is_abort e"
  proof (cases "rpc_initial call"; cases "rpc_end call")
    fix md err assume "rpc_initial call = Inr md" "rpc_end call = Inl err"
    then have "stream_answer call = (initial_events md @ map SendMessage (rpc_messages call)) @ [Abort (fst err) (snd err)]"
      by (simp add: stream_answer_def split_beta)
    moreover have "\<forall>e \<in> set (initial_events md @ map SendMessage (rpc_messages call)). \<not> is_abort e"
      using no_abort_parts(1) [of md] no_abort_parts(3) [of "rpc_messages call"] unfolding set_append by blast
    ultimately show ?thesis using abort_last(1) by metis
  next
    fix md md' assume "rpc_initial call = Inr md" "rpc_end call = Inr md'"
    then have "stream_answer call = initial_events md @ map SendMessage (rpc_messages call) @ trailing_events md'"
      by (simp add: stream_answer_def)
    moreover have "\<forall>e \<in> set (initial_events md @ map SendMessage (rpc_messages call) @ trailing_events md'). \<not> is_abort e"
      using no_abort_parts(1) [of md] no_abort_parts(2) [of md'] no_abort_parts(3) [of "rpc_messages call"]
      unfolding set_append by blast
    ultimately show ?thesis using abort_last(2) by metis
  qed (simp_all add: stream_answer_def split_beta)
  moreover have "\<forall>e \<in> set (butlast (unary_answer call)). \<not> is_abort e"
  proof (cases "rpc_initial call"; cases "rpc_end call")
    fix md err assume "rpc_initial call = Inr md" "rpc_end call = Inl err"
    then have "unary_answer call = initial_events md @ [Abort (fst err) (snd err)]"
      by (simp add: unary_answer_def split_beta)
    then show ?thesis using abort_last(1) no_abort_parts(1) [of md] by simp
  next
    fix md md' assume "rpc_initial call = Inr md" "rpc_end call = Inr md'"
    then have "unary_answer call = initial_events md @ trailing_events md' @ map SendMessage (take 1 (rpc_messages call))"
      by (simp add: unary_answer_def)
    moreover have "\<forall>e \<in> set (initial_events md @ trailing_events md' @ map SendMessage (take 1 (rpc_messages call))). \<not> is_abort e"
      using no_abort_parts(1) [of md] no_abort_parts(2) [of md'] no_abort_parts(3) [of "take 1 (rpc_messages call)"]
      unfolding set_append by blast
    ultimately show ?thesis using abort_last(2) by metis
  qed (simp_all add: unary_answer_def split_beta)
  moreover have "sent_messages (stream_answer call) = rpc_messages call" if "rpc_initial call = Inr md" for md
    using that by (simp add: stream_answer_def split: sum.split)
  ultimately show ?thesis
    by (cases kind; cases "rpc_initial call") (auto simp: list_all_iff stream_answer_def unary_answer_def)
qed

end
