(* ===== verification/WebSocket.thy ===== *)
theory WebSocket
  imports Gateway
begin

text \<open>
  The WebSocket side of the gateway: \<open>gateway/listeners/websocket_listener.py\<close> and the WebSocket
  catch-all of \<open>gateway/app.py\<close>. The two pumps of a session run interleaved: each is a machine that
  waits for a message or is about to send one, a schedule says whose turn it is, and a turn ends
  at the next \<open>await\<close>. Both connections are external operations.
\<close>

section \<open>Connections\<close>

datatype frame = TextFrame string | BytesFrame string

text \<open>The message of \<open>receive()\<close>; a missing key and a \<open>None\<close> under it are treated alike.\<close>

record client_message =
  cm_type :: string
  cm_text :: "string option"
  cm_bytes :: "string option"

datatype side = ClientSide | UpstreamSide

text \<open>
  \<open>ws_connect\<close> opens the upstream connection and gives the subprotocol it chose, \<open>ws_leave\<close>
  closes it; \<open>ws_recv_upstream\<close> gives \<open>None\<close> when the upstream closed normally.
  \<open>ws_connecting\<close> is the client state as Starlette keeps it. \<open>ws_schedule\<close> is the order in which the
  event loop resumes the two pumps up to the end of the session; a pump that still waits by then
  fails together with its connection. \<open>ws_utf8\<close> reads bytes as text and ignores what is malformed.
\<close>

record 'w ws_deps =
  ws_connect :: "string \<Rightarrow> (string, string) dict \<Rightarrow> string list option \<Rightarrow> rat \<Rightarrow> ('w, string option) act"
  ws_leave :: "('w, unit) act"
  ws_accept :: "string option \<Rightarrow> ('w, unit) act"
  ws_close :: "int \<Rightarrow> string \<Rightarrow> ('w, unit) act"
  ws_connecting :: "'w \<Rightarrow> bool"
  ws_receive :: "('w, client_message) act"
  ws_send_client :: "frame \<Rightarrow> ('w, unit) act"
  ws_recv_upstream :: "('w, frame option) act"
  ws_send_upstream :: "frame \<Rightarrow> ('w, unit) act"
  ws_schedule :: "'w \<Rightarrow> side list"
  ws_parse_query :: "string \<Rightarrow> (string \<times> string) list"
  ws_utf8 :: "string \<Rightarrow> string"

section \<open>The pumps\<close>

datatype pump = Receiving | Sending frame | Finished

datatype ws_event =
    FromClient client_message
  | ToUpstream frame
  | FromUpstream frame
  | ToClient frame

text \<open>
  What the loop does with a message: text first, then bytes; without either it stops at a disconnect
  and ignores anything else.
\<close>

definition after_message :: "client_message \<Rightarrow> pump" where
  "after_message m =
     (case cm_text m of
        Some t \<Rightarrow> Sending (TextFrame t)
      | None \<Rightarrow>
          (case cm_bytes m of
             Some b \<Rightarrow> Sending (BytesFrame b)
           | None \<Rightarrow> if cm_type m = ''websocket.disconnect'' then Finished else Receiving))"

text \<open>
  Every exception ends a pump: a closed connection is caught, any other is a result that
  \<open>gather(return_exceptions=True)\<close> drops.
\<close>

fun client_to_upstream :: "'w ws_deps \<Rightarrow> pump \<Rightarrow> 'w \<Rightarrow> ws_event list \<times> pump \<times> 'w" where
  "client_to_upstream d Receiving w =
     (case ws_receive d w of
        (Inl e, w') \<Rightarrow> ([], Finished, w')
      | (Inr m, w') \<Rightarrow> ([FromClient m], after_message m, w'))"
| "client_to_upstream d (Sending f) w =
     (case ws_send_upstream d f w of
        (Inl e, w') \<Rightarrow> ([], Finished, w')
      | (Inr _, w') \<Rightarrow> ([ToUpstream f], Receiving, w'))"
| "client_to_upstream d Finished w = ([], Finished, w)"

fun upstream_to_client :: "'w ws_deps \<Rightarrow> pump \<Rightarrow> 'w \<Rightarrow> ws_event list \<times> pump \<times> 'w" where
  "upstream_to_client d Receiving w =
     (case ws_recv_upstream d w of
        (Inl e, w') \<Rightarrow> ([], Finished, w')
      | (Inr None, w') \<Rightarrow> ([], Finished, w')
      | (Inr (Some f), w') \<Rightarrow> ([FromUpstream f], Sending f, w'))"
| "upstream_to_client d (Sending f) w =
     (case ws_send_client d f w of
        (Inl e, w') \<Rightarrow> ([], Finished, w')
      | (Inr _, w') \<Rightarrow> ([ToClient f], Receiving, w'))"
| "upstream_to_client d Finished w = ([], Finished, w)"

record 'w pumps =
  pu_client :: pump
  pu_upstream :: pump
  pu_world :: 'w

definition start_pumps :: "'w \<Rightarrow> 'w pumps" where
  "start_pumps w = \<lparr>pu_client = Receiving, pu_upstream = Receiving, pu_world = w\<rparr>"

fun pump_turn :: "'w ws_deps \<Rightarrow> side \<Rightarrow> 'w pumps \<Rightarrow> ws_event list \<times> 'w pumps" where
  "pump_turn d ClientSide s =
     (case client_to_upstream d (pu_client s) (pu_world s) of
        (evs, p, w) \<Rightarrow> (evs, s\<lparr>pu_client := p, pu_world := w\<rparr>))"
| "pump_turn d UpstreamSide s =
     (case upstream_to_client d (pu_upstream s) (pu_world s) of
        (evs, p, w) \<Rightarrow> (evs, s\<lparr>pu_upstream := p, pu_world := w\<rparr>))"

fun run_pumps :: "'w ws_deps \<Rightarrow> side list \<Rightarrow> 'w pumps \<Rightarrow> ws_event list \<times> 'w pumps" where
  "run_pumps d [] s = ([], s)"
| "run_pumps d (side # sched) s =
     (let (evs, t) = pump_turn d side s; (evs', u) = run_pumps d sched t in (evs @ evs', u))"

definition exchange :: "'w ws_deps \<Rightarrow> 'w \<Rightarrow> 'w" where
  "exchange d w = pu_world (snd (run_pumps d (ws_schedule d w) (start_pumps w)))"

section \<open>The proxy\<close>

text \<open>The handshake of a client: headers with lower-case names, the query string and the address.\<close>

record ws_client =
  wc_headers :: "(string \<times> string) list"
  wc_query_string :: string
  wc_peer :: "(string \<times> int) option"

definition upstream_headers :: "(string, string) dict \<Rightarrow> GatewayContext \<Rightarrow> (string, string) dict" where
  "upstream_headers extra_headers cx =
     (let h = dict_of extra_headers
      in if dict_get h ''X-Request-ID'' = None then dict_set ''X-Request-ID'' (request_id cx) h else h)"

definition client_subprotocols :: "ws_client \<Rightarrow> string list" where
  "client_subprotocols c =
     filter (\<lambda>p. p \<noteq> []) (map strip (split_on (CHR '','')
       (case map_of (wc_headers c) ''sec-websocket-protocol'' of None \<Rightarrow> [] | Some v \<Rightarrow> v)))"

text \<open>
  The block under \<open>try\<close>: whether the client was accepted. An exception of connecting, accepting or
  leaving is swallowed; after a failed accept the upstream connection is left all the same.
\<close>

definition ws_session :: "'w ws_deps \<Rightarrow> string \<Rightarrow> (string, string) dict \<Rightarrow> string list \<Rightarrow> rat \<Rightarrow> 'w \<Rightarrow> bool \<times> 'w" where
  "ws_session d url hdrs protocols timeout w =
     (case ws_connect d url hdrs (if protocols = [] then None else Some protocols) timeout w of
        (Inl e, w1) \<Rightarrow> (False, w1)
      | (Inr chosen, w1) \<Rightarrow>
          (case ws_accept d chosen w1 of
             (Inl e, w2) \<Rightarrow> (False, snd (ws_leave d w2))
           | (Inr _, w2) \<Rightarrow> (True, snd (ws_leave d (exchange d w2)))))"

definition ws_finally :: "'w ws_deps \<Rightarrow> 'w \<Rightarrow> 'w" where
  "ws_finally d w = snd (if ws_connecting d w then ws_close d 1011 [] w else ws_close d 1000 [] w)"

definition ws_proxy :: "'w ws_deps \<Rightarrow> ws_client \<Rightarrow> string \<Rightarrow> GatewayContext \<Rightarrow> (string, string) dict \<Rightarrow> rat \<Rightarrow> ('w, bool) act" where
  "ws_proxy d c url cx extra_headers connect_timeout w =
     (case ws_session d url (upstream_headers extra_headers cx) (client_subprotocols c) connect_timeout w of
        (accepted, w1) \<Rightarrow> (Inr accepted, ws_finally d w1))"

section \<open>The WebSocket catch-all\<close>

definition configured_headers :: "RouteConfig \<Rightarrow> ws_client \<Rightarrow> (string, string) dict" where
  "configured_headers route c =
     (let present = filter (\<lambda>h. map_of (wc_headers c) (lower h) \<noteq> None) (w_forward_headers (r_websocket route))
      in fold (\<lambda>(k, v). dict_set k v) (w_extra_headers (r_websocket route))
           (dict_of (map (\<lambda>h. (h, the (map_of (wc_headers c) (lower h)))) present)))"

definition forwarded_headers :: "RouteConfig \<Rightarrow> ws_client \<Rightarrow> GatewayContext \<Rightarrow> (string, string) dict" where
  "forwarded_headers route c cx =
     (let h = configured_headers route c
      in if w_inject_request_id (r_websocket route) \<and> dict_get h ''X-Request-ID'' = None
         then dict_set ''X-Request-ID'' (request_id cx) h else h)"

definition websocket_url :: "string \<Rightarrow> string" where
  "websocket_url url = str_replace ''https://'' ''wss://'' (str_replace ''http://'' ''ws://'' url)"

definition ws_handler :: "'w ws_deps \<Rightarrow> RouteConfig \<Rightarrow> ws_client \<Rightarrow> string \<Rightarrow> 'w handler" where
  "ws_handler d route c url _ =
     and_then (reads ctx) (\<lambda>cx.
     and_then (on_world (ws_proxy d c url cx (forwarded_headers route c cx) (w_connect_timeout (r_websocket route))))
       (\<lambda>accepted. ret (mk_response [] (if accepted then 200 else 502) [] None)))"

definition ws_request :: "'w ws_deps \<Rightarrow> ws_client \<Rightarrow> string \<Rightarrow> request" where
  "ws_request d c path =
     build_synthetic_request (ws_parse_query d) (''/'' @ path) ''GET'' (headers_dict (wc_headers c)) (wc_query_string c) (wc_peer c)"

definition reject :: "'w ws_deps \<Rightarrow> response \<Rightarrow> ('w app, unit) act" where
  "reject d resp =
     (let body = take 120 (ws_utf8 d (rs_body resp))
      in on_outside (ws_close d (http_status_to_websocket_close (rs_status resp))
           (if body \<noteq> [] then body else ''Connection rejected'')))"

definition websocket_gateway ::
  "'w env \<Rightarrow> 'w ws_deps \<Rightarrow> regex_engine \<Rightarrow> (string \<Rightarrow> int) \<Rightarrow> draws \<Rightarrow> ws_client \<Rightarrow> string \<Rightarrow> ('w app, unit) act" where
  "websocket_gateway env d re py_hash dr c path a =
     (let r = ws_request d c path in
      case match_request re (a_engine a) r of
        Inl e \<Rightarrow> (Inl e, a)
      | Inr None \<Rightarrow> on_outside (ws_close d 4004 ''No WebSocket route found'') a
      | Inr (Some route) \<Rightarrow>
          if upper (u_type (r_upstream route)) \<noteq> ''WEBSOCKET''
          then on_outside (ws_close d 4004 ''No WebSocket route found'') a
          else
            (let cx = routed_context r route (new_context (dr_uuid dr) (dr_now dr))
             in case resolve_upstream py_hash (dr_random dr) route cx (a_engine a) of
                  (Inl e, engine) \<Rightarrow> (Inl e, a\<lparr>a_engine := engine\<rparr>)
                | (Inr None, engine) \<Rightarrow> on_outside (ws_close d 4004 ''No upstream available'') (a\<lparr>a_engine := engine\<rparr>)
                | (Inr (Some up), engine) \<Rightarrow>
                    (let a' = a\<lparr>a_engine := engine\<rparr>;
                         ((res, s), cache) =
                           execute env plugin_registry (gc_global_plugins (l_gateway_cfg (a_loader a')))
                             (r_plugins route) (ws_handler d route c (websocket_url (ui_url up))) r
                             (a_plugin_cache a') (enter_request (cx\<lparr>upstream := Some up\<rparr>) a');
                         b = leave_request s cache a'
                     in case res of
                          Inl e \<Rightarrow> (Inl e, b)
                        | Inr resp \<Rightarrow> if rs_status resp \<ge> 400 then reject d resp b else (Inr (), b))))"

section \<open>What a pump keeps\<close>

text \<open>
  The contract of one direction: a turn while receiving takes in what is pending afterwards, a
  turn while sending either sends the pending frame and goes back to receiving or ends the pump. It
  gives the order of the frames once for both directions, whatever happens in between.
\<close>

fun pending :: "pump \<Rightarrow> frame list" where
  "pending (Sending f) = [f]"
| "pending _ = []"

text \<open>
  The frame a client message carries, as ASGI defines it: its text when it has one, else its bytes.
\<close>

definition carried :: "client_message \<Rightarrow> frame list" where
  "carried m = (case (cm_text m, cm_bytes m) of
     (Some t, _) \<Rightarrow> [TextFrame t] | (None, Some b) \<Rightarrow> [BytesFrame b] | (None, None) \<Rightarrow> [])"

fun frame_from_client :: "ws_event \<Rightarrow> frame list" where
  "frame_from_client (FromClient m) = carried m"
| "frame_from_client _ = []"

fun frame_to_upstream :: "ws_event \<Rightarrow> frame list" where
  "frame_to_upstream (ToUpstream f) = [f]"
| "frame_to_upstream _ = []"

fun frame_from_upstream :: "ws_event \<Rightarrow> frame list" where
  "frame_from_upstream (FromUpstream f) = [f]"
| "frame_from_upstream _ = []"

fun frame_to_client :: "ws_event \<Rightarrow> frame list" where
  "frame_to_client (ToClient f) = [f]"
| "frame_to_client _ = []"

definition frames :: "(ws_event \<Rightarrow> frame list) \<Rightarrow> ws_event list \<Rightarrow> frame list" where
  "frames g evs = concat (map g evs)"

lemma frames_simps [simp]: "frames g [] = []" "frames g (e # evs) = g e @ frames g evs" "frames g (evs @ evs') = frames g evs @ frames g evs'"
  by (simp_all add: frames_def)

text \<open>What has come in is what went out and what is pending; an ended pump may have lost one frame.\<close>

definition in_step :: "(ws_event \<Rightarrow> frame list) \<Rightarrow> (ws_event \<Rightarrow> frame list) \<Rightarrow> pump \<Rightarrow> ws_event list \<Rightarrow> bool" where
  "in_step taken sent p evs \<longleftrightarrow>
     (if p = Finished then \<exists>lost. length lost \<le> 1 \<and> frames taken evs = frames sent evs @ lost
      else frames taken evs = frames sent evs @ pending p)"

lemma in_stepD:
  "in_step taken sent p evs \<Longrightarrow>
   \<exists>rest. frames taken evs = frames sent evs @ rest \<and> length rest \<le> 1 \<and> (p = Receiving \<longrightarrow> rest = [])"
  by (cases p) (auto simp: in_step_def)

lemma in_step_start: "in_step taken sent Receiving []"
  by (simp add: in_step_def)

locale pump_direction =
  fixes turn :: "pump \<Rightarrow> 'w \<Rightarrow> ws_event list \<times> pump \<times> 'w"
    and taken :: "ws_event \<Rightarrow> frame list" and sent :: "ws_event \<Rightarrow> frame list"
  assumes receives: "turn Receiving w = (evs, p, w') \<Longrightarrow> frames sent evs = [] \<and> frames taken evs = pending p"
    and sends: "turn (Sending f) w = (evs, p, w') \<Longrightarrow> frames taken evs = [] \<and>
      (frames sent evs = [f] \<and> p = Receiving \<or> frames sent evs = [] \<and> p = Finished)"
    and stays: "turn Finished w = (evs, p, w') \<Longrightarrow> evs = [] \<and> p = Finished"
begin

lemma own_turn: "in_step taken sent p evs \<Longrightarrow> turn p w = (evs', p', w') \<Longrightarrow> in_step taken sent p' (evs @ evs')"
proof (cases p)
  case Receiving
  then show "in_step taken sent p evs \<Longrightarrow> turn p w = (evs', p', w') \<Longrightarrow> ?thesis"
    using receives [of w evs' p' w'] by (auto simp: in_step_def)
next
  case (Sending f)
  then show "in_step taken sent p evs \<Longrightarrow> turn p w = (evs', p', w') \<Longrightarrow> ?thesis"
    using sends [of f w evs' p' w'] by (auto simp: in_step_def)
next
  case Finished
  then show "in_step taken sent p evs \<Longrightarrow> turn p w = (evs', p', w') \<Longrightarrow> ?thesis"
    using stays [of w evs' p' w'] by auto
qed

end

lemma foreign_turn: "in_step taken sent p evs \<Longrightarrow> frames taken evs' = [] \<Longrightarrow> frames sent evs' = [] \<Longrightarrow> in_step taken sent p (evs @ evs')"
  by (simp add: in_step_def split: if_splits)

interpretation to_upstream: pump_direction "client_to_upstream d" frame_from_client frame_to_upstream for d
  by unfold_locales (auto simp: carried_def after_message_def split: sum.splits prod.splits option.splits)

interpretation to_client: pump_direction "upstream_to_client d" frame_from_upstream frame_to_client for d
  by unfold_locales (auto split: sum.splits prod.splits option.splits)

lemma client_turn_foreign:
  "client_to_upstream d p w = (evs, p', w') \<Longrightarrow> frames frame_from_upstream evs = [] \<and> frames frame_to_client evs = []"
  by (cases p) (auto split: sum.splits prod.splits)

lemma upstream_turn_foreign:
  "upstream_to_client d p w = (evs, p', w') \<Longrightarrow> frames frame_from_client evs = [] \<and> frames frame_to_upstream evs = []"
  by (cases p) (auto split: sum.splits prod.splits option.splits)

lemma run_pumps_in_step:
  assumes "run_pumps d sched s = (evs, t)"
    and "in_step frame_from_client frame_to_upstream (pu_client s) old"
    and "in_step frame_from_upstream frame_to_client (pu_upstream s) old"
  shows "in_step frame_from_client frame_to_upstream (pu_client t) (old @ evs) \<and>
    in_step frame_from_upstream frame_to_client (pu_upstream t) (old @ evs)"
  using assms
proof (induction sched arbitrary: s evs old)
  case Nil
  then show ?case by simp
next
  case (Cons side sched)
  obtain evs1 s1 where turn: "pump_turn d side s = (evs1, s1)" by fastforce
  obtain evs2 where rest: "run_pumps d sched s1 = (evs2, t)" "evs = evs1 @ evs2"
    using Cons.prems(1) turn by (auto split: prod.splits)
  have "in_step frame_from_client frame_to_upstream (pu_client s1) (old @ evs1) \<and>
    in_step frame_from_upstream frame_to_client (pu_upstream s1) (old @ evs1)"
  proof (cases side)
    case ClientSide
    obtain p w where c: "client_to_upstream d (pu_client s) (pu_world s) = (evs1, p, w)" "pu_client s1 = p"
      "pu_upstream s1 = pu_upstream s"
      using turn ClientSide by (auto split: prod.splits)
    then show ?thesis
      using to_upstream.own_turn [OF Cons.prems(2) c(1)] foreign_turn [OF Cons.prems(3)] client_turn_foreign [OF c(1)] by simp
  next
    case UpstreamSide
    obtain p w where c: "upstream_to_client d (pu_upstream s) (pu_world s) = (evs1, p, w)" "pu_upstream s1 = p"
      "pu_client s1 = pu_client s"
      using turn UpstreamSide by (auto split: prod.splits)
    then show ?thesis
      using to_client.own_turn [OF Cons.prems(3) c(1)] foreign_turn [OF Cons.prems(2)] upstream_turn_foreign [OF c(1)] by simp
  qed
  from Cons.IH [OF rest(1) this[THEN conjunct1] this[THEN conjunct2]] show ?case using rest(2) by simp
qed

text \<open>
  The two connections with a tape beside them: every message that was received and every frame whose
  sending succeeded is written down by the connection itself, whatever the pumps make of it.
\<close>

type_synonym 'w taped = "'w \<times> ws_event list"

definition noting :: "('a \<Rightarrow> ws_event list) \<Rightarrow> ('w, 'a) act \<Rightarrow> ('w taped, 'a) act" where
  "noting f m s = (case m (fst s) of (Inl e, w) \<Rightarrow> (Inl e, (w, snd s)) | (Inr a, w) \<Rightarrow> (Inr a, (w, snd s @ f a)))"

definition taping :: "'w ws_deps \<Rightarrow> 'w taped ws_deps" where
  "taping d =
     \<lparr>ws_connect = (\<lambda>u h p t. noting (\<lambda>_. []) (ws_connect d u h p t)), ws_leave = noting (\<lambda>_. []) (ws_leave d),
      ws_accept = (\<lambda>p. noting (\<lambda>_. []) (ws_accept d p)), ws_close = (\<lambda>c r. noting (\<lambda>_. []) (ws_close d c r)),
      ws_connecting = (\<lambda>s. ws_connecting d (fst s)),
      ws_receive = noting (\<lambda>m. [FromClient m]) (ws_receive d),
      ws_send_client = (\<lambda>f. noting (\<lambda>_. [ToClient f]) (ws_send_client d f)),
      ws_recv_upstream = noting (\<lambda>m. case m of None \<Rightarrow> [] | Some f \<Rightarrow> [FromUpstream f]) (ws_recv_upstream d),
      ws_send_upstream = (\<lambda>f. noting (\<lambda>_. [ToUpstream f]) (ws_send_upstream d f)),
      ws_schedule = (\<lambda>s. ws_schedule d (fst s)), ws_parse_query = ws_parse_query d, ws_utf8 = ws_utf8 d\<rparr>"

lemma pump_taping:
  "client_to_upstream d p w = (evs, p', w') \<Longrightarrow> client_to_upstream (taping d) p (w, l) = (evs, p', (w', l @ evs))"
  "upstream_to_client d p w = (evs, p', w') \<Longrightarrow> upstream_to_client (taping d) p (w, l) = (evs, p', (w', l @ evs))"
  by (cases p; auto simp: taping_def noting_def split: sum.splits prod.splits option.splits)+

definition with_tape :: "ws_event list \<Rightarrow> 'w pumps \<Rightarrow> 'w taped pumps" where
  "with_tape l s = \<lparr>pu_client = pu_client s, pu_upstream = pu_upstream s, pu_world = (pu_world s, l)\<rparr>"

lemma run_taping:
  "run_pumps d sched s = (evs, t) \<Longrightarrow> run_pumps (taping d) sched (with_tape l s) = (evs, with_tape (l @ evs) t)"
proof (induction sched arbitrary: s evs l)
  case Nil
  then show ?case by simp
next
  case (Cons side sched)
  obtain evs1 s1 where turn: "pump_turn d side s = (evs1, s1)" by fastforce
  obtain evs2 where rest: "run_pumps d sched s1 = (evs2, t)" "evs = evs1 @ evs2"
    using Cons.prems turn by (auto split: prod.splits)
  have "pump_turn (taping d) side (with_tape l s) = (evs1, with_tape (l @ evs1) s1)"
    using turn
    by (cases side)
       (auto simp: with_tape_def pump_taping(1) [where l = l] pump_taping(2) [where l = l] split: prod.splits)
  with Cons.IH [OF rest(1), of "l @ evs1"] rest(2) show ?case by simp
qed

section \<open>Properties\<close>

text \<open>
  C28. However the two pumps of a session are interleaved, no frame is lost, repeated or overtaken: run on
  connections that write down what passes over them, which changes nothing else, the text and bytes
  the client sent are at any moment exactly the frames passed to the upstream, in order, followed by at most one still on
  its way (none while the pump waits for a message; one that could not be sent ends the pump), and
  likewise from the upstream to the client.
\<close>

theorem pumps_keep_order:
  assumes "run_pumps d sched (start_pumps w) = (evs, s)"
  shows "\<exists>tape. run_pumps (taping d) sched (start_pumps (w, [])) =
      (evs, \<lparr>pu_client = pu_client s, pu_upstream = pu_upstream s, pu_world = (pu_world s, tape)\<rparr>) \<and>
    (\<exists>rest. frames frame_from_client tape = frames frame_to_upstream tape @ rest \<and> length rest \<le> 1 \<and>
       (pu_client s = Receiving \<longrightarrow> rest = [])) \<and>
    (\<exists>rest. frames frame_from_upstream tape = frames frame_to_client tape @ rest \<and> length rest \<le> 1 \<and>
       (pu_upstream s = Receiving \<longrightarrow> rest = []))"
proof (intro exI [of _ evs] conjI)
  show "run_pumps (taping d) sched (start_pumps (w, [])) =
      (evs, \<lparr>pu_client = pu_client s, pu_upstream = pu_upstream s, pu_world = (pu_world s, evs)\<rparr>)"
    using run_taping [OF assms, of "[]"] by (simp add: with_tape_def start_pumps_def)
  have steps: "in_step frame_from_client frame_to_upstream (pu_client s) evs"
    "in_step frame_from_upstream frame_to_client (pu_upstream s) evs"
    using run_pumps_in_step [OF assms, of "[]", unfolded append_Nil] in_step_start by (auto simp: start_pumps_def)
  show "\<exists>rest. frames frame_from_client evs = frames frame_to_upstream evs @ rest \<and> length rest \<le> 1 \<and>
       (pu_client s = Receiving \<longrightarrow> rest = [])" by (rule in_stepD [OF steps(1)])
  show "\<exists>rest. frames frame_from_upstream evs = frames frame_to_client evs @ rest \<and> length rest \<le> 1 \<and>
       (pu_upstream s = Receiving \<longrightarrow> rest = [])" by (rule in_stepD [OF steps(2)])
qed

text \<open>A demo connection: the client side in the keys \<open>ws\<close> (closed) and \<open>msg\<close>, the upstream one silent.\<close>

definition demo_ws :: "demo ws_deps" where
  "demo_ws = \<lparr>ws_connect = (\<lambda>u h p t w. (Inl (OtherError ''refused''), w)), ws_leave = (\<lambda>w. (Inr (), w)),
     ws_accept = (\<lambda>p w. (Inr (), w)),
     ws_close = (\<lambda>c r w. if d_keys w ''ws'' = None then (Inr (), w\<lparr>d_keys := (d_keys w)(''ws'' \<mapsto> ''closed'')\<rparr>)
        else (Inl (RuntimeError ''closed''), w)),
     ws_connecting = (\<lambda>w. True),
     ws_receive = (\<lambda>w. (Inr \<lparr>cm_type = ''websocket.receive'', cm_text = Some ''hi'', cm_bytes = None\<rparr>, w)),
     ws_send_client = (\<lambda>f w. (Inr (), w)), ws_recv_upstream = (\<lambda>w. (Inr (Some (BytesFrame ''b'')), w)),
     ws_send_upstream = (\<lambda>f w. (Inl ConnectError, w)), ws_schedule = (\<lambda>w. []), ws_parse_query = (\<lambda>_. []),
     ws_utf8 = (\<lambda>b. b)\<rparr>"

text \<open>A client that sends a text and then bytes, and an upstream that takes both.\<close>

definition chatty_ws :: "demo ws_deps" where
  "chatty_ws = demo_ws\<lparr>ws_send_upstream := (\<lambda>f w. (Inr (), w\<lparr>d_now := d_now w + 1\<rparr>)),
     ws_receive := (\<lambda>w. (Inr (if d_now w = 0 then \<lparr>cm_type = ''websocket.receive'', cm_text = Some ''hi'', cm_bytes = None\<rparr>
        else \<lparr>cm_type = ''websocket.receive'', cm_text = None, cm_bytes = Some ''b''\<rparr>), w))\<rparr>"

theorem pumps_keep_order_witness:
  "\<exists>tape. pu_world (snd (run_pumps (taping chatty_ws) [ClientSide, UpstreamSide, ClientSide, UpstreamSide, ClientSide, ClientSide]
       (start_pumps (demo_world, [])))) = (demo_world\<lparr>d_now := 2\<rparr>, tape) \<and>
     frames frame_from_client tape = [TextFrame ''hi'', BytesFrame ''b''] \<and>
     frames frame_to_upstream tape = [TextFrame ''hi'', BytesFrame ''b''] \<and> frames frame_to_client tape = [BytesFrame ''b'']"
proof -
  let ?sched = "[ClientSide, UpstreamSide, ClientSide, UpstreamSide, ClientSide, ClientSide]"
  obtain evs s where run: "run_pumps chatty_ws ?sched (start_pumps demo_world) = (evs, s)" by fastforce
  then have s: "pu_client s = Receiving" "pu_world s = demo_world\<lparr>d_now := 2\<rparr>"
    and evs: "frames frame_from_client evs = [TextFrame ''hi'', BytesFrame ''b'']" "frames frame_to_client evs = [BytesFrame ''b'']"
    by (auto simp: chatty_ws_def demo_ws_def start_pumps_def after_message_def carried_def demo_world_def)
  from pumps_keep_order [OF run] obtain tape where
    tape: "run_pumps (taping chatty_ws) ?sched (start_pumps (demo_world, [])) =
      (evs, \<lparr>pu_client = pu_client s, pu_upstream = pu_upstream s, pu_world = (pu_world s, tape)\<rparr>)"
    and keep: "frames frame_from_client tape = frames frame_to_upstream tape" using s(1) by auto
  have "tape = evs"
    using run_taping [OF run, of "[]"] tape by (simp add: with_tape_def start_pumps_def)
  with tape keep s evs show ?thesis by (intro exI [of _ evs]) simp
qed

lemma reject_closes: "\<exists>code reason. 1011 \<le> code \<and> reject d resp = on_outside (ws_close d code reason)"
proof -
  have "1011 \<le> http_status_to_websocket_close (rs_status resp)"
    by (simp add: http_status_to_websocket_close_def HTTP_TO_WS_CLOSE_def dict_get_default_def)
  then show ?thesis unfolding reject_def Let_def by blast
qed

text \<open>
  C24. A WebSocket handshake for a route with an API key or client certificate plugin never opens an
  upstream connection and is never accepted without a valid credential: the handler does the same
  whatever connecting, accepting and the two connections would do, and it ends in an exception or
  in closing the handshake with an error code.
\<close>

theorem websocket_unauthenticated_never_connects:
  assumes "match_request re (a_engine a) (ws_request d c path) = Inr (Some route)"
    and "cache_ok env used (a_plugin_cache a)" and "collision_free env used"
    and "set (gc_global_plugins (l_gateway_cfg (a_loader a))) \<subseteq> used" and "set (r_plugins route) \<subseteq> used"
    and "cfg \<in> set (gc_global_plugins (l_gateway_cfg (a_loader a)) @ r_plugins route)" and "pc_enabled cfg"
    and "instantiate plugin_registry cfg = Some p" and "\<not> lets_in p (ws_request d c path)"
  shows "websocket_gateway env (d\<lparr>ws_connect := con, ws_accept := acc, ws_receive := rcv, ws_recv_upstream := rcu,
        ws_send_client := snc, ws_send_upstream := snu\<rparr>) re py_hash dr c path a = websocket_gateway env d re py_hash dr c path a \<and>
    ((\<exists>e b. websocket_gateway env d re py_hash dr c path a = (Inl e, b)) \<or>
     (\<exists>code reason b. 1011 \<le> code \<and> websocket_gateway env d re py_hash dr c path a = on_outside (ws_close d code reason) b))"
proof -
  let ?r = "ws_request d c path" and ?gs = "gc_global_plugins (l_gateway_cfg (a_loader a))"
  let ?d = "d\<lparr>ws_connect := con, ws_accept := acc, ws_receive := rcv, ws_recv_upstream := rcu,
        ws_send_client := snc, ws_send_upstream := snu\<rparr>"
  have same: "execute env plugin_registry ?gs (r_plugins route) e ?r (a_plugin_cache a) s =
     execute env plugin_registry ?gs (r_plugins route) e' ?r (a_plugin_cache a) s" for e e' s
    using closed_plugin_execute [where e = e and e' = e' and s = s, OF assms(2-9)]
    by (simp add: execute_def split_beta prod_eq_iff)
  have ref: "refused (fst (fst (execute env plugin_registry ?gs (r_plugins route) e ?r (a_plugin_cache a) s)))" for e s
    using closed_plugin_execute [where e = e and e' = e and s = s, OF assms(2-9)] by simp
  have req: "ws_request ?d c path = ?r" by (simp add: ws_request_def)
  have rej: "reject ?d = reject d" by (intro ext) (simp add: reject_def)
  have "websocket_gateway env ?d re py_hash dr c path a = websocket_gateway env d re py_hash dr c path a"
    using assms(1)
    by (simp add: websocket_gateway_def req rej Let_def
        same [of "ws_handler ?d route c u" _ "ws_handler d route c u" for u] cong: full_congs)
  moreover have "(\<exists>e b. websocket_gateway env d re py_hash dr c path a = (Inl e, b)) \<or>
     (\<exists>code reason b. 1011 \<le> code \<and> websocket_gateway env d re py_hash dr c path a = on_outside (ws_close d code reason) b)"
  proof (cases "upper (u_type (r_upstream route)) = ''WEBSOCKET''")
    case False
    then show ?thesis using assms(1) by (intro disjI2 exI [of _ 4004]) (auto simp: websocket_gateway_def)
  next
    case True
    let ?cx = "routed_context ?r route (new_context (dr_uuid dr) (dr_now dr))"
    obtain up engine where u: "resolve_upstream py_hash (dr_random dr) route ?cx (a_engine a) = (up, engine)" by fastforce
    consider e where "up = Inl e" | "up = Inr None" | target where "up = Inr (Some target)"
      by (cases up) auto
    then show ?thesis
    proof cases
      case 1
      then show ?thesis using assms(1) True u by (simp add: websocket_gateway_def Let_def)
    next
      case 2
      then show ?thesis using assms(1) True u
        by (intro disjI2 exI [of _ 4004]) (auto simp: websocket_gateway_def Let_def)
    next
      case 3
      let ?a = "a\<lparr>a_engine := engine\<rparr>"
      obtain res s cache where x: "execute env plugin_registry ?gs (r_plugins route)
          (ws_handler d route c (websocket_url (ui_url target))) ?r (a_plugin_cache a)
          (enter_request (?cx\<lparr>upstream := Some target\<rparr>) ?a) = ((res, s), cache)"
        by (metis prod.exhaust)
      have "refused res" using ref x by (metis fst_conv)
      with assms(1) True u x 3 have "websocket_gateway env d re py_hash dr c path a =
          (case res of Inl e \<Rightarrow> (Inl e, leave_request s cache ?a) | Inr resp \<Rightarrow> reject d resp (leave_request s cache ?a))"
        by (cases res) (simp_all add: websocket_gateway_def Let_def)
      then show ?thesis using reject_closes [of d] by (cases res) (simp, metis sum.case(2))
    qed
  qed
  ultimately show ?thesis by blast
qed

definition ws_route :: RouteConfig where
  "ws_route = guarded_route\<lparr>r_upstream := (r_upstream guarded_route)\<lparr>u_type := ''WEBSOCKET''\<rparr>\<rparr>"

definition demo_handshake :: ws_client where
  "demo_handshake = \<lparr>wc_headers = [], wc_query_string = [], wc_peer = None\<rparr>"

definition demo_ws_app :: "RouteConfig \<Rightarrow> demo app" where
  "demo_ws_app route = demo_app\<lparr>a_engine := update_routes [route] new_RoutingEngine\<rparr>"

lemma demo_ws_match:
  "r_match route = default_MatchConfig\<lparr>m_path := ''/users''\<rparr> \<Longrightarrow>
   match_request demo_re (a_engine (demo_ws_app route)) (ws_request demo_ws demo_handshake ''users'') = Inr (Some route)"
  by (simp add: match_request_def demo_ws_app_def update_routes_def new_RoutingEngine_def
      ws_request_def build_synthetic_request_def demo_handshake_def demo_ws_def
      protocol_from_request_def header_or_def header_get_def startswith_def lower_def
      default_MatchConfig_def upper_def upper_char_def host_mismatch_def match_path_def)

theorem websocket_unauthenticated_never_connects_witness:
  "(\<exists>e b. websocket_gateway digest_env demo_ws demo_re demo_hash demo_draws demo_handshake ''users'' (demo_ws_app ws_route) = (Inl e, b)) \<or>
   (\<exists>code reason b. 1011 \<le> code \<and> websocket_gateway digest_env demo_ws demo_re demo_hash demo_draws demo_handshake ''users''
      (demo_ws_app ws_route) = on_outside (ws_close demo_ws code reason) b)"
proof -
  have k: "instantiate plugin_registry demo_key_config = Some (APIKeyPlugin
     \<lparr>ak_keys = [JStr ''k1''], ak_header_name = JStr ''x-api-key'', ak_query_param = JNull\<rparr>)"
    by (rule demo_instances)
  have e: "pc_enabled demo_key_config" by (simp add: demo_key_config_def)
  have n: "\<not> lets_in (APIKeyPlugin \<lparr>ak_keys = [JStr ''k1''], ak_header_name = JStr ''x-api-key'', ak_query_param = JNull\<rparr>)
      (ws_request demo_ws demo_handshake ''users'')"
    by (simp add: ws_request_def build_synthetic_request_def demo_handshake_def valid_api_key_def extract_key_def header_get_def)
  have m: "match_request demo_re (a_engine (demo_ws_app ws_route)) (ws_request demo_ws demo_handshake ''users'') = Inr (Some ws_route)"
    by (rule demo_ws_match) (simp add: ws_route_def guarded_route_def)
  show ?thesis
    by (rule conjunct2 [OF websocket_unauthenticated_never_connects [OF m _ demo_collision_free _ _ _ e k n]])
       (simp_all add: demo_ws_app_def demo_app_def new_ConfigLoader_def default_GatewayConfig_def ws_route_def guarded_route_def)
qed

text \<open>Starlette refuses to send anything after a close.\<close>

definition closes_once :: "'w ws_deps \<Rightarrow> bool" where
  "closes_once d \<longleftrightarrow> (\<forall>code reason code' reason' w.
     \<exists>e. ws_close d code' reason' (snd (ws_close d code reason w)) = (Inl e, snd (ws_close d code reason w)))"

text \<open>
  When the upstream cannot be reached the handshake is closed twice: a plugin-free WebSocket route whose
  connection attempt fails never accepts the client, the proxy closes the handshake with 1011, and the
  handler's own close with the mapped status 4502 then raises, so that the handler ends in an exception
  and the code 4502 is never seen by a client.
\<close>

theorem upstream_failure_closes_twice:
  assumes "match_request re (a_engine a) (ws_request d c path) = Inr (Some route)"
    and "upper (u_type (r_upstream route)) = ''WEBSOCKET''" and "round_robin route"
    and "filter pc_enabled (gc_global_plugins (l_gateway_cfg (a_loader a)) @ r_plugins route) = []"
    and "closes_once d" and "\<forall>w. ws_connecting d w"
    and "\<forall>url hdrs protocols timeout w. \<exists>e. ws_connect d url hdrs protocols timeout w = (Inl e, w)"
  shows "\<exists>e b. websocket_gateway env (d\<lparr>ws_accept := acc\<rparr>) re py_hash dr c path a = (Inl e, b) \<and>
    outside (a_loader b) = snd (ws_close d 1011 [] (outside (a_loader a)))"
proof -
  let ?d = "d\<lparr>ws_accept := acc\<rparr>" and ?r = "ws_request d c path"
  let ?cx = "routed_context ?r route (new_context (dr_uuid dr) (dr_now dr))"
  obtain up engine where u: "resolve_upstream py_hash (dr_random dr) route ?cx (a_engine a) = (up, engine)" by fastforce
  then have "up = rr_pick route (rr_counter route (a_engine a))"
    using resolve_round_robin [OF assms(3), of py_hash "dr_random dr" ?cx "a_engine a"] by simp
  then obtain target where t: "up = Inr (Some target)" by (simp add: rr_pick_def Let_def)
  have proxied: "ws_proxy ?d c url cx extra timeout w = (Inr False, snd (ws_close d 1011 [] w))" for url cx extra timeout w
    using assms(6,7) [rule_format] by (auto simp: ws_proxy_def ws_session_def ws_finally_def split: sum.splits prod.splits)
      (metis Pair_inject sum.distinct(1) sum.inject(1))+
  let ?a = "a\<lparr>a_engine := engine\<rparr>" and ?w = "snd (ws_close d 1011 [] (outside (a_loader a)))"
  let ?s = "enter_request (?cx\<lparr>upstream := Some target\<rparr>) ?a"
  have h: "ws_handler ?d route c url ?r ?s = (Inr (mk_response [] 502 [] None), ?s\<lparr>world := ?w\<rparr>)" for url
    by (simp add: ws_handler_def and_then_def on_world_def proxied enter_request_def)
  have "ws_request ?d c path = ?r" by (simp add: ws_request_def)
  then have "websocket_gateway env ?d re py_hash dr c path a =
      reject ?d (mk_response [] 502 [] None) (leave_request (?s\<lparr>world := ?w\<rparr>) (a_plugin_cache a) ?a)"
    using assms(1,2) u t h execute_disabled [OF assms(4), of env plugin_registry]
    by (simp add: websocket_gateway_def Let_def)
  moreover obtain code reason where "reject ?d (mk_response [] 502 [] None) = on_outside (ws_close d code reason)"
    using reject_closes [of ?d "mk_response [] 502 [] None"] by auto
  moreover obtain e where "ws_close d code reason ?w = (Inl e, ?w)"
    using assms(5) unfolding closes_once_def by blast
  ultimately show ?thesis by (simp add: on_outside_def leave_request_def)
qed

lemma demo_closes_once: "closes_once demo_ws"
  by (simp add: closes_once_def demo_ws_def)

definition open_ws_route :: RouteConfig where
  "open_ws_route = (two_targets ''round_robin'')\<lparr>r_match := default_MatchConfig\<lparr>m_path := ''/users''\<rparr>,
     r_upstream := (r_upstream (two_targets ''round_robin''))\<lparr>u_type := ''WEBSOCKET''\<rparr>\<rparr>"

lemma upstream_failure_closes_twice_witness:
  "\<exists>e b. websocket_gateway demo_env (demo_ws\<lparr>ws_accept := (\<lambda>p w. (Inr (), w))\<rparr>) demo_re demo_hash demo_draws
      demo_handshake ''users'' (demo_ws_app open_ws_route) = (Inl e, b) \<and>
    outside (a_loader b) = snd (ws_close demo_ws 1011 [] (outside (a_loader (demo_ws_app open_ws_route))))"
proof (rule upstream_failure_closes_twice)
  show "match_request demo_re (a_engine (demo_ws_app open_ws_route)) (ws_request demo_ws demo_handshake ''users'') = Inr (Some open_ws_route)"
    by (rule demo_ws_match) (simp add: open_ws_route_def)
  show "round_robin open_ws_route"
    by (simp add: open_ws_route_def round_robin_def two_targets_def default_RouteConfig_def default_UpstreamConfig_def)
  show "closes_once demo_ws" by (rule demo_closes_once)
qed (simp_all add: demo_ws_def demo_ws_app_def demo_app_def new_ConfigLoader_def default_GatewayConfig_def open_ws_route_def
    two_targets_def default_RouteConfig_def upper_def upper_char_def)

lemma fold_dict_ok: "dict_ok d \<Longrightarrow> dict_ok (fold (\<lambda>(k, v). dict_set k v) items d)"
  by (induction items arbitrary: d) (auto simp: split_beta)

lemma fold_dict_fresh: "dict_ok (d @ items) \<Longrightarrow> fold (\<lambda>(k, v). dict_set k v) items d = d @ items"
proof (induction items arbitrary: d)
  case (Cons kv items)
  obtain k v where [simp]: "kv = (k, v)" by fastforce
  have "k \<notin> fst ` set d" and "dict_ok ((d @ [(k, v)]) @ items)"
    using Cons.prems by (auto simp: dict_ok_def)
  then show ?case using Cons.IH [of "d @ [(k, v)]"] dict_set_new [of k d v] by simp
qed simp

lemma dict_of_ok: "dict_ok d \<Longrightarrow> dict_of d = d"
  using fold_dict_fresh [of "[]" d] by (simp add: dict_of_def)

text \<open>
  The option \<open>inject_request_id\<close> of a WebSocket route has no effect: the upstream is given a
  request identifier either way, because the proxy adds the one the handler left out.
\<close>

theorem inject_request_id_ignored:
  "upstream_headers (forwarded_headers (route\<lparr>r_websocket := (r_websocket route)\<lparr>w_inject_request_id := b\<rparr>\<rparr>) c cx) cx =
     upstream_headers (forwarded_headers route c cx) cx \<and>
   dict_get (upstream_headers (forwarded_headers route c cx) cx) ''X-Request-ID'' \<noteq> None"
proof -
  let ?h = "configured_headers route c"
  have ok: "dict_ok ?h" unfolding configured_headers_def Let_def dict_of_def by (intro fold_dict_ok dict_ok_Nil)
  have same: "configured_headers (route\<lparr>r_websocket := (r_websocket route)\<lparr>w_inject_request_id := b\<rparr>\<rparr>) c = ?h" for b
    by (simp add: configured_headers_def)
  define x where "x = (if dict_get ?h ''X-Request-ID'' = None then dict_set ''X-Request-ID'' (request_id cx) ?h else ?h)"
  have "upstream_headers (forwarded_headers (route\<lparr>r_websocket := (r_websocket route)\<lparr>w_inject_request_id := b\<rparr>\<rparr>) c cx) cx = x" for b
    using ok by (auto simp add: upstream_headers_def forwarded_headers_def same Let_def x_def dict_of_ok update_conv)
  from this [of b] this [of "w_inject_request_id (r_websocket route)"] show ?thesis
    by (simp add: x_def update_conv)
qed

end
