(* ===== verification/BreakerLive.thy ===== *)
theory BreakerLive
  imports Breaker
begin

text \<open>
  Runs of the circuit breaker over many requests of one route, each with a context of its own: a failing
  upstream trips it, and after the open key has expired it lets requests through again.
\<close>

section \<open>Runs\<close>

type_synonym job = "GatewayContext \<times> request"

fun serve_all :: "'w env \<Rightarrow> breaker_conf \<Rightarrow> 'w handler \<Rightarrow> job list \<Rightarrow> 'w gw \<Rightarrow> response outcome list \<times> 'w gw" where
  "serve_all env c next [] s = ([], s)"
| "serve_all env c next ((cx, r) # jobs) s =
     (let (out, t) = circuit_breaker env c next r (s\<lparr>ctx := cx\<rparr>);
          (outs, u) = serve_all env c next jobs t
      in (out # outs, u))"

definition circuit_open_503 :: "response outcome \<Rightarrow> bool" where
  "circuit_open_503 out = (\<exists>resp. out = Inr resp \<and> rs_status resp = 503)"

text \<open>The circuit of a route as it is stored, on a server that is ready.\<close>

definition circuit_is :: "'w env \<Rightarrow> ('w \<Rightarrow> string \<Rightarrow> string option) \<Rightarrow> nat \<Rightarrow> string \<Rightarrow> 'w \<Rightarrow> circuit \<Rightarrow> bool" where
  "circuit_is env keys thr rid w st \<longleftrightarrow>
     redis_ready env w \<and> count_ok (keys w) rid \<and> circuit_of thr (keys w) rid = st"

lemma open_step:
  assumes "string_server env keys" and "breaker_conf_ok c thr" and "circuit_is env keys thr rid (world s) Open"
    and "route_id cx = rid"
  shows "\<exists>out t. (\<forall>next. circuit_breaker env c next r (s\<lparr>ctx := cx\<rparr>) = (out, t)) \<and> circuit_open_503 out \<and> world t = world s"
proof -
  have "circuit_verdict (circuit_of thr (keys (world (s\<lparr>ctx := cx\<rparr>))) (route_id (ctx (s\<lparr>ctx := cx\<rparr>)))) = Reject"
    using assms(3,4) by (simp add: circuit_is_def)
  with breaker_rejects [OF assms(1) _ assms(2), of "s\<lparr>ctx := cx\<rparr>" r] assms(3,4) show ?thesis
    by (fastforce simp: circuit_is_def circuit_open_503_def)
qed

lemma closed_step:
  assumes "string_server env keys" and "breaker_conf_ok c thr" and "circuit_is env keys thr rid (world s) st"
    and "circuit_verdict st = Forward" and "route_id cx = rid" and "next_keeps env keys rid (next r)"
    and "\<forall>u. call_ok (fst (next r u)) = ok"
  shows "\<exists>out t. circuit_breaker env c next r (s\<lparr>ctx := cx\<rparr>) = (out, t) \<and> call_ok out = ok \<and>
    circuit_is env keys thr rid (world t) (circuit_step thr st ok)"
proof -
  let ?s = "s\<lparr>ctx := cx\<rparr>"
  have "redis_ready env (world ?s)" "count_ok (keys (world ?s)) (route_id (ctx ?s))"
    "circuit_verdict (circuit_of thr (keys (world ?s)) (route_id (ctx ?s))) = Forward"
    "next_keeps env keys (route_id (ctx ?s)) (next r)"
    using assms(3-6) by (simp_all add: circuit_is_def)
  from breaker_forwards [of env keys ?s c thr "next" r, OF assms(1) this(1) assms(2) this(2-4)]
  obtain u out t w where "next r u = (out, t)" "circuit_breaker env c next r ?s = (out, t\<lparr>world := w\<rparr>)"
    "redis_ready env w" "count_ok (keys w) rid" "circuit_of thr (keys w) rid = circuit_step thr st (call_ok out)"
    using assms(3,5) by (auto simp: circuit_is_def)
  moreover from this(1) have "call_ok out = ok" using assms(7) by (metis fst_conv)
  ultimately show ?thesis by (auto simp: circuit_is_def)
qed

lemma open_run:
  assumes "string_server env keys" and "breaker_conf_ok c thr" and "circuit_is env keys thr rid (world s) Open"
    and "\<forall>(cx, r) \<in> set jobs. route_id cx = rid" and "serve_all env c next jobs s = (outs, t)"
  shows "list_all circuit_open_503 outs \<and> world t = world s"
  using assms(3-5)
proof (induction jobs arbitrary: s outs)
  case (Cons job jobs)
  obtain cx r where job: "job = (cx, r)" by fastforce
  with Cons.prems(2) have "route_id cx = rid" by simp
  from open_step [OF assms(1,2) Cons.prems(1) this, of r] obtain out t1 where
    step: "circuit_breaker env c next r (s\<lparr>ctx := cx\<rparr>) = (out, t1)" "circuit_open_503 out" "world t1 = world s" by blast
  obtain outs' where rest: "serve_all env c next jobs t1 = (outs', t)" "outs = out # outs'"
    using Cons.prems(3) step(1) job by (auto split: prod.splits)
  show ?case using Cons.IH [OF _ _ rest(1)] Cons.prems(1,2) step rest(2) by simp
qed simp

lemma failing_run:
  assumes "string_server env keys" and "breaker_conf_ok c thr" and "circuit_is env keys thr rid (world s) (Closed n)"
    and "\<forall>(cx, r) \<in> set jobs. route_id cx = rid" and "serve_all env c down jobs s = (outs, t)" and "n < thr"
    and "\<forall>r. next_keeps env keys rid (down r)" and "\<forall>r u. \<not> call_ok (fst (down r u))"
  shows "circuit_is env keys thr rid (world t) (if n + length jobs < thr then Closed (n + length jobs) else Open) \<and>
    list_all circuit_open_503 (drop (thr - n) outs)"
  using assms(3-6)
proof (induction jobs arbitrary: s outs n)
  case (Cons job jobs)
  obtain cx r where job: "job = (cx, r)" by fastforce
  with Cons.prems(2) have "route_id cx = rid" by simp
  from closed_step [OF assms(1,2) Cons.prems(1) _ this, of down r False] assms(7,8) obtain out t1 where
    step: "circuit_breaker env c down r (s\<lparr>ctx := cx\<rparr>) = (out, t1)"
      "circuit_is env keys thr rid (world t1) (if thr \<le> Suc n then Open else Closed (Suc n))" by auto
  obtain outs' where rest: "serve_all env c down jobs t1 = (outs', t)" "outs = out # outs'"
    using Cons.prems(3) step(1) job by (auto split: prod.splits)
  have jobs: "\<forall>(cx, r) \<in> set jobs. route_id cx = rid" using Cons.prems(2) by simp
  show ?case
  proof (cases "thr \<le> Suc n")
    case True
    then show ?thesis using open_run [OF assms(1,2) _ jobs rest(1)] step(2) rest(2) Cons.prems(4)
      by (auto simp: drop_Cons' )
  next
    case False
    then show ?thesis using Cons.IH [OF _ jobs rest(1), of "Suc n"] step(2) rest(2)
      by (auto simp: drop_Cons' Suc_diff_Suc)
  qed
qed simp

section \<open>Properties\<close>

text \<open>
  C18. An upstream that keeps failing trips the circuit, and it does not stay tripped: from a closed
  circuit with \<open>n\<close> failures, exactly \<open>thr - n\<close> more failing requests of the route open it, every
  request after those is answered 503 without being passed on; and once Redis has expired the open
  key (and no probe holds the lock), requests are passed on again and one success closes the circuit.
\<close>

theorem breaker_trips_and_recovers:
  assumes "string_server env keys" and "breaker_conf_ok c thr" and "circuit_is env keys thr rid (world s) (Closed n)"
    and "n < thr" and "\<forall>(cx, r) \<in> set jobs. route_id cx = rid" and "serve_all env c down jobs s = (outs, t)"
    and "\<forall>r. next_keeps env keys rid (down r)" and "\<forall>r u. \<not> call_ok (fst (down r u))"
    and "\<forall>r. next_keeps env keys rid (up r)" and "\<forall>r u. call_ok (fst (up r u))"
    and "redis_ready env w" and "keys w = (keys (world t))(open_key rid := None, half_open_key rid := None)"
    and "route_id cx = rid"
  shows "circuit_is env keys thr rid (world t) (if n + length jobs < thr then Closed (n + length jobs) else Open) \<and>
    list_all circuit_open_503 (drop (thr - n) outs) \<and>
    (\<exists>out u m. serve_all env c up [(cx, r)] (t\<lparr>world := w\<rparr>) = ([out], u) \<and> call_ok out \<and>
       m < thr \<and> circuit_is env keys thr rid (world u) (Closed m))"
proof -
  note run = failing_run [OF assms(1,2,3,5,6,4,7,8)]
  have "count_ok (keys w) rid" using run assms(12) by (simp add: circuit_is_def count_ok_def)
  then obtain st where st: "circuit_is env keys thr rid w st" "circuit_verdict st = Forward"
    "\<exists>m < thr. circuit_step thr st True = Closed m"
  proof (cases rule: circuit_of_cases [where thr = thr])
    case open_key
    with assms(12) show ?thesis by simp
  next
    case (closed m)
    with that [of "Closed m"] assms(11) \<open>count_ok (keys w) rid\<close> show ?thesis by (simp add: circuit_is_def)
  next
    case (ready m)
    with that [of Ready] assms(2,11) \<open>count_ok (keys w) rid\<close> show ?thesis by (simp add: circuit_is_def breaker_conf_ok_def)
  next
    case (probing m)
    with assms(12) show ?thesis by simp
  qed
  have "circuit_is env keys thr rid (world (t\<lparr>world := w\<rparr>)) st" using st(1) by simp
  from closed_step [OF assms(1,2) this st(2) assms(13), of up r True] assms(9,10) obtain out u where
    "circuit_breaker env c up r (t\<lparr>world := w, ctx := cx\<rparr>) = (out, u)" "call_ok out"
    "circuit_is env keys thr rid (world u) (circuit_step thr st True)" by auto
  with st(3) run show ?thesis by auto
qed

definition answering :: "'w handler" where
  "answering r = ret (mk_response [] 200 [] None)"

theorem breaker_trips_and_recovers_witness:
  "circuit_is demo_env d_keys 1 ''users'' (world (snd (serve_all demo_env demo_breaker failing
     [(ctx demo_gw, demo_request), (ctx demo_gw, demo_request)] demo_gw))) Open"
proof -
  let ?jobs = "[(ctx demo_gw, demo_request), (ctx demo_gw, demo_request)]"
  let ?t = "snd (serve_all demo_env demo_breaker failing ?jobs demo_gw)"
  let ?w = "(world ?t)\<lparr>d_keys := (d_keys (world ?t))(open_key ''users'' := None, half_open_key ''users'' := None)\<rparr>"
  have closed: "circuit_is demo_env d_keys 1 ''users'' (world demo_gw) (Closed 0)"
    by (simp add: demo_gw_def demo_world_def circuit_is_def circuit_of_def count_ok_def demo_env_def)
  have rid: "route_id (ctx demo_gw) = ''users''" by (simp add: demo_gw_def)
  have "circuit_is demo_env d_keys 1 ''users'' (world ?t) (if 0 + length ?jobs < 1 then Closed (0 + length ?jobs) else Open)"
    by (rule conjunct1 [OF breaker_trips_and_recovers [where up = answering and w = ?w and cx = "ctx demo_gw",
          OF demo_string_server demo_breaker_ok closed _ _ prod.collapse [symmetric]]])
       (simp_all add: rid failing_keeps call_ok_def answering_def next_keeps_def demo_env_def)
  then show ?thesis by simp
qed

end
