(* ===== verification/BreakerConc.thy ===== *)
theory BreakerConc
  imports Breaker Steps
begin

text \<open>
  The circuit breaker under concurrency. A request in the breaker is at one of its \<open>await\<close>s; between
  two of them other requests of the route run. Every Redis command is one atomic step, the rest of the
  chain is one step whose end may come at any time. The steps describe commands that succeed.
\<close>

section \<open>The program points\<close>

text \<open>Where a request is: about to send the named command, in the call, or answered.\<close>

datatype point =
    AtExists
  | AtTtl
  | AtFails
  | AtLock
  | AtCall bool
  | AtIncr "response outcome"
  | AtExpire int "response outcome"
  | AtCheck int "response outcome"
  | AtOpen bool "response outcome"
  | AtReset "response outcome"
  | AtUnlock "response outcome"
  | Answered "response outcome"

definition command :: "('s, 'a) act \<Rightarrow> ('a \<Rightarrow> point) \<Rightarrow> 's \<Rightarrow> (point \<times> 's) option" where
  "command m f s = (case m s of (Inl e, t) \<Rightarrow> None | (Inr a, t) \<Rightarrow> Some (f a, t))"

definition look_open :: "'w env \<Rightarrow> string \<Rightarrow> ('w gw, bool) act" where
  "look_open env rid =
     and_then (get_redis env) (\<lambda>_.
     and_then (on_world (redis_exists env (open_key rid))) (\<lambda>is_open.
     if is_open then and_then (set_ctx (\<lambda>cx. cx\<lparr>circuit_open := True\<rparr>)) (\<lambda>_. ret True) else ret False))"

definition look_fails :: "'w env \<Rightarrow> breaker_conf \<Rightarrow> string \<Rightarrow> ('w gw, bool) act" where
  "look_fails env c rid =
     and_then (on_world (redis_getkey env (fails_key rid))) (\<lambda>v.
     and_then (lift_outcome (count_of v)) (\<lambda>n. lift_outcome (int_ge n (cb_failure_threshold c))))"

definition after_call :: "bool \<Rightarrow> response outcome \<Rightarrow> point" where
  "after_call is_probing out =
     (if \<not> call_ok out then (if is_probing then AtOpen True out else AtIncr out)
      else if is_probing then AtReset out else Answered out)"

fun breaker_step :: "'w env \<Rightarrow> breaker_conf \<Rightarrow> 'w handler \<Rightarrow> string \<Rightarrow> request \<Rightarrow> point \<Rightarrow> 'w gw \<Rightarrow> (point \<times> 'w gw) option" where
  "breaker_step env c next rid r AtExists = command (look_open env rid) (\<lambda>is_open. if is_open then AtTtl else AtFails)"
| "breaker_step env c next rid r AtTtl =
     command (on_world (redis_ttl env (open_key rid))) (\<lambda>ttl. Answered (Inr (open_response ttl)))"
| "breaker_step env c next rid r AtFails =
     command (look_fails env c rid) (\<lambda>tripped. if tripped then AtLock else AtCall False)"
| "breaker_step env c next rid r AtLock =
     command (on_world (redis_set_nx_ex env (half_open_key rid) ''1'' 10))
       (\<lambda>acquired. if acquired then AtCall True else Answered (Inr probing_response))"
| "breaker_step env c next rid r (AtCall is_probing) = (\<lambda>s. case next r s of (out, t) \<Rightarrow> Some (after_call is_probing out, t))"
| "breaker_step env c next rid r (AtIncr out) =
     command (on_world (redis_incr env (fails_key rid))) (\<lambda>n. if n = 1 then AtExpire n out else AtCheck n out)"
| "breaker_step env c next rid r (AtExpire n out) =
     command (on_world (redis_expire env (fails_key rid) (cb_window_seconds c))) (\<lambda>_. AtCheck n out)"
| "breaker_step env c next rid r (AtCheck n out) =
     command (lift_outcome (int_ge n (cb_failure_threshold c))) (\<lambda>trip. if trip then AtOpen False out else Answered out)"
| "breaker_step env c next rid r (AtOpen is_probing out) =
     command (set_open env c rid) (\<lambda>_. if is_probing then AtUnlock out else Answered out)"
| "breaker_step env c next rid r (AtReset out) = command (on_world (redis_delete env (fails_key rid))) (\<lambda>_. AtUnlock out)"
| "breaker_step env c next rid r (AtUnlock out) = command (on_world (redis_delete env (half_open_key rid))) (\<lambda>_. Answered out)"
| "breaker_step env c next rid r (Answered out) = (\<lambda>s. None)"

lemma command_Some [simp]: "command m f s = Some (p, t) \<longleftrightarrow> (\<exists>a. m s = (Inr a, t) \<and> p = f a)"
  by (auto simp: command_def split: prod.splits sum.splits)

section \<open>One request alone\<close>

text \<open>A request that is not interrupted does what the handler does.\<close>

inductive alone :: "'w env \<Rightarrow> breaker_conf \<Rightarrow> 'w handler \<Rightarrow> string \<Rightarrow> request \<Rightarrow> point \<Rightarrow> 'w gw \<Rightarrow> response outcome \<Rightarrow> 'w gw \<Rightarrow> bool"
  for env c "next" rid r where
  answered: "alone env c next rid r (Answered out) s out s"
| goes_on: "breaker_step env c next rid r p s = Some (p', t) \<Longrightarrow> alone env c next rid r p' t out u \<Longrightarrow>
    alone env c next rid r p s out u"

inductive_cases alone_AnsweredE: "alone env c next rid r (Answered out') s out u"

lemma alone_AnsweredD: "alone env c next rid r (Answered out') s out u \<Longrightarrow> out = out' \<and> u = s"
  by (erule alone_AnsweredE) auto

lemma alone_stepE:
  assumes "alone env c next rid r p s out u" and "\<And>out. p \<noteq> Answered out"
  obtains p' t where "breaker_step env c next rid r p s = Some (p', t)" and "alone env c next rid r p' t out u"
  using assms by (cases rule: alone.cases) auto

lemma alone_unlock:
  "alone env c next rid r (AtUnlock out') s out u \<Longrightarrow> out = out' \<and> on_world (redis_delete env (half_open_key rid)) s = (Inr (), u)"
  by (erule alone_stepE) (auto dest!: alone_AnsweredD)

lemma alone_open:
  "alone env c next rid r (AtOpen p out') s out u \<Longrightarrow> out = out' \<and>
     (if p then and_then (set_open env c rid) (\<lambda>_. on_world (redis_delete env (half_open_key rid))) s else set_open env c rid s) = (Inr (), u)"
  by (erule alone_stepE) (auto dest!: alone_AnsweredD alone_unlock split: if_splits)

lemma alone_check:
  "alone env c next rid r (AtCheck n out') s out u \<Longrightarrow> out = out' \<and>
     and_then (lift_outcome (int_ge n (cb_failure_threshold c))) (\<lambda>trip. if trip then set_open env c rid else ret ()) s = (Inr (), u)"
  by (erule alone_stepE) (auto dest!: alone_AnsweredD alone_open simp: and_then_def split: if_splits)

lemma alone_incr:
  "alone env c next rid r (AtIncr out') s out u \<Longrightarrow> out = out' \<and> record_failure env c rid s = (Inr (), u)"
proof (erule alone_stepE)
  fix p' t
  assume "breaker_step env c next rid r (AtIncr out') s = Some (p', t)" and rest: "alone env c next rid r p' t out u"
  then obtain n where n: "on_world (redis_incr env (fails_key rid)) s = (Inr n, t)"
    "p' = (if n = 1 then AtExpire n out' else AtCheck n out')" by auto
  show ?thesis
  proof (cases "n = 1")
    case True
    with rest n(2) have "alone env c next rid r (AtExpire n out') t out u" by simp
    then obtain v where v: "on_world (redis_expire env (fails_key rid) (cb_window_seconds c)) t = (Inr (), v)"
      "alone env c next rid r (AtCheck n out') v out u" by (rule alone_stepE) auto
    with alone_check [OF v(2)] n(1) True show ?thesis by (simp add: record_failure_def)
  next
    case False
    with alone_check [of env c "next" rid r n out' t out u] rest n show ?thesis by (simp add: record_failure_def)
  qed
qed simp

lemma alone_call:
  "alone env c next rid r (AtCall p) s out u \<Longrightarrow> proceed env c rid p (next r) s = (out, u)"
proof (erule alone_stepE)
  fix p' t
  assume "breaker_step env c next rid r (AtCall p) s = Some (p', t)" and rest: "alone env c next rid r p' t out u"
  then obtain res where call: "next r s = (res, t)" "p' = after_call p res" by (auto split: prod.splits)
  show ?thesis
  proof (cases "call_ok res")
    case False
    then have h: "out = res \<and> handle_failure env c rid p t = (Inr (), u)"
      using rest call(2) alone_open [of env c "next" rid r True res t out u] alone_incr [of env c "next" rid r res t out u]
      by (auto simp: after_call_def handle_failure_def split: if_splits)
    show ?thesis
    proof (cases res)
      case (Inl e)
      with h call(1) show ?thesis by (simp add: proceed_def)
    next
      case (Inr resp)
      with h call(1) False show ?thesis by (simp add: proceed_def after_response_def call_ok_def)
    qed
  next
    case True
    then obtain resp where resp: "res = Inr resp" "rs_status resp < 500" by (auto simp: call_ok_def split: sum.splits)
    show ?thesis
    proof (cases p)
      case False
      with resp call rest True have "out = res \<and> u = t" by (auto simp: after_call_def dest: alone_AnsweredD)
      with resp call False show ?thesis by (simp add: proceed_def after_response_def)
    next
      case p: True
      with rest call(2) True have "alone env c next rid r (AtReset res) t out u" by (simp add: after_call_def)
      then obtain v where v: "on_world (redis_delete env (fails_key rid)) t = (Inr (), v)"
        "alone env c next rid r (AtUnlock res) v out u" by (rule alone_stepE) auto
      with alone_unlock [OF v(2)] resp call(1) p show ?thesis by (simp add: proceed_def after_response_def)
    qed
  qed
qed simp

lemma alone_lock:
  "alone env c next rid r AtLock s out u \<Longrightarrow>
   and_then (on_world (redis_set_nx_ex env (half_open_key rid) ''1'' 10))
     (\<lambda>acquired. if acquired then proceed env c rid True (next r) else ret probing_response) s = (out, u)"
proof (erule alone_stepE)
  fix p' t
  assume "breaker_step env c next rid r AtLock s = Some (p', t)" and rest: "alone env c next rid r p' t out u"
  then obtain a where "on_world (redis_set_nx_ex env (half_open_key rid) ''1'' 10) s = (Inr a, t)"
    "p' = (if a then AtCall True else Answered (Inr probing_response))" by auto
  with rest show ?thesis
    by (cases a) (auto dest: alone_call alone_AnsweredD)
qed simp

definition from_fails :: "'w env \<Rightarrow> breaker_conf \<Rightarrow> 'w handler \<Rightarrow> string \<Rightarrow> request \<Rightarrow> ('w gw, response) act" where
  "from_fails env c next rid r =
     and_then (look_fails env c rid) (\<lambda>tripped.
       if tripped then
         and_then (on_world (redis_set_nx_ex env (half_open_key rid) ''1'' 10)) (\<lambda>acquired.
         if acquired then proceed env c rid True (next r) else ret probing_response)
       else proceed env c rid False (next r))"

lemma alone_fails: "alone env c next rid r AtFails s out u \<Longrightarrow> from_fails env c next rid r s = (out, u)"
proof (erule alone_stepE)
  fix p' t
  assume "breaker_step env c next rid r AtFails s = Some (p', t)" and rest: "alone env c next rid r p' t out u"
  then obtain a where "look_fails env c rid s = (Inr a, t)" "p' = (if a then AtLock else AtCall False)" by auto
  with rest show ?thesis
    by (cases a) (auto dest: alone_call alone_lock simp: from_fails_def)
qed simp

lemma breaker_from_points:
  "circuit_breaker env c next r s =
     and_then (look_open env (route_id (ctx s))) (\<lambda>is_open.
       if is_open then and_then (on_world (redis_ttl env (open_key (route_id (ctx s))))) (\<lambda>ttl. ret (open_response ttl))
       else from_fails env c next (route_id (ctx s)) r) s"
  by (auto simp: circuit_breaker_def look_open_def from_fails_def look_fails_def Let_def and_then_def
      split: prod.splits sum.splits)

lemma alone_from_start: "alone env c next rid r AtExists s out u \<Longrightarrow> route_id (ctx s) = rid \<Longrightarrow> circuit_breaker env c next r s = (out, u)"
proof (erule alone_stepE)
  fix p' t
  assume "breaker_step env c next rid r AtExists s = Some (p', t)" and rest: "alone env c next rid r p' t out u"
    and rid: "route_id (ctx s) = rid"
  then obtain a where a: "look_open env rid s = (Inr a, t)" "p' = (if a then AtTtl else AtFails)" by auto
  show ?thesis
  proof (cases a)
    case True
    with rest a have "alone env c next rid r AtTtl t out u" by simp
    then obtain ttl where "on_world (redis_ttl env (open_key rid)) t = (Inr ttl, u)" "out = Inr (open_response ttl)"
      by (rule alone_stepE) (auto dest: alone_AnsweredD)
    with a True rid show ?thesis by (simp add: breaker_from_points)
  next
    case False
    with alone_fails [of env c "next" rid r t out u] rest a rid show ?thesis by (simp add: breaker_from_points)
  qed
qed simp

section \<open>Many requests\<close>

text \<open>
  The requests of one route, each with its context and program point, what they share, and how often the
  lock of the probe has expired. A step is a turn of one of them, the arrival of another, anything that
  happens to the world as long as Redis answers, the counter stays a counter and the lock stays as it
  is, or such a thing together with the expiry of the lock, ten seconds after it was taken, whether or not the
  request that took it is still in its call.
\<close>

type_synonym crowd = "(GatewayContext \<times> request \<times> point) list"

inductive crowd_step :: "'w env \<Rightarrow> breaker_conf \<Rightarrow> 'w handler \<Rightarrow> ('w \<Rightarrow> string \<Rightarrow> string option) \<Rightarrow> string \<Rightarrow>
    crowd \<times> 'w gw \<times> nat \<Rightarrow> crowd \<times> 'w gw \<times> nat \<Rightarrow> bool" for env c "next" keys rid where
  turn: "i < length js \<Longrightarrow> js ! i = (cx, r, p) \<Longrightarrow> breaker_step env c next rid r p (s\<lparr>ctx := cx\<rparr>) = Some (p', t) \<Longrightarrow>
    crowd_step env c next keys rid (js, s, n) (js[i := (ctx t, r, p')], t, n)"
| arrival: "route_id cx = rid \<Longrightarrow> crowd_step env c next keys rid (js, s, n) (js @ [(cx, r, AtExists)], s, n)"
| outside: "redis_ready env w \<Longrightarrow> count_ok (keys w) rid \<Longrightarrow>
    keys w (half_open_key rid) = keys (world s) (half_open_key rid) \<Longrightarrow>
    crowd_step env c next keys rid (js, s, n) (js, s\<lparr>world := w\<rparr>, n)"
| expiry: "redis_ready env w \<Longrightarrow> count_ok (keys w) rid \<Longrightarrow>
    keys (world s) (half_open_key rid) \<noteq> None \<Longrightarrow> keys w (half_open_key rid) = None \<Longrightarrow>
    crowd_step env c next keys rid (js, s, n) (js, s\<lparr>world := w\<rparr>, Suc n)"

fun probing :: "point \<Rightarrow> bool" where
  "probing (AtCall p) = p"
| "probing (AtOpen p _) = p"
| "probing (AtReset _) = True"
| "probing (AtUnlock _) = True"
| "probing _ = False"

definition probes :: "crowd \<Rightarrow> nat" where
  "probes js = length (filter (\<lambda>(_, _, p). probing p) js)"

lemma probes_append: "probes (js @ [(cx, r, p)]) = probes js + (if probing p then 1 else 0)"
  by (simp add: probes_def)

lemma probes_update:
  "i < length js \<Longrightarrow> js ! i = (cx, r, p) \<Longrightarrow>
   probes (js[i := (cx', r', p')]) + (if probing p then 1 else 0) = probes js + (if probing p' then 1 else 0)"
  unfolding probes_def by (induction js arbitrary: i) (auto simp: nth_Cons split: nat.splits)

definition crowd_ok :: "'w env \<Rightarrow> ('w \<Rightarrow> string \<Rightarrow> string option) \<Rightarrow> string \<Rightarrow> crowd \<times> 'w gw \<times> nat \<Rightarrow> bool" where
  "crowd_ok env keys rid = (\<lambda>(js, s, n). redis_ready env (world s) \<and> count_ok (keys (world s)) rid \<and>
     probes js \<le> n + (if keys (world s) (half_open_key rid) = None then 0 else 1))"

text \<open>What one command does to the lock and the counter.\<close>

lemma command_effect:
  assumes "string_server env keys" and "breaker_conf_ok c thr" and "\<forall>r. next_keeps env keys rid (next r)"
    and "redis_ready env (world s)" and "count_ok (keys (world s)) rid" and "breaker_step env c next rid r p s = Some (p', t)"
  shows "redis_ready env (world t) \<and> count_ok (keys (world t)) rid \<and>
    (probing p' = probing p \<and> keys (world t) (half_open_key rid) = keys (world s) (half_open_key rid) \<or>
     \<not> probing p \<and> probing p' \<and> keys (world s) (half_open_key rid) = None \<and> keys (world t) (half_open_key rid) \<noteq> None \<or>
     probing p \<and> \<not> probing p')"
proof -
  note reads = string_server_reads [OF assms(1,4)]
  obtain n where n: "stored_count (keys (world s) (fails_key rid)) = Some n" using assms(5) by (auto simp: count_ok_def)
  show ?thesis
  proof (cases p)
    case AtExists
    with assms(4-6) reads(1) [of "open_key rid"] show ?thesis
      by (auto simp: look_open_def on_world_def and_then_def split: if_splits)
  next
    case AtTtl
    obtain ttl where "redis_ttl env (open_key rid) (world s) = (Inr ttl, world s)" using reads(3) by blast
    with AtTtl assms(4-6) show ?thesis by (auto simp: on_world_def)
  next
    case AtFails
    with assms(4-6) reads(2) [of "fails_key rid"] show ?thesis
      by (auto simp: look_fails_def on_world_def and_then_def split: sum.splits if_splits)
  next
    case AtLock
    show ?thesis
    proof (cases "keys (world s) (half_open_key rid)")
      case None
      obtain w where "redis_set_nx_ex env (half_open_key rid) ''1'' 10 (world s) = (Inr True, w)" "redis_ready env w"
        "keys w = (keys (world s))(half_open_key rid \<mapsto> ''1'')"
        using string_server_writes(2) [OF assms(1,4) None, of 10 "''1''"] by auto
      with AtLock None assms(5,6) show ?thesis by (auto simp: on_world_def count_ok_def)
    next
      case (Some v)
      then have "redis_set_nx_ex env (half_open_key rid) ''1'' 10 (world s) = (Inr False, world s)" using reads(4) by simp
      with AtLock assms(4-6) show ?thesis by (auto simp: on_world_def)
    qed
  next
    case (AtCall q)
    obtain out where "next r s = (out, t)" "p' = after_call q out" using assms(6) AtCall by (auto split: prod.splits)
    with AtCall next_keepsD [OF assms(3) [rule_format] assms(4)] assms(5) show ?thesis
      by (auto simp: count_ok_def after_call_def)
  next
    case (AtIncr out)
    obtain w where "redis_incr env (fails_key rid) (world s) = (Inr (int (Suc n)), w)" "redis_ready env w"
      "keys w = (keys (world s))(fails_key rid \<mapsto> str_nat (Suc n))"
      using string_server_writes(4) [OF assms(1,4) stored_countD [OF n]] by blast
    with AtIncr assms(6) show ?thesis by (auto simp: on_world_def count_ok_def)
  next
    case (AtExpire m out)
    obtain k where k: "0 < k" "cb_window_seconds c = JInt k" using assms(2) by (auto simp: breaker_conf_ok_def)
    obtain w where "redis_expire env (fails_key rid) (JInt k) (world s) = (Inr (), w)" "redis_ready env w" "keys w = keys (world s)"
      using string_server_writes(5) [OF assms(1,4) k(1)] by blast
    with AtExpire k assms(5,6) show ?thesis by (auto simp: on_world_def)
  next
    case (AtCheck m out)
    with assms(4-6) show ?thesis by (auto split: if_splits)
  next
    case (AtOpen q out)
    obtain w where "set_open env c rid s = (Inr (), s\<lparr>world := w\<rparr>)" "redis_ready env w" "keys w = (keys (world s))(open_key rid \<mapsto> ''1'')"
      using set_open_spec [OF assms(1,4,2)] by blast
    with AtOpen assms(5,6) show ?thesis by (auto simp: count_ok_def)
  next
    case (AtReset out)
    obtain w where "on_world (redis_delete env (fails_key rid)) s = (Inr (), s\<lparr>world := w\<rparr>)" "redis_ready env w"
      "keys w = (keys (world s))(fails_key rid := None)" using delete_spec [OF assms(1,4)] by blast
    with AtReset assms(6) show ?thesis by (auto simp: count_ok_def)
  next
    case (AtUnlock out)
    obtain w where "on_world (redis_delete env (half_open_key rid)) s = (Inr (), s\<lparr>world := w\<rparr>)" "redis_ready env w"
      "keys w = (keys (world s))(half_open_key rid := None)" using delete_spec [OF assms(1,4)] by blast
    with AtUnlock assms(5,6) show ?thesis by (auto simp: count_ok_def)
  next
    case (Answered out)
    with assms(6) show ?thesis by simp
  qed
qed

lemma crowd_invariant:
  assumes "string_server env keys" and "breaker_conf_ok c thr" and "\<forall>r. next_keeps env keys rid (next r)"
    and "crowd_step env c next keys rid a b" and "crowd_ok env keys rid a"
  shows "crowd_ok env keys rid b"
  using assms(4,5)
proof (induction rule: crowd_step.induct)
  case (turn i js cx r p s p' t n)
  have "redis_ready env (world (s\<lparr>ctx := cx\<rparr>))" "count_ok (keys (world (s\<lparr>ctx := cx\<rparr>))) rid"
    using turn.prems by (simp_all add: crowd_ok_def)
  from command_effect [where ?next = "next", OF assms(1-3) this turn.hyps(3)] probes_update [OF turn.hyps(1,2), of "ctx t" r p'] turn.prems
  show ?case by (auto simp: crowd_ok_def split: if_splits)
qed (auto simp: crowd_ok_def probes_append split: if_splits)

interpretation crowd: stable "crowd_step env c next keys rid"
    "\<lambda>a. string_server env keys \<and> breaker_conf_ok c thr \<and> (\<forall>r. next_keeps env keys rid (next r)) \<and> crowd_ok env keys rid a"
  for env c "next" keys rid thr
  by unfold_locales (use crowd_invariant in blast)

section \<open>Properties\<close>

text \<open>
  C19. However the requests of a route are interleaved, command by command, and however often the ten-second
  lock expires under them, the number of half-open probes under way is at most one more than the
  number of times the lock has expired: while it does not expire at most one request is a probe, from the
  command that took the lock to the one that gave it back, and as long as more probes are under way
  than locks have expired every request that asks for the lock is answered 503 and changes nothing. The bound is
  attained (the witness: one expiry, two probes at once). The steps are the handler's: a request that is
  not interrupted does exactly what \<open>circuit_breaker\<close> does.
\<close>

theorem probes_bounded_by_expiries:
  fixes inner :: "'w handler"
  assumes "string_server env keys" and "breaker_conf_ok c thr" and "\<forall>r. next_keeps env keys rid (inner r)"
    and "redis_ready env (world s0)" and "count_ok (keys (world s0)) rid"
    and "(crowd_step env c inner keys rid)\<^sup>*\<^sup>* ([], s0, 0) (js, s, n)"
  shows "probes js \<le> Suc n \<and>
    (\<forall>cx r. n < probes js \<longrightarrow>
       breaker_step env c inner rid r AtLock (s\<lparr>ctx := cx\<rparr>) = Some (Answered (Inr probing_response), s\<lparr>ctx := cx\<rparr>)) \<and>
    (\<forall>r t out u. alone env c inner rid r AtExists t out u \<and> route_id (ctx t) = rid \<longrightarrow>
       circuit_breaker env c inner r t = (out, u))"
proof -
  have "crowd_ok env keys rid ([], s0, 0)" using assms(4,5) by (simp add: crowd_ok_def probes_def)
  with crowd.inv_steps [OF assms(6)] assms(1-3) have ok: "redis_ready env (world s)"
    "probes js \<le> n + (if keys (world s) (half_open_key rid) = None then 0 else 1)"
    by (simp_all add: crowd_ok_def)
  have "breaker_step env c inner rid r AtLock (s\<lparr>ctx := cx\<rparr>) = Some (Answered (Inr probing_response), s\<lparr>ctx := cx\<rparr>)"
    if "n < probes js" for cx r
  proof -
    have "keys (world s) (half_open_key rid) \<noteq> None" using ok(2) that by (auto split: if_splits)
    then show ?thesis
      using string_server_reads(4) [OF assms(1) ok(1), of "half_open_key rid" "''1''" 10]
      by (simp add: on_world_def exI [of _ False])
  qed
  moreover have "probes js \<le> Suc n" using ok(2) by (simp split: if_splits)
  ultimately show ?thesis using alone_from_start by blast
qed

text \<open>A circuit that is due for a probe, and two requests: the lock of the first expires during its call.\<close>

definition due :: "string list \<Rightarrow> demo gw" where
  "due locked = demo_gw\<lparr>world := demo_world\<lparr>d_keys := (\<lambda>k. if k = fails_key ''users'' then Some ''1''
     else if k \<in> set locked then Some ''1'' else None)\<rparr>\<rparr>"

lemma due_ok: "redis_ready demo_env (world (due l))" "count_ok (d_keys (world (due l))) ''users''" "int_of_str ''1'' = Inr 1"
proof -
  have one: "str_nat 1 = ''1''" by code_simp
  show "redis_ready demo_env (world (due l))" by (simp add: demo_env_def)
  show "int_of_str ''1'' = Inr 1" using int_of_str_nat [of 1] by (simp only: one of_nat_1)
  show "count_ok (d_keys (world (due l))) ''users''"
    using stored_count_str(2) [of 1, unfolded one] by (simp add: due_def count_ok_def)
qed

lemma due_steps:
  "breaker_step demo_env demo_breaker failing ''users'' r AtExists (due []) = Some (AtFails, due [])"
  "breaker_step demo_env demo_breaker failing ''users'' r AtFails (due []) = Some (AtLock, due [])"
  "breaker_step demo_env demo_breaker failing ''users'' r AtLock (due []) = Some (AtCall True, due [half_open_key ''users''])"
proof -
  show "breaker_step demo_env demo_breaker failing ''users'' r AtExists (due []) = Some (AtFails, due [])"
    by (simp add: look_open_def on_world_def and_then_def due_def demo_env_def exI [of _ False])
  show "breaker_step demo_env demo_breaker failing ''users'' r AtFails (due []) = Some (AtLock, due [])"
    by (simp add: look_fails_def on_world_def and_then_def due_def demo_env_def due_ok(3) count_of_def int_ge_def demo_breaker_def exI [of _ True])
  show "breaker_step demo_env demo_breaker failing ''users'' r AtLock (due []) = Some (AtCall True, due [half_open_key ''users''])"
    by (auto simp: on_world_def due_def demo_env_def fun_eq_iff demo_world_def demo_gw_def)
qed

theorem probes_bounded_by_expiries_witness:
  "\<exists>js s. (crowd_step demo_env demo_breaker failing d_keys ''users'')\<^sup>*\<^sup>* ([], due [], 0) (js, s, 1) \<and> probes js = 2 \<and> probes js \<le> Suc 1"
proof -
  let ?step = "crowd_step demo_env demo_breaker failing d_keys ''users''"
  let ?j = "\<lambda>p. (ctx demo_gw, demo_request, p)"
  note own = due_steps [of demo_request]
  have ctx: "(due l)\<lparr>ctx := ctx demo_gw\<rparr> = due l" "ctx (due l) = ctx demo_gw" for l by (simp_all add: due_def)
  have run: "?step (js, due l, n) (js[i := ?j p'], due l', n)"
    if "i < length js" "js ! i = ?j p" "breaker_step demo_env demo_breaker failing ''users'' demo_request p (due l) = Some (p', due l')"
    for js i p p' l l' n
    using crowd_step.turn [OF that(1,2), where env = demo_env and c = demo_breaker and ?next = failing and rid = "''users''" and s = "due l"
        and p' = p' and t = "due l'"] that(3) by (simp add: ctx)
  have arrive: "?step (js, due l, n) (js @ [?j AtExists], due l, n)" for js l n
    by (rule crowd_step.arrival) (simp add: demo_gw_def)
  have expire: "?step (js, due [half_open_key ''users''], n) (js, due [], Suc n)" for js n
  proof -
    have "due [] = (due [half_open_key ''users''])\<lparr>world := world (due [])\<rparr>" by (simp add: due_def)
    then show ?thesis
      using due_ok(1,2) [of "[]"] crowd_step.expiry [where env = demo_env and w = "world (due [])" and s = "due [half_open_key ''users'']" and keys = d_keys and rid = "''users''"]
      by (simp add: due_def)
  qed
  have "?step\<^sup>*\<^sup>* ([], due [], 0) ([?j (AtCall True)], due [half_open_key ''users''], 0)"
    using arrive [of "[]" "[]" 0] run [OF _ _ own(1), of 0 "[?j AtExists]" 0] run [OF _ _ own(2), of 0 "[?j AtFails]" 0]
      run [OF _ _ own(3), of 0 "[?j AtLock]" 0] by simp
  moreover have "?step\<^sup>*\<^sup>* ([?j (AtCall True)], due [half_open_key ''users''], 0) ([?j (AtCall True), ?j (AtCall True)], due [half_open_key ''users''], 1)"
    using expire [of "[?j (AtCall True)]" 0] arrive [of "[?j (AtCall True)]" "[]" 1] run [OF _ _ own(1), of 1 "[?j (AtCall True), ?j AtExists]" 1]
      run [OF _ _ own(2), of 1 "[?j (AtCall True), ?j AtFails]" 1] run [OF _ _ own(3), of 1 "[?j (AtCall True), ?j AtLock]" 1] by simp
  ultimately have steps: "?step\<^sup>*\<^sup>* ([], due [], 0) ([?j (AtCall True), ?j (AtCall True)], due [half_open_key ''users''], 1)"
    by (rule rtranclp_trans)
  from conjunct1 [OF probes_bounded_by_expiries [OF demo_string_server demo_breaker_ok _ due_ok(1,2) steps]] failing_keeps
  have "probes [?j (AtCall True), ?j (AtCall True)] \<le> Suc 1" by blast
  moreover have "probes [?j (AtCall True), ?j (AtCall True)] = 2" by (simp add: probes_def)
  ultimately show ?thesis using steps by blast
qed

end
