(* ===== verification/RateConc.thy ===== *)
theory RateConc
  imports RateLimit Steps
begin

text \<open>
  The rate limiter under concurrency. A request in the limiter is at one of its \<open>await\<close>s: loading the script,
  running it, or in the rest of the chain; between them any other request may run, in this process or
  in another one that shares the Redis server. The time a request sends was read before its script runs, so
  requests may overtake each other in between.
\<close>

section \<open>The program points\<close>

text \<open>
  Where a request is: before the limiter, about to send \<open>SCRIPT LOAD\<close> for a client, with its reply, about to send
  \<open>EVALSHA\<close> with the time it read, let through, or done.
\<close>

datatype limit_point =
    AtLimiter
  | AtScriptLoad int
  | AtLoaded int string
  | AtEvalsha string rat
  | AtNext
  | Refused response
  | Passed "response outcome"

fun limit_step :: "'w env \<Rightarrow> rate_conf \<Rightarrow> 'w handler \<Rightarrow> request \<Rightarrow> limit_point \<Rightarrow> 'w gw \<Rightarrow> (limit_point \<times> 'w gw) option" where
  "limit_step env c inner r AtLimiter s =
     (let s' = s\<lparr>ctx := (ctx s)\<lparr>rate_limit_key := snd (resolve_key c r (ctx s))\<rparr>\<rparr>;
          client_id = redis_client_id env (world s)
      in if \<not> redis_ready env (world s) then Some (AtNext, s')
         else (case dict_get (sha_cache s) client_id of
                 Some sha \<Rightarrow> Some (AtEvalsha sha (clock env (world s)), s')
               | None \<Rightarrow> Some (AtScriptLoad client_id, s')))"
| "limit_step env c inner r (AtScriptLoad client_id) s =
     (case on_world (redis_script_load env lua_script) s of
        (Inl exc, t) \<Rightarrow> Some (AtNext, t)
      | (Inr sha, t) \<Rightarrow> Some (AtLoaded client_id sha, t))"
| "limit_step env c inner r (AtLoaded client_id sha) s =
     Some (AtEvalsha sha (clock env (world s)), s\<lparr>sha_cache := dict_set client_id sha (sha_cache s)\<rparr>)"
| "limit_step env c inner r (AtEvalsha sha now) s =
     (case on_world (redis_evalsha env sha (fst (resolve_key c r (ctx s))) (rl_limit c) (rl_rate c) now) s of
        (Inl exc, t) \<Rightarrow> Some (AtNext, t)
      | (Inr allowed, t) \<Rightarrow> Some (if allowed = 0 then Refused (too_many env c) else AtNext, t))"
| "limit_step env c inner r AtNext s = (case inner r s of (out, t) \<Rightarrow> Some (Passed out, t))"
| "limit_step env c inner r (Refused resp) s = None"
| "limit_step env c inner r (Passed out) s = None"

text \<open>The key of a request does not depend on what the limiter writes into its context.\<close>

lemma resolve_key_again [simp]: "resolve_key c r (cx\<lparr>rate_limit_key := k\<rparr>) = resolve_key c r cx"
  by (simp add: resolve_key_def)

section \<open>One request alone\<close>

fun solo :: "nat \<Rightarrow> 'w env \<Rightarrow> rate_conf \<Rightarrow> 'w handler \<Rightarrow> request \<Rightarrow> limit_point \<Rightarrow> 'w gw \<Rightarrow> limit_point \<times> 'w gw" where
  "solo 0 env c inner r p s = (p, s)"
| "solo (Suc n) env c inner r p s =
     (case limit_step env c inner r p s of None \<Rightarrow> (p, s) | Some (p', t) \<Rightarrow> solo n env c inner r p' t)"

fun result :: "limit_point \<Rightarrow> response outcome option" where
  "result (Refused resp) = Some (Inr resp)"
| "result (Passed out) = Some out"
| "result _ = None"

text \<open>A request that is not interrupted does what the handler does, in five steps at most.\<close>

lemma solo_done: "result p \<noteq> None \<Longrightarrow> solo n env c inner r p s = (p, s)"
  by (cases n; cases p) simp_all

lemma solo_next: "solo (Suc n) env c inner r AtNext s = (Passed (fst (inner r s)), snd (inner r s))"
  by (simp add: solo_done split: prod.splits)

lemma solo_evalsha:
  assumes "fst (resolve_key c r (ctx s)) = key"
  shows "(case solo (Suc (Suc n)) env c inner r (AtEvalsha sha now) s of (p, t) \<Rightarrow> (the (result p), t)) =
     and_then (catching (and_then (on_world (redis_evalsha env sha key (rl_limit c) (rl_rate c) now)) (\<lambda>allowed.
         ret (if allowed = 0 then Some (too_many env c) else None))) (\<lambda>exc. ret None))
       (\<lambda>refusal. case refusal of Some resp \<Rightarrow> ret resp | None \<Rightarrow> inner r) s"
  using assms
  by (cases "on_world (redis_evalsha env sha key (rl_limit c) (rl_rate c) now) s";
      cases "fst (on_world (redis_evalsha env sha key (rl_limit c) (rl_rate c) now) s)")
     (simp_all add: solo_next solo_done and_then_def catching_def ret_def del: solo.simps(2) add: solo.simps(2) [of "Suc n"])

lemma solo_step: "limit_step env c inner r p s = Some (p', t) \<Longrightarrow> solo (Suc n) env c inner r p s = solo n env c inner r p' t"
  by simp

lemma solo_limiter:
  "(case solo (Suc (Suc (Suc (Suc (Suc 0))))) env c inner r AtLimiter s of (p, t) \<Rightarrow> (the (result p), t)) =
     rate_limiter env c inner r s"
proof -
  obtain key raw_key where k: "resolve_key c r (ctx s) = (key, raw_key)" by (cases "resolve_key c r (ctx s)")
  let ?s = "s\<lparr>ctx := (ctx s)\<lparr>rate_limit_key := raw_key\<rparr>\<rparr>" and ?id = "redis_client_id env (world s)"
  let ?ask = "\<lambda>sha now. and_then (on_world (redis_evalsha env sha key (rl_limit c) (rl_rate c) now)) (\<lambda>allowed.
         ret (if allowed = 0 then Some (too_many env c) else None))"
  let ?body = "\<lambda>sha now. and_then (catching (?ask sha now) (\<lambda>exc. ret None))
       (\<lambda>refusal. case refusal of Some resp \<Rightarrow> ret resp | None \<Rightarrow> inner r)"
  have key: "fst (resolve_key c r (ctx ?s)) = key" by (simp add: k)
  show ?thesis
  proof (cases "redis_ready env (world s)")
    case False
    then have "limit_step env c inner r AtLimiter s = Some (AtNext, ?s)" by (simp add: k Let_def)
    from solo_step [OF this] False show ?thesis
      by (simp add: solo_next rate_limiter_def k check_limit_def get_redis_def del: solo.simps)
  next
    case ready: True
    show ?thesis
    proof (cases "dict_get (sha_cache s) ?id")
      case (Some sha)
      with ready have "limit_step env c inner r AtLimiter s = Some (AtEvalsha sha (clock env (world s)), ?s)"
        by (simp add: k Let_def)
      from solo_step [OF this] solo_evalsha [OF key] have "?thesis \<longleftrightarrow> ?body sha (clock env (world s)) ?s = rate_limiter env c inner r s" by simp
      moreover have "get_script_sha env ?s = (Inr sha, ?s)" using Some by (simp add: get_script_sha_def)
      with ready have "check_limit env c key ?s = ?ask sha (clock env (world s)) ?s"
        by (simp add: check_limit_def)
      ultimately show ?thesis by (simp add: rate_limiter_def k and_then_def catching_def)
    next
      case None
      with ready have load: "limit_step env c inner r AtLimiter s = Some (AtScriptLoad ?id, ?s)" by (simp add: k Let_def)
      show ?thesis
      proof (cases "on_world (redis_script_load env lua_script) ?s")
        case (Pair res t)
        show ?thesis
        proof (cases res)
          case (Inl e)
          with Pair have "limit_step env c inner r (AtScriptLoad ?id) ?s = Some (AtNext, t)" by simp
          from solo_step [OF load] solo_step [OF this] ready None Pair Inl show ?thesis
            by (simp add: solo_next rate_limiter_def k check_limit_def get_script_sha_def del: solo.simps limit_step.simps)
        next
          case (Inr sha)
          let ?t = "t\<lparr>sha_cache := dict_set ?id sha (sha_cache t)\<rparr>"
          have "limit_step env c inner r (AtScriptLoad ?id) ?s = Some (AtLoaded ?id sha, t)" using Pair Inr by simp
          note steps = solo_step [OF load] solo_step [OF this]
            solo_step [of env c inner r "AtLoaded ?id sha" t, OF limit_step.simps(3)]
          have ctx: "ctx t = ctx ?s" using Pair by (auto simp: on_world_def split: prod.splits)
          have key': "fst (resolve_key c r (ctx ?t)) = key" by (simp add: ctx k)
          have "get_script_sha env ?s = (Inr sha, ?t)" using None Pair Inr by (simp add: get_script_sha_def)
          with ready have "check_limit env c key ?s = ?ask sha (clock env (world t)) ?t" by (simp add: check_limit_def)
          then have "rate_limiter env c inner r s = ?body sha (clock env (world t)) ?t"
            by (simp add: rate_limiter_def k and_then_def catching_def)
          then show ?thesis using steps solo_evalsha [OF key', of 0 env inner sha "clock env (world t)"] by simp
        qed
      qed
    qed
  qed
qed

text \<open>Every step brings a request closer to its answer, so five are enough.\<close>

fun steps_left :: "limit_point \<Rightarrow> nat" where
  "steps_left AtLimiter = 5"
| "steps_left (AtScriptLoad _) = 4"
| "steps_left (AtLoaded _ _) = 3"
| "steps_left (AtEvalsha _ _) = 2"
| "steps_left AtNext = 1"
| "steps_left _ = 0"

lemma limit_step_closer: "limit_step env c inner r p s = Some (p', t) \<Longrightarrow> steps_left p' < steps_left p"
  by (cases p) (auto simp: Let_def split: if_splits option.splits prod.splits sum.splits)

lemma limit_step_stops: "limit_step env c inner r p s = None \<Longrightarrow> result p \<noteq> None"
  by (cases p) (auto simp: Let_def split: if_splits option.splits prod.splits sum.splits)

lemma solo_ends: "steps_left p \<le> n \<Longrightarrow> result (fst (solo n env c inner r p s)) \<noteq> None"
proof (induction n arbitrary: p s)
  case 0
  then show ?case by (cases p) simp_all
next
  case (Suc n)
  show ?case
  proof (cases "limit_step env c inner r p s")
    case None
    then show ?thesis using limit_step_stops [OF None] by simp
  next
    case (Some q)
    obtain p' t where "q = (p', t)" by (cases q)
    with Some limit_step_closer [of env c inner r p s p' t] Suc show ?thesis by simp
  qed
qed

lemma solo_result:
  assumes "rate_limiter env c inner r s = (out, u)"
  shows "\<exists>p. solo 5 env c inner r AtLimiter s = (p, u) \<and> result p = Some out"
proof -
  have five: "Suc (Suc (Suc (Suc (Suc 0)))) = 5" by simp
  from solo_limiter [of env c inner r s] solo_ends [of AtLimiter 5 env c inner r s] assms show ?thesis
    unfolding five by (auto split: prod.splits)
qed

section \<open>Many requests\<close>

text \<open>
  The requests of a limiter, each with its Redis key, context and program point, what they share, and the
  script calls made so far: key, time sent and whether a token was granted. A step is a turn of a
  request, an arrival, or anything else that leaves Redis up, the scripts loaded and the bucket under
  consideration as it is. The clock may change in any way: two turns may belong to two processes.
\<close>

type_synonym limit_jobs = "(string \<times> GatewayContext \<times> request \<times> limit_point) list"

type_synonym call_log = "(string \<times> rat \<times> bool) list"

fun calls :: "string \<Rightarrow> limit_point \<Rightarrow> limit_point \<Rightarrow> call_log" where
  "calls key (AtEvalsha sha now) p' = [(key, now, p' = AtNext)]"
| "calls key _ p' = []"

inductive limit_crowd :: "'w env \<Rightarrow> rate_conf \<Rightarrow> 'w handler \<Rightarrow> ('w \<Rightarrow> string \<Rightarrow> bucket option) \<Rightarrow> ('w \<Rightarrow> string \<Rightarrow> script \<Rightarrow> bool) \<Rightarrow>
    string \<Rightarrow> limit_jobs \<times> 'w gw \<times> call_log \<Rightarrow> limit_jobs \<times> 'w gw \<times> call_log \<Rightarrow> bool"
  for env c inner buckets loaded k where
  turn: "i < length js \<Longrightarrow> js ! i = (key, cx, r, p) \<Longrightarrow> limit_step env c inner r p (s\<lparr>ctx := cx\<rparr>) = Some (p', t) \<Longrightarrow>
    limit_crowd env c inner buckets loaded k (js, s, lg) (js[i := (key, ctx t, r, p')], t, lg @ calls key p p')"
| arrival: "limit_crowd env c inner buckets loaded k (js, s, lg) (js @ [(fst (resolve_key c r cx), cx, r, AtLimiter)], s, lg)"
| outside: "redis_ready env w \<Longrightarrow> buckets w k = buckets (world s) k \<Longrightarrow>
    (\<And>sha. loaded (world s) sha lua_script \<Longrightarrow> loaded w sha lua_script) \<Longrightarrow>
    limit_crowd env c inner buckets loaded k (js, s, lg) (js, s\<lparr>world := w\<rparr>, lg)"

fun let_through :: "limit_point \<Rightarrow> bool" where
  "let_through AtNext = True"
| "let_through (Passed _) = True"
| "let_through _ = False"

definition passes :: "string \<Rightarrow> limit_jobs \<Rightarrow> nat" where
  "passes k js = length (filter (\<lambda>(key, _, _, p). key = k \<and> let_through p) js)"

definition calls_of :: "string \<Rightarrow> call_log \<Rightarrow> (rat \<times> bool) list" where
  "calls_of k lg = map snd (filter (\<lambda>(key, _). key = k) lg)"

definition times_of :: "string \<Rightarrow> call_log \<Rightarrow> rat list" where
  "times_of k lg = map fst (calls_of k lg)"

section \<open>What a turn does\<close>

text \<open>A loaded script stays loaded while commands run.\<close>

definition scripts_stay :: "'w env \<Rightarrow> ('w \<Rightarrow> string \<Rightarrow> script \<Rightarrow> bool) \<Rightarrow> bool" where
  "scripts_stay env loaded = (\<forall>w sha scr. redis_ready env w \<and> loaded w sha scr \<longrightarrow>
     (\<forall>other. loaded (snd (redis_script_load env other w)) sha scr) \<and>
     (\<forall>other key limit rate now. loaded (snd (redis_evalsha env other key limit rate now w)) sha scr))"

definition cache_fine :: "('w \<Rightarrow> string \<Rightarrow> script \<Rightarrow> bool) \<Rightarrow> 'w gw \<Rightarrow> bool" where
  "cache_fine loaded s = (\<forall>client_id sha. dict_get (sha_cache s) client_id = Some sha \<longrightarrow> loaded (world s) sha lua_script)"

definition loads_kept :: "('w \<Rightarrow> string \<Rightarrow> script \<Rightarrow> bool) \<Rightarrow> 'w \<Rightarrow> 'w \<Rightarrow> bool" where
  "loads_kept loaded w w' = (\<forall>sha. loaded w sha lua_script \<longrightarrow> loaded w' sha lua_script)"

text \<open>The rest of the chain: it leaves the bucket alone and the scripts and handles valid.\<close>

definition spares_bucket :: "'w env \<Rightarrow> ('w \<Rightarrow> string \<Rightarrow> bucket option) \<Rightarrow> ('w \<Rightarrow> string \<Rightarrow> script \<Rightarrow> bool) \<Rightarrow> string \<Rightarrow> ('w gw, response) act \<Rightarrow> bool" where
  "spares_bucket env buckets loaded k call = (\<forall>t. redis_ready env (world t) \<and> cache_fine loaded t \<longrightarrow>
     (let u = snd (call t) in redis_ready env (world u) \<and> cache_fine loaded u \<and>
        buckets (world u) k = buckets (world t) k \<and> loads_kept loaded (world t) (world u)))"

fun job_fine :: "rate_conf \<Rightarrow> ('w \<Rightarrow> string \<Rightarrow> script \<Rightarrow> bool) \<Rightarrow> 'w \<Rightarrow> string \<times> GatewayContext \<times> request \<times> limit_point \<Rightarrow> bool" where
  "job_fine c loaded w (key, cx, r, AtLimiter) = (fst (resolve_key c r cx) = key)"
| "job_fine c loaded w (key, cx, r, AtScriptLoad _) = (fst (resolve_key c r cx) = key)"
| "job_fine c loaded w (key, cx, r, AtLoaded _ sha) = (fst (resolve_key c r cx) = key \<and> loaded w sha lua_script)"
| "job_fine c loaded w (key, cx, r, AtEvalsha sha _) = (fst (resolve_key c r cx) = key \<and> loaded w sha lua_script)"
| "job_fine c loaded w (key, cx, r, _) = True"

lemma job_fine_mono: "job_fine c loaded w job \<Longrightarrow> loads_kept loaded w w' \<Longrightarrow> job_fine c loaded w' job"
  by (cases "(c, loaded, w, job)" rule: job_fine.cases) (auto simp: loads_kept_def)

definition counted :: "bool \<Rightarrow> int outcome" where
  "counted allowed = Inr (if allowed then 1 else 0)"

lemma limit_turn_effect:
  assumes "script_server env buckets loaded" and "scripts_stay env loaded" and "num (rl_limit c) = Some cap" and "rl_rate c \<noteq> 0"
    and "spares_bucket env buckets loaded k (inner r)" and "redis_ready env (world s)" and "cache_fine loaded s"
    and "job_fine c loaded (world s) (key, ctx s, r, p)" and "limit_step env c inner r p s = Some (p', t)"
  shows "redis_ready env (world t) \<and> cache_fine loaded t \<and> loads_kept loaded (world s) (world t) \<and>
    job_fine c loaded (world t) (key, ctx t, r, p') \<and>
    (if \<exists>sha now. p = AtEvalsha sha now \<and> key = k
     then \<exists>sha now b. p = AtEvalsha sha now \<and> lua_script (buckets (world s) k) cap (rl_rate c) now = (counted (let_through p'), b) \<and>
       buckets (world t) k = Some b
     else buckets (world t) k = buckets (world s) k \<and> (key = k \<longrightarrow> let_through p' = let_through p))"
proof (cases p)
  case AtLimiter
  with assms(6-9) show ?thesis
    by (auto simp: Let_def cache_fine_def loads_kept_def split: option.splits)
next
  case (AtScriptLoad client_id)
  obtain sha w where "redis_script_load env lua_script (world s) = (Inr sha, w)" "loaded w sha lua_script"
    "redis_ready env w" "buckets w = buckets (world s)"
    using assms(1,6) unfolding script_server_def by blast
  moreover from this(1) assms(2,6) have "loads_kept loaded (world s) w"
    unfolding scripts_stay_def loads_kept_def by (metis snd_conv)
  ultimately show ?thesis using assms(7-9) AtScriptLoad
    by (auto simp: on_world_def cache_fine_def loads_kept_def)
next
  case (AtLoaded client_id sha)
  with assms(6-9) show ?thesis by (auto simp: cache_fine_def loads_kept_def update_conv split: if_splits)
next
  case (AtEvalsha sha now)
  let ?b = "buckets (world s) key"
  have sha: "loaded (world s) sha lua_script" "fst (resolve_key c r (ctx s)) = key" using assms(8) AtEvalsha by auto
  obtain w where w: "redis_evalsha env sha key (rl_limit c) (rl_rate c) now (world s) = (fst (lua_script ?b cap (rl_rate c) now), w)"
    "redis_ready env w" "buckets w = (buckets (world s))(key \<mapsto> snd (lua_script ?b cap (rl_rate c) now))"
    using assms(1,3,6) sha(1) unfolding script_server_def by metis
  from w(1) assms(2,6) have kept: "loads_kept loaded (world s) w"
    unfolding scripts_stay_def loads_kept_def by (metis snd_conv)
  define b where "b = snd (lua_script ?b cap (rl_rate c) now)"
  obtain allowed where lua: "lua_script ?b cap (rl_rate c) now = (counted allowed, b)"
    using assms(4) by (cases "1 \<le> refill ?b cap (rl_rate c) now") (auto simp: lua_script_def b_def counted_def Let_def)
  then have "p' = (if allowed then AtNext else Refused (too_many env c))" "t = s\<lparr>world := w\<rparr>"
    using assms(9) AtEvalsha w(1) sha(2) by (auto simp: on_world_def counted_def)
  then show ?thesis using w(2,3) kept assms(7) lua AtEvalsha by (auto simp: cache_fine_def loads_kept_def)
next
  case AtNext
  then have "p' = Passed (fst (inner r s))" "t = snd (inner r s)" using assms(9) by (auto split: prod.splits)
  moreover have "redis_ready env (world (snd (inner r s))) \<and> cache_fine loaded (snd (inner r s)) \<and>
      buckets (world (snd (inner r s))) k = buckets (world s) k \<and> loads_kept loaded (world s) (world (snd (inner r s)))"
    using assms(5-7) unfolding spares_bucket_def Let_def by blast
  ultimately show ?thesis using AtNext by simp
qed (use assms(9) in auto)

section \<open>What every schedule keeps\<close>

lemma script_run_snoc:
  "script_run capacity rate b (ts @ [now]) =
     (fst (script_run capacity rate b ts) @ [fst (lua_script (snd (script_run capacity rate b ts)) capacity rate now)],
      Some (snd (lua_script (snd (script_run capacity rate b ts)) capacity rate now)))"
  by (induction ts arbitrary: b) (simp_all add: script_run.simps(2) split_beta Let_def)

lemma passes_append [simp]: "passes k (js @ [(key, cx, r, AtLimiter)]) = passes k js"
  by (simp add: passes_def)

lemma passes_update:
  "i < length js \<Longrightarrow> js ! i = (key, cx, r, p) \<Longrightarrow>
   passes k (js[i := (key, cx', r, p')]) + (if key = k \<and> let_through p then 1 else 0) =
   passes k js + (if key = k \<and> let_through p' then 1 else 0)"
  unfolding passes_def by (induction js arbitrary: i) (auto simp: nth_Cons split: nat.splits)

lemma calls_of_append: "calls_of k (lg @ lg') = calls_of k lg @ calls_of k lg'"
  by (simp add: calls_of_def)

definition limit_ok :: "'w env \<Rightarrow> rate_conf \<Rightarrow> ('w \<Rightarrow> string \<Rightarrow> bucket option) \<Rightarrow> ('w \<Rightarrow> string \<Rightarrow> script \<Rightarrow> bool) \<Rightarrow> string \<Rightarrow> rat \<Rightarrow>
    bucket option \<Rightarrow> limit_jobs \<times> 'w gw \<times> call_log \<Rightarrow> bool" where
  "limit_ok env c buckets loaded k cap b0 q = (case q of (js, s, lg) \<Rightarrow>
     redis_ready env (world s) \<and> cache_fine loaded s \<and> list_all (job_fine c loaded (world s)) js \<and>
     script_run cap (rl_rate c) b0 (times_of k lg) = (map (counted \<circ> snd) (calls_of k lg), buckets (world s) k) \<and>
     passes k js = length (filter snd (calls_of k lg)))"

lemma limit_invariant:
  assumes "script_server env buckets loaded" and "scripts_stay env loaded" and "num (rl_limit c) = Some cap" and "rl_rate c \<noteq> 0"
    and "\<forall>r. spares_bucket env buckets loaded k (inner r)"
    and "limit_crowd env c inner buckets loaded k a b" and "limit_ok env c buckets loaded k cap b0 a"
  shows "limit_ok env c buckets loaded k cap b0 b"
  using assms(6,7)
proof (induction rule: limit_crowd.induct)
  case (turn i js key cx r p s p' t lg)
  let ?s = "s\<lparr>ctx := cx\<rparr>"
  have fine: "job_fine c loaded (world ?s) (key, ctx ?s, r, p)" and "redis_ready env (world ?s)" "cache_fine loaded ?s"
    using turn.prems turn.hyps(1,2) by (auto simp: limit_ok_def list_all_length cache_fine_def)
  note eff = limit_turn_effect [OF assms(1-4) assms(5) [rule_format] this(2,3,1) turn.hyps(3)]
  have jobs: "list_all (job_fine c loaded (world t)) (js[i := (key, ctx t, r, p')])"
    using eff turn.prems job_fine_mono [of c loaded "world s" _ "world t"]
    by (auto simp: limit_ok_def list_all_iff dest!: set_update_subset_insert [THEN subsetD])
  have count: "passes k (js[i := (key, ctx t, r, p')]) + (if key = k \<and> let_through p then 1 else 0) =
      passes k js + (if key = k \<and> let_through p' then 1 else 0)"
    by (rule passes_update [OF turn.hyps(1,2)])
  show ?case
  proof (cases "\<exists>sha now. p = AtEvalsha sha now \<and> key = k")
    case True
    then obtain sha now b where e: "p = AtEvalsha sha now" "key = k" "buckets (world t) k = Some b"
      "lua_script (buckets (world s) k) cap (rl_rate c) now = (counted (let_through p'), b)"
      using eff by auto
    have "let_through p' = (p' = AtNext)" using turn.hyps(3) e(1) by (auto split: prod.splits sum.splits)
    then have "calls_of k (lg @ calls key p p') = calls_of k lg @ [(now, let_through p')]"
      using e by (simp add: calls_of_def)
    then show ?thesis using eff jobs count turn.prems e
      by (simp add: limit_ok_def times_of_def script_run_snoc)
  next
    case False
    then have "calls_of k (calls key p p') = []" by (cases p) (auto simp: calls_of_def)
    then show ?thesis using eff False jobs count turn.prems by (auto simp: limit_ok_def times_of_def calls_of_append split: if_splits)
  qed
next
  case (arrival js s lg r cx)
  then show ?case by (simp add: limit_ok_def)
next
  case (outside w s js lg)
  have "loads_kept loaded (world s) w" using outside.hyps(3) by (simp add: loads_kept_def)
  then show ?case using outside job_fine_mono [of c loaded "world s" _ w]
    by (auto simp: limit_ok_def cache_fine_def list_all_iff loads_kept_def)
qed

interpretation limited: stable "limit_crowd env c inner buckets loaded k"
    "\<lambda>a. script_server env buckets loaded \<and> scripts_stay env loaded \<and> num (rl_limit c) = Some cap \<and> rl_rate c \<noteq> 0 \<and>
       (\<forall>r. spares_bucket env buckets loaded k (inner r)) \<and> limit_ok env c buckets loaded k cap b0 a"
  for env c inner buckets loaded k cap b0
  by unfold_locales (use limit_invariant in blast)

section \<open>Properties\<close>

lemma allowed_counted: "allowed_count (map (counted \<circ> snd) cs) = length (filter snd cs)"
  by (induction cs) (simp_all add: counted_def)

text \<open>
  C8. The limit holds under concurrency. However the requests of a limiter are interleaved, across its awaits
  and across processes that share the Redis server, the requests with one key that are let through are
  at most the capacity plus the rate times the forward steps of the times their script calls carry;
  when no call is overtaken by one that read a later time, that is the duration between first and last call.
  The steps are the plugin's: a request that is not interrupted does in at most five of them exactly what
  \<open>rate_limiter\<close> does.
\<close>

theorem concurrent_requests_limited:
  fixes inner :: "'w handler"
  assumes "script_server env buckets loaded" and "scripts_stay env loaded" and "num (rl_limit c) = Some cap"
    and "0 < rl_rate c" and "0 \<le> cap" and "\<forall>r. spares_bucket env buckets loaded k (inner r)"
    and "redis_ready env (world s0)" and "cache_fine loaded s0"
    and "\<And>b. buckets (world s0) k = Some b \<Longrightarrow> bucket_ok cap (rl_rate c) b"
    and "(limit_crowd env c inner buckets loaded k)\<^sup>*\<^sup>* ([], s0, []) (js, s, lg)"
  shows "of_nat (passes k js) \<le> cap + rl_rate c * climb (times_of k lg) \<and>
    (times_of k lg \<noteq> [] \<and> sorted (times_of k lg) \<longrightarrow> climb (times_of k lg) = last (times_of k lg) - hd (times_of k lg)) \<and>
    (\<forall>r t out u. rate_limiter env c inner r t = (out, u) \<longrightarrow>
       (\<exists>p. solo 5 env c inner r AtLimiter t = (p, u) \<and> result p = Some out))"
proof -
  have "limit_ok env c buckets loaded k cap (buckets (world s0) k) ([], s0, [])"
    using assms(7,8) by (simp add: limit_ok_def calls_of_def times_of_def passes_def)
  with limited.inv_steps [OF assms(10), of cap "buckets (world s0) k"] assms(1-4,6)
  have "fst (script_run cap (rl_rate c) (buckets (world s0) k) (times_of k lg)) = map (counted \<circ> snd) (calls_of k lg)"
    "passes k js = length (filter snd (calls_of k lg))" by (auto simp: limit_ok_def)
  then have count: "passes k js = allowed_count (fst (script_run cap (rl_rate c) (buckets (world s0) k) (times_of k lg)))"
    by (simp add: allowed_counted)
  have "of_nat (passes k js) \<le> cap + rl_rate c * climb (times_of k lg) \<and>
    (times_of k lg \<noteq> [] \<and> sorted (times_of k lg) \<longrightarrow> climb (times_of k lg) = last (times_of k lg) - hd (times_of k lg))"
  proof (cases "times_of k lg")
    case Nil
    then show ?thesis using count assms(5) by simp
  next
    case (Cons now ts)
    from bucket_bound [OF assms(4,5,9), of _ now ts] climb_sorted [of now ts] count show ?thesis unfolding Cons by simp
  qed
  then show ?thesis using solo_result [of env c inner] by blast
qed

text \<open>One request that arrives, loads the script, runs it and is let through.\<close>

lemma single_turn:
  "limit_step env c inner r p (s\<lparr>ctx := cx\<rparr>) = Some (p', t) \<Longrightarrow>
   limit_crowd env c inner buckets loaded k ([(key, cx, r, p)], s, lg) ([(key, ctx t, r, p')], t, lg @ calls key p p')"
  using limit_crowd.turn [of 0 "[(key, cx, r, p)]" key cx r p env c inner s p' t buckets loaded k lg] by simp

lemma demo_scripts_stay: "scripts_stay demo_env demo_loaded"
  by (auto simp: scripts_stay_def demo_env_def demo_loaded_def Let_def nth_append split: option.splits prod.splits)

definition demo_limit :: rate_conf where
  "demo_limit = \<lparr>rl_limit = JInt 1, rl_window = JInt 60, rl_key_func = JStr ''ip'', rl_rate = 1 / 60\<rparr>"

theorem concurrent_requests_limited_witness:
  "\<exists>s lg. (limit_crowd demo_env demo_limit (\<lambda>r. ret (json_detail ''ok'' 200 [])) d_buckets demo_loaded ''ratelimit:ip:10.0.0.1'')\<^sup>*\<^sup>*
     ([], demo_gw, []) ([(''ratelimit:ip:10.0.0.1'', ctx s, demo_request, AtNext)], s, lg) \<and>
     of_nat (passes ''ratelimit:ip:10.0.0.1'' [(''ratelimit:ip:10.0.0.1'', ctx s, demo_request, AtNext)]) \<le>
       (1 :: rat) + 1 / 60 * climb (times_of ''ratelimit:ip:10.0.0.1'' lg)"
proof -
  let ?k = "''ratelimit:ip:10.0.0.1''" and ?ok = "\<lambda>r :: request. ret (json_detail ''ok'' 200 []) :: (demo gw, response) act"
  let ?crowd = "limit_crowd demo_env demo_limit ?ok d_buckets demo_loaded ?k"
  have key: "resolve_key demo_limit demo_request cx = (?k, ''10.0.0.1'')" for cx
    by (simp add: resolve_key_def demo_limit_def rate_ip_def demo_request_def header_or_def header_get_def client_host_or_def)
  obtain s1 where s1: "limit_step demo_env demo_limit ?ok demo_request AtLimiter (demo_gw\<lparr>ctx := ctx demo_gw\<rparr>) = Some (AtScriptLoad 1, s1)"
    "world s1 = demo_world" by (simp add: key demo_gw_def demo_env_def)
  obtain s2 where s2: "limit_step demo_env demo_limit ?ok demo_request (AtScriptLoad 1) (s1\<lparr>ctx := ctx s1\<rparr>) = Some (AtLoaded 1 (str_nat 0), s2)"
    "world s2 = demo_world\<lparr>d_scripts := [lua_script]\<rparr>" using s1(2) by (simp add: on_world_def demo_env_def demo_world_def)
  obtain s3 where s3: "limit_step demo_env demo_limit ?ok demo_request (AtLoaded 1 (str_nat 0)) (s2\<lparr>ctx := ctx s2\<rparr>) = Some (AtEvalsha (str_nat 0) 0, s3)"
    "world s3 = world s2" using s2(2) by (simp add: demo_env_def demo_world_def)
  obtain s4 where s4: "limit_step demo_env demo_limit ?ok demo_request (AtEvalsha (str_nat 0) 0) (s3\<lparr>ctx := ctx s3\<rparr>) = Some (AtNext, s4)"
    using s2(2) s3(2) by (simp add: key nat_of_digits_str_nat on_world_def demo_env_def demo_world_def demo_limit_def lua_script_def refill_def Let_def split_beta)
  have "?crowd\<^sup>*\<^sup>* ([], demo_gw, []) ([(?k, ctx s4, demo_request, AtNext)], s4, [(?k, 0, True)])"
  proof -
    note r = rtranclp.rtrancl_into_rtrancl [of ?crowd]
    have h0: "?crowd ([], demo_gw, []) ([(?k, ctx demo_gw, demo_request, AtLimiter)], demo_gw, [])"
      using limit_crowd.arrival [where js = "[]" and cx = "ctx demo_gw" and r = demo_request and c = demo_limit] by (simp add: key)
    have h1: "?crowd ([(?k, ctx demo_gw, demo_request, AtLimiter)], demo_gw, []) ([(?k, ctx s1, demo_request, AtScriptLoad 1)], s1, [])"
      using single_turn [OF s1(1)] by simp
    have h2: "?crowd ([(?k, ctx s1, demo_request, AtScriptLoad 1)], s1, []) ([(?k, ctx s2, demo_request, AtLoaded 1 (str_nat 0))], s2, [])"
      using single_turn [OF s2(1)] by simp
    have h3: "?crowd ([(?k, ctx s2, demo_request, AtLoaded 1 (str_nat 0))], s2, []) ([(?k, ctx s3, demo_request, AtEvalsha (str_nat 0) 0)], s3, [])"
      using single_turn [OF s3(1)] by simp
    have h4: "?crowd ([(?k, ctx s3, demo_request, AtEvalsha (str_nat 0) 0)], s3, []) ([(?k, ctx s4, demo_request, AtNext)], s4, [(?k, 0, True)])"
      using single_turn [OF s4(1), of d_buckets demo_loaded ?k ?k "[]"] by simp
    show ?thesis by (rule r [OF r [OF r [OF r [OF r [OF rtranclp.rtrancl_refl [of ?crowd] h0] h1] h2] h3] h4])
  qed
  note steps = this
  have "of_nat (passes ?k [(?k, ctx s4, demo_request, AtNext)]) \<le> (1 :: rat) + rl_rate demo_limit * climb (times_of ?k [(?k, 0, True)])"
    by (rule conjunct1 [OF concurrent_requests_limited [OF demo_script_server demo_scripts_stay _ _ _ _ _ _ _ steps]])
       (simp_all add: demo_limit_def spares_bucket_def loads_kept_def demo_gw_def demo_world_def cache_fine_def demo_env_def)
  then show ?thesis using steps by (intro exI [of _ s4] exI [of _ "[(?k, 0, True)]"]) (simp add: demo_limit_def)
qed

end
