(* ===== verification/Rest2Grpc.thy ===== *)
theory Rest2Grpc
  imports Grpc
begin

text \<open>
  The REST to gRPC adapter of \<open>gateway/adapters/rest2grpc.py\<close>: its channel pool and the
  translation of one request. Opening, calling and closing a channel are external operations.
\<close>

section \<open>What the adapter calls\<close>

datatype call_failure = AioRpcError StatusCode string | CallError exn

text \<open>
  \<open>json.loads\<close> of bytes: text that is no JSON, and every other failure (bytes that are no UTF-8).
  \<open>ra_loads_text\<close> is decoding and loading a reply, \<open>None\<close> for any failure.
\<close>

datatype load_failure = JSONDecodeError | LoadError exn

record 'w rest_deps =
  ra_open :: "string \<Rightarrow> ('w, nat) act"
  ra_close :: "nat \<Rightarrow> ('w, unit) act"
  ra_call :: "nat \<Rightarrow> string \<Rightarrow> string \<Rightarrow> metadata \<Rightarrow> 'w \<Rightarrow> (call_failure + string) \<times> 'w"
  ra_loads :: "string \<Rightarrow> load_failure + json"
  ra_loads_text :: "string \<Rightarrow> json option"
  ra_dumps :: "json \<Rightarrow> string"

record 'w adapter =
  ra_pool :: "(string, nat) dict"
  ra_world :: 'w

definition new_adapter :: "'w \<Rightarrow> 'w adapter" where
  "new_adapter w = \<lparr>ra_pool = [], ra_world = w\<rparr>"

definition get_channel :: "'w rest_deps \<Rightarrow> string \<Rightarrow> ('w adapter, nat) act" where
  "get_channel d target s =
     (case dict_get (ra_pool s) target of
        Some ch \<Rightarrow> (Inr ch, s)
      | None \<Rightarrow>
          (case ra_open d (str_replace ''grpc://'' [] target) (ra_world s) of
             (Inl e, w) \<Rightarrow> (Inl e, s\<lparr>ra_world := w\<rparr>)
           | (Inr ch, w) \<Rightarrow> (Inr ch, s\<lparr>ra_pool := dict_set target ch (ra_pool s), ra_world := w\<rparr>)))"

section \<open>The translation\<close>

fun status_name :: "StatusCode \<Rightarrow> string" where
  "status_name INVALID_ARGUMENT = ''INVALID_ARGUMENT''"
| "status_name UNAUTHENTICATED = ''UNAUTHENTICATED''"
| "status_name PERMISSION_DENIED = ''PERMISSION_DENIED''"
| "status_name NOT_FOUND = ''NOT_FOUND''"
| "status_name DEADLINE_EXCEEDED = ''DEADLINE_EXCEEDED''"
| "status_name ABORTED = ''ABORTED''"
| "status_name RESOURCE_EXHAUSTED = ''RESOURCE_EXHAUSTED''"
| "status_name CANCELLED = ''CANCELLED''"
| "status_name INTERNAL = ''INTERNAL''"
| "status_name UNIMPLEMENTED = ''UNIMPLEMENTED''"
| "status_name UNAVAILABLE = ''UNAVAILABLE''"
| "status_name UNKNOWN = ''UNKNOWN''"
| "status_name OK = ''OK''"
| "status_name ALREADY_EXISTS = ''ALREADY_EXISTS''"
| "status_name FAILED_PRECONDITION = ''FAILED_PRECONDITION''"
| "status_name OUT_OF_RANGE = ''OUT_OF_RANGE''"
| "status_name DATA_LOSS = ''DATA_LOSS''"

definition bytes_hex :: "string \<Rightarrow> string" where
  "bytes_hex b = concat (map (\<lambda>c. let n = (of_char c :: nat) in [hex_digit (n div 16), hex_digit (n mod 16)]) b)"

definition rest_metadata :: "request \<Rightarrow> metadata" where
  "rest_metadata r =
     map (\<lambda>(k, v). (lower k, v))
       (filter (\<lambda>(k, _). lower k \<notin> {''host'', ''content-length'', ''content-type''}) (rq_headers r))"

definition reply_json :: "'w rest_deps \<Rightarrow> string \<Rightarrow> json" where
  "reply_json d bytes =
     (case ra_loads_text d bytes of Some v \<Rightarrow> v | None \<Rightarrow> JObj [(''raw_payload'', JStr (bytes_hex bytes))])"

definition adapter_error :: "call_failure \<Rightarrow> (string \<times> json) list \<times> int" where
  "adapter_error f =
     (case f of
        AioRpcError code details \<Rightarrow>
          ([(''error'', JStr ''gRPC upstream error''), (''code'', JStr (status_name code))], 502)
      | CallError _ \<Rightarrow> ([(''error'', JStr ''Internal Adapter Error'')], 500))"

text \<open>The block under \<open>try\<close> with its handlers; nothing leaves it as an exception.\<close>

definition translate :: "'w env \<Rightarrow> 'w rest_deps \<Rightarrow> nat \<Rightarrow> request \<Rightarrow> string \<Rightarrow> 'w \<Rightarrow> response \<times> 'w" where
  "translate env d ch r grpc_method w =
     (case (if rq_body r \<noteq> [] then ra_loads d (rq_body r) else Inr (JObj [])) of
        Inl JSONDecodeError \<Rightarrow> (json_response env (JObj [(''error'', JStr ''Invalid JSON payload'')]) 400, w)
      | Inl (LoadError e) \<Rightarrow> (json_response env (JObj [(''error'', JStr ''Internal Adapter Error'')]) 500, w)
      | Inr payload \<Rightarrow>
          (case ra_call d ch grpc_method (ra_dumps d payload) (rest_metadata r) w of
             (Inl f, w') \<Rightarrow> (case adapter_error f of (kvs, status) \<Rightarrow> (json_response env (JObj kvs) status, w'))
           | (Inr bytes, w') \<Rightarrow> (json_response env (reply_json d bytes) 200, w')))"

definition handle_rest :: "'w env \<Rightarrow> 'w rest_deps \<Rightarrow> request \<Rightarrow> UpstreamInfo \<Rightarrow> string \<Rightarrow> ('w adapter, response) act" where
  "handle_rest env d r up grpc_method =
     and_then (get_channel d (ui_url up)) (\<lambda>ch s.
       case translate env d ch r grpc_method (ra_world s) of (resp, w) \<Rightarrow> (Inr resp, s\<lparr>ra_world := w\<rparr>))"

text \<open>\<open>close\<close>: an exception of one channel leaves the rest open.\<close>

fun close_pool :: "'w rest_deps \<Rightarrow> nat list \<Rightarrow> ('w adapter, unit) act" where
  "close_pool d [] s = (Inr (), s)"
| "close_pool d (ch # chs) s =
     (case ra_close d ch (ra_world s) of
        (Inl e, w) \<Rightarrow> (Inl e, s\<lparr>ra_world := w\<rparr>)
      | (Inr _, w) \<Rightarrow> close_pool d chs (s\<lparr>ra_world := w\<rparr>))"

definition close_adapter :: "'w rest_deps \<Rightarrow> ('w adapter, unit) act" where
  "close_adapter d s = close_pool d (map snd (ra_pool s)) s"

section \<open>Properties\<close>

text \<open>
  Once there is a channel, every request is answered and nothing escapes as an exception: 400 for a
  body that is no JSON and 500 for one that cannot be read, both without calling the upstream, 502
  with the name of the status for an RPC error, 500 for any other failure of the call, 200 otherwise;
  and the pool is the same as before, so the next request to the target uses the same channel.
\<close>

theorem rest_errors_contained:
  assumes "dict_get (ra_pool s) (ui_url up) = Some ch"
  shows "\<exists>resp t. handle_rest env d r up grpc_method s = (Inr resp, t) \<and> ra_pool t = ra_pool s \<and>
    (case (if rq_body r \<noteq> [] then ra_loads d (rq_body r) else Inr (JObj [])) of
       Inl JSONDecodeError \<Rightarrow> rs_status resp = 400 \<and> ra_world t = ra_world s
     | Inl (LoadError _) \<Rightarrow> rs_status resp = 500 \<and> ra_world t = ra_world s
     | Inr payload \<Rightarrow>
         (case ra_call d ch grpc_method (ra_dumps d payload) (rest_metadata r) (ra_world s) of
            (Inl (AioRpcError code _), w) \<Rightarrow> rs_status resp = 502 \<and> ra_world t = w \<and>
              resp = json_response env (JObj [(''error'', JStr ''gRPC upstream error''), (''code'', JStr (status_name code))]) 502
          | (Inl (CallError _), w) \<Rightarrow> rs_status resp = 500 \<and> ra_world t = w
          | (Inr bytes, w) \<Rightarrow> resp = json_response env (reply_json d bytes) 200 \<and> ra_world t = w))"
  using assms
  by (auto simp: handle_rest_def get_channel_def translate_def adapter_error_def json_response_def
      split: sum.split load_failure.split call_failure.split prod.split)

definition demo_rest :: "demo rest_deps" where
  "demo_rest = \<lparr>ra_open = (\<lambda>t w. (Inr 0, w)), ra_close = (\<lambda>c w. (Inr (), w)),
     ra_call = (\<lambda>c m b md w. (Inl (AioRpcError UNAVAILABLE ''down''), w)), ra_loads = (\<lambda>b. Inl JSONDecodeError),
     ra_loads_text = (\<lambda>b. None), ra_dumps = (\<lambda>v. ''{}'')\<rparr>"

theorem rest_errors_contained_witness:
  "\<exists>resp t. handle_rest demo_env demo_rest demo_request \<lparr>ui_url = ''grpc://u:1'', ui_protocol = GRPC, ui_weight = 1\<rparr> ''/S/M''
     \<lparr>ra_pool = [(''grpc://u:1'', 0)], ra_world = demo_world\<rparr> = (Inr resp, t) \<and> rs_status resp = 502"
  using rest_errors_contained [of "\<lparr>ra_pool = [(''grpc://u:1'', 0)], ra_world = demo_world\<rparr>"
      "\<lparr>ui_url = ''grpc://u:1'', ui_protocol = GRPC, ui_weight = 1\<rparr>" 0 demo_env demo_rest demo_request "''/S/M''"]
  by (auto simp: demo_rest_def demo_request_def)

end
