(* ===== verification/Settings.thy ===== *)
theory Settings
  imports PyStr
begin

text \<open>
  The settings of \<open>gateway/config/settings.py\<close>: one record per class with the defaults of its fields, and
  what the entry points and the Redis client take from them. Reading environment variables and
  \<open>.env\<close> files is pydantic's.
\<close>

section \<open>The groups\<close>

record ServerSettings =
  sv_host :: string
  sv_port :: int
  sv_grpc_port :: int
  sv_workers :: int
  sv_reload :: bool
  sv_access_log :: bool
  sv_tls_enabled :: bool
  sv_tls_cert_file :: string
  sv_tls_key_file :: string

definition default_ServerSettings :: ServerSettings where
  "default_ServerSettings =
     \<lparr>sv_host = ''0.0.0.0'', sv_port = 8080, sv_grpc_port = 9090, sv_workers = 1, sv_reload = False,
      sv_access_log = True, sv_tls_enabled = False, sv_tls_cert_file = [], sv_tls_key_file = []\<rparr>"

record RedisSettings =
  rd_url :: string
  rd_cluster_mode :: bool
  rd_max_connections :: int
  rd_socket_timeout :: rat
  rd_socket_connect_timeout :: rat

definition default_RedisSettings :: RedisSettings where
  "default_RedisSettings =
     \<lparr>rd_url = ''redis://localhost:6379/0'', rd_cluster_mode = False, rd_max_connections = 100,
      rd_socket_timeout = 5, rd_socket_connect_timeout = 2\<rparr>"

record ObservabilitySettings =
  ob_tracing_enabled :: bool
  ob_otel_exporter_endpoint :: string
  ob_service_name :: string
  ob_metrics_enabled :: bool
  ob_metrics_path :: string
  ob_log_level :: string
  ob_log_format :: string

definition default_ObservabilitySettings :: ObservabilitySettings where
  "default_ObservabilitySettings =
     \<lparr>ob_tracing_enabled = True, ob_otel_exporter_endpoint = ''http://localhost:4317'',
      ob_service_name = ''open-api-gateway'', ob_metrics_enabled = True, ob_metrics_path = ''/metrics'',
      ob_log_level = ''INFO'', ob_log_format = ''json''\<rparr>"

record AdminSettings =
  as_host :: string
  as_port :: int
  as_api_key :: string
  as_read_api_keys :: string
  as_write_api_keys :: string
  as_allowed_ips :: string
  as_trust_proxy_headers :: bool
  as_max_write_actions_per_minute :: int
  as_default_key_ttl_seconds :: int
  as_key_store_file :: string
  as_audit_log_file :: string
  as_route_history_file :: string
  as_route_history_max_entries :: int

definition default_AdminSettings :: AdminSettings where
  "default_AdminSettings =
     \<lparr>as_host = ''0.0.0.0'', as_port = 9000,
      as_api_key = ''changeme-admin-key'', as_read_api_keys = [], as_write_api_keys = [],
      as_allowed_ips = [], as_trust_proxy_headers = True, as_max_write_actions_per_minute = 120,
      as_default_key_ttl_seconds = 0, as_key_store_file = ''config/admin_keys.json'',
      as_audit_log_file = ''logs/admin_audit.log'', as_route_history_file = ''config/route_history.json'',
      as_route_history_max_entries = 300\<rparr>"

record Settings =
  st_app_name :: string
  st_environment :: string
  st_debug :: bool
  st_routes_config :: string
  st_gateway_config :: string
  st_server :: ServerSettings
  st_redis :: RedisSettings
  st_observability :: ObservabilitySettings
  st_admin :: AdminSettings

definition default_Settings :: Settings where
  "default_Settings =
     \<lparr>st_app_name = ''Open API Gateway'', st_environment = ''development'', st_debug = False,
      st_routes_config = ''config/routes.yaml'', st_gateway_config = ''config/gateway.yaml'',
      st_server = default_ServerSettings, st_redis = default_RedisSettings,
      st_observability = default_ObservabilitySettings, st_admin = default_AdminSettings\<rparr>"

section \<open>The servers and clients they configure\<close>

text \<open>What the two entry points give uvicorn; an argument that is not given is \<open>None\<close>.\<close>

record server_args =
  ua_import_string :: "string option"
  ua_host :: string
  ua_port :: int
  ua_reload :: "bool option"
  ua_workers :: "int option"
  ua_access_log :: "bool option"
  ua_logging_left_alone :: bool
  ua_http :: "string option"
  ua_ws :: "string option"
  ua_ssl_certfile :: "string option"
  ua_ssl_keyfile :: "string option"

definition gateway_main :: "Settings \<Rightarrow> server_args" where
  "gateway_main st =
     \<lparr>ua_import_string = Some ''gateway.main:app'', ua_host = sv_host (st_server st), ua_port = sv_port (st_server st),
      ua_reload = Some (sv_reload (st_server st)), ua_workers = Some (sv_workers (st_server st)), ua_access_log = Some False,
      ua_logging_left_alone = True, ua_http = Some ''h11'', ua_ws = Some ''websockets'',
      ua_ssl_certfile = None, ua_ssl_keyfile = None\<rparr>"

definition admin_main :: server_args where
  "admin_main =
     \<lparr>ua_import_string = None, ua_host = ''0.0.0.0'', ua_port = 9000, ua_reload = None, ua_workers = None,
      ua_access_log = None, ua_logging_left_alone = False, ua_http = None, ua_ws = None, ua_ssl_certfile = None, ua_ssl_keyfile = None\<rparr>"

text \<open>The TLS settings are never read: turned on, the gateway still serves plain HTTP.\<close>

lemma tls_settings_ignored:
  "gateway_main (st\<lparr>st_server := (st_server st)\<lparr>sv_tls_enabled := True, sv_tls_cert_file := c, sv_tls_key_file := k\<rparr>\<rparr>) =
   gateway_main st \<and> ua_ssl_certfile (gateway_main st) = None"
  by (simp add: gateway_main_def)

text \<open>The Redis client, of a cluster or of one server.\<close>

record redis_client_args =
  ra_cluster :: bool
  ra_url :: string
  ra_max_connections :: int
  ra_socket_timeout :: rat
  ra_socket_connect_timeout :: rat
  ra_decode_responses :: bool

definition redis_args :: "RedisSettings \<Rightarrow> redis_client_args" where
  "redis_args rd =
     \<lparr>ra_cluster = rd_cluster_mode rd, ra_url = rd_url rd, ra_max_connections = rd_max_connections rd,
      ra_socket_timeout = rd_socket_timeout rd, ra_socket_connect_timeout = rd_socket_connect_timeout rd,
      ra_decode_responses = True\<rparr>"

text \<open>The gRPC server: its options in bytes and milliseconds, the services of reflection, its address.\<close>

record grpc_server_args =
  gv_max_receive_message_length :: int
  gv_max_send_message_length :: int
  gv_keepalive_time_ms :: int
  gv_keepalive_timeout_ms :: int
  gv_reflection :: "string list"
  gv_listen_addr :: string

definition grpc_server :: "string \<Rightarrow> int \<Rightarrow> grpc_server_args" where
  "grpc_server host port =
     \<lparr>gv_max_receive_message_length = 64 * 1024 * 1024, gv_max_send_message_length = 64 * 1024 * 1024,
      gv_keepalive_time_ms = 30000, gv_keepalive_timeout_ms = 10000,
      gv_reflection = [''grpc.reflection.v1alpha.ServerReflection''], gv_listen_addr = host @ '':'' @ str_int port\<rparr>"

end
