(* ===== verification/Observability.thy ===== *)
theory Observability
  imports Logging Settings
begin

text \<open>
  Logging of both processes (\<open>gateway/observability/logging.py\<close>): the JSON formatter, the set-up of the root
  logger, and the lines the access log ends in; and what \<open>create_app\<close> sets up for metrics and tracing
  (\<open>metrics.py\<close>, \<open>tracing.py\<close>). \<open>orjson\<close>, the clock and the text of a traceback are arguments.
\<close>

section \<open>Log records\<close>

text \<open>
  A record as the formatter sees it: its name, level and message, the traceback text when it carries an
  exception, and its attribute dictionary, which holds the library's attributes and the extra fields.
\<close>

record log_record =
  lr_name :: string
  lr_levelname :: string
  lr_message :: string
  lr_exception :: "string option"
  lr_attributes :: "(string, json) dict"

text \<open>\<open>Logger.makeRecord\<close>: an extra field must not have the name of an attribute.\<close>

definition make_record :: "(string, json) dict \<Rightarrow> string \<Rightarrow> string \<Rightarrow> string \<Rightarrow> (string, json) dict \<Rightarrow> log_record outcome" where
  "make_record attributes name level msg extra =
     (if list_ex (\<lambda>(k, v). k \<in> {''message'', ''asctime''} \<or> dict_get attributes k \<noteq> None) extra
      then Inl (KeyError ''Attempt to overwrite in LogRecord'')
      else Inr \<lparr>lr_name = name, lr_levelname = level, lr_message = msg, lr_exception = None,
             lr_attributes = fold (\<lambda>(k, v) d. dict_set k v d) extra attributes\<rparr>)"

definition hidden_attributes :: "string list" where
  "hidden_attributes =
     [''name'', ''msg'', ''args'', ''created'', ''filename'', ''funcName'', ''levelname'', ''levelno'', ''lineno'',
      ''module'', ''msecs'', ''pathname'', ''process'', ''processName'', ''relativeCreated'', ''stack_info'', ''thread'',
      ''threadName'', ''exc_info'', ''exc_text'', ''message'']"

definition json_payload :: "string \<Rightarrow> log_record \<Rightarrow> (string, json) dict" where
  "json_payload now rec =
     (let fields = [(''time'', JStr now), (''level'', JStr (lr_levelname rec)), (''logger'', JStr (lr_name rec)),
            (''message'', JStr (lr_message rec))];
          payload = fold (\<lambda>(key, val) p. if key \<in> set hidden_attributes then p else dict_set key val p)
            (lr_attributes rec) fields
      in case lr_exception rec of None \<Rightarrow> payload | Some t \<Rightarrow> dict_set ''exc_info'' (JStr t) payload)"

definition json_format :: "(json \<Rightarrow> string outcome) \<Rightarrow> string \<Rightarrow> log_record \<Rightarrow> string outcome" where
  "json_format orjson_dumps now rec = orjson_dumps (JObj (json_payload now rec))"

section \<open>The root logger\<close>

datatype log_handler = StdoutJson | StdoutText | OtherHandler

record log_config =
  lc_root_level :: int
  lc_root_handlers :: "log_handler list"
  lc_levels :: "(string, int) dict"

text \<open>\<open>getattr(logging, name, logging.INFO)\<close> given to \<open>setLevel\<close>: the module has two capital names that are no level.\<close>

definition level_of_name :: "string \<Rightarrow> int outcome" where
  "level_of_name name =
     (case map_of [(''CRITICAL'', 50), (''FATAL'', 50), (''ERROR'', 40), (''WARNING'', 30), (''WARN'', 30), (''INFO'', 20),
          (''DEBUG'', 10), (''NOTSET'', 0)] name of
        Some n \<Rightarrow> Inr n
      | None \<Rightarrow> if name = ''BASIC_FORMAT'' then Inl (ValueError ''Unknown level'')
                else if name = ''_STYLES'' then Inl TypeError else Inr 20)"

definition noisy_loggers :: "string list" where
  "noisy_loggers = [''uvicorn.access'', ''httpx'', ''websockets'']"

definition configure_root_logging :: "string \<Rightarrow> string \<Rightarrow> (log_config, unit) act" where
  "configure_root_logging level fmt lc =
     (case level_of_name (upper level) of
        Inl e \<Rightarrow> (Inl e, lc)
      | Inr n \<Rightarrow>
          (Inr (), \<lparr>lc_root_level = n, lc_root_handlers = [if lower fmt = ''json'' then StdoutJson else StdoutText],
             lc_levels = fold (\<lambda>noisy d. dict_set noisy 30 d) noisy_loggers (lc_levels lc)\<rparr>))"

section \<open>The lines of the access log\<close>

definition access_extra :: "(exn \<Rightarrow> string) \<Rightarrow> log_entry \<Rightarrow> (string, json) dict" where
  "access_extra str e =
     (let extra = (\<lambda>i. [(''request_id'', JStr (li_request_id i)), (''method'', JStr (li_method i)), (''path'', JStr (li_path i)),
             (''remote_addr'', JStr (li_remote_addr i))] @
            (case li_headers i of None \<Rightarrow> [] | Some hs \<Rightarrow> [(''headers'', JObj (map (\<lambda>(k, v). (k, JStr v)) hs))]))
      in case e of
           RequestHandled i status ms rid who \<Rightarrow>
             extra i @ [(''status'', JInt status), (''duration_ms'', JFloat ms), (''route_id'', JStr rid), (''principal'', JStr who)]
         | RequestFailed i exc \<Rightarrow> extra i @ [(''error'', JStr (str exc))])"

definition access_record :: "(exn \<Rightarrow> string) \<Rightarrow> (string, json) dict \<Rightarrow> log_entry \<Rightarrow> log_record outcome" where
  "access_record str attributes e =
     (let level = (case e of RequestFailed i exc \<Rightarrow> ''ERROR'' | _ \<Rightarrow> ''INFO'');
          msg = (case e of RequestFailed i exc \<Rightarrow> ''Request failed'' | _ \<Rightarrow> ''Request handled'')
      in make_record attributes ''gateway.plugins.logging.logging_plugin'' level msg (access_extra str e))"

section \<open>Metrics and tracing\<close>

text \<open>
  The metrics the module declares, with their label names. The admin process counts with the two admin
  counters (\<open>adm_actions\<close>, \<open>adm_auth_failures\<close>); nothing writes the others.
\<close>

datatype metric_kind = Counter | Gauge | Histogram "rat list"

record metric =
  me_kind :: metric_kind
  me_name :: string
  me_labels :: "string list"

definition GATEWAY_REQUESTS_TOTAL :: metric where
  "GATEWAY_REQUESTS_TOTAL =
     \<lparr>me_kind = Counter, me_name = ''gateway_requests_total'', me_labels = [''route_id'', ''protocol'', ''status_code'']\<rparr>"

definition GATEWAY_REQUEST_DURATION :: metric where
  "GATEWAY_REQUEST_DURATION =
     \<lparr>me_kind = Histogram [5 / 1000, 1 / 100, 25 / 1000, 5 / 100, 1 / 10, 25 / 100, 1 / 2, 1, 5 / 2, 5, 10],
      me_name = ''gateway_request_duration_seconds'', me_labels = [''route_id'', ''protocol'']\<rparr>"

definition GATEWAY_ACTIVE_CONNECTIONS :: metric where
  "GATEWAY_ACTIVE_CONNECTIONS = \<lparr>me_kind = Gauge, me_name = ''gateway_active_connections'', me_labels = [''protocol'']\<rparr>"

definition CIRCUIT_BREAKER_STATE :: metric where
  "CIRCUIT_BREAKER_STATE = \<lparr>me_kind = Gauge, me_name = ''gateway_circuit_breaker_open'', me_labels = [''route_id'']\<rparr>"

definition AUTH_FAILURES_TOTAL :: metric where
  "AUTH_FAILURES_TOTAL =
     \<lparr>me_kind = Counter, me_name = ''gateway_auth_failures_total'', me_labels = [''route_id'', ''auth_method'']\<rparr>"

definition ADMIN_AUTH_FAILURES_TOTAL :: metric where
  "ADMIN_AUTH_FAILURES_TOTAL =
     \<lparr>me_kind = Counter, me_name = ''admin_auth_failures_total'', me_labels = [''required_role'', ''reason'']\<rparr>"

definition ADMIN_ACTIONS_TOTAL :: metric where
  "ADMIN_ACTIONS_TOTAL = \<lparr>me_kind = Counter, me_name = ''admin_actions_total'', me_labels = [''action'', ''status'']\<rparr>"

text \<open>
  Declaring a metric registers its names in one process-wide registry, which refuses a name twice. A
  histogram needs its buckets in ascending order.
\<close>

definition gateway_metrics :: "metric list" where
  "gateway_metrics =
     [GATEWAY_REQUESTS_TOTAL, GATEWAY_REQUEST_DURATION, GATEWAY_ACTIVE_CONNECTIONS, CIRCUIT_BREAKER_STATE,
      AUTH_FAILURES_TOTAL, ADMIN_AUTH_FAILURES_TOTAL, ADMIN_ACTIONS_TOTAL]"

fun buckets :: "metric_kind \<Rightarrow> rat list" where
  "buckets (Histogram bs) = bs"
| "buckets _ = []"

lemma metrics_register:
  "distinct (map me_name gateway_metrics)" "list_all (\<lambda>m. sorted_wrt (<) (buckets (me_kind m))) gateway_metrics"
  by (simp_all add: gateway_metrics_def GATEWAY_REQUESTS_TOTAL_def GATEWAY_REQUEST_DURATION_def GATEWAY_ACTIVE_CONNECTIONS_def
    CIRCUIT_BREAKER_STATE_def AUTH_FAILURES_TOTAL_def ADMIN_AUTH_FAILURES_TOTAL_def ADMIN_ACTIONS_TOTAL_def)

text \<open>The endpoint falls back to the environment only when the setting is empty.\<close>

datatype exporter = OTLPExporter string | ConsoleExporter

record tracing_setup =
  ts_service_name :: string
  ts_exporter :: exporter
  ts_excluded_urls :: string

definition or_else :: "string \<Rightarrow> string \<Rightarrow> string" where
  "or_else a b = (if a \<noteq> [] then a else b)"

definition setup_tracing :: "bool \<Rightarrow> string option \<Rightarrow> string \<Rightarrow> string \<Rightarrow> string \<Rightarrow> tracing_setup" where
  "setup_tracing exporter_installed environ app_name endpoint excluded =
     (let target = or_else endpoint (case environ of None \<Rightarrow> [] | Some v \<Rightarrow> v)
      in \<lparr>ts_service_name = app_name,
          ts_exporter = (if target \<noteq> [] \<and> exporter_installed then OTLPExporter target else ConsoleExporter),
          ts_excluded_urls = excluded\<rparr>)"

record metrics_setup =
  ms_excluded_handlers :: "string list"
  ms_endpoint :: string

definition setup_metrics :: "string \<Rightarrow> metrics_setup" where
  "setup_metrics path = \<lparr>ms_excluded_handlers = [''/_health'', ''/_ready'', path], ms_endpoint = path\<rparr>"

record app_setup =
  ap_title :: string
  ap_docs_url :: "string option"
  ap_redoc_url :: "string option"
  ap_metrics :: "metrics_setup option"
  ap_tracing :: "tracing_setup option"

definition create_app :: "Settings \<Rightarrow> bool \<Rightarrow> string option \<Rightarrow> app_setup" where
  "create_app st exporter_installed environ =
     (let ob = st_observability st
      in \<lparr>ap_title = st_app_name st,
          ap_docs_url = (if st_debug st then Some ''/docs'' else None),
          ap_redoc_url = (if st_debug st then Some ''/redoc'' else None),
          ap_metrics = (if ob_metrics_enabled ob then Some (setup_metrics (ob_metrics_path ob)) else None),
          ap_tracing =
            (if ob_tracing_enabled ob
             then Some (setup_tracing exporter_installed environ (or_else (ob_service_name ob) (st_app_name st))
                    (ob_otel_exporter_endpoint ob) (''/_health,/_ready,'' @ ob_metrics_path ob))
             else None)\<rparr>)"

text \<open>The environment variable has a say only for a setting that was emptied.\<close>

lemma tracing_environ_ignored:
  "ob_otel_exporter_endpoint (st_observability st) \<noteq> [] \<Longrightarrow> create_app st installed environ = create_app st installed None"
  "ob_otel_exporter_endpoint default_ObservabilitySettings \<noteq> []"
  by (simp_all add: create_app_def setup_tracing_def or_else_def default_ObservabilitySettings_def Let_def)

section \<open>JSON text has no line feed and no other C0 control character\<close>

text \<open>
  What JSON escapes: the characters below the space, line feed and carriage return among them. The
  characters DEL and U+0080 to U+009F, the next-line character among them, stand in JSON text as they are.
\<close>

definition c0_free :: "string \<Rightarrow> bool" where
  "c0_free s = list_all (\<lambda>c. (of_char c :: nat) \<ge> 32) s"

lemma c0_free_simps [simp]:
  "c0_free []" "c0_free (c # s) \<longleftrightarrow> (of_char c :: nat) \<ge> 32 \<and> c0_free s" "c0_free (s @ t) \<longleftrightarrow> c0_free s \<and> c0_free t"
  by (simp_all add: c0_free_def)

lemma c0_free_hex: "n < 16 \<Longrightarrow> (of_char (hex_digit n) :: nat) \<ge> 32"
  by (simp add: hex_digit_def)

lemma c0_free_escape: "c0_free (json_escape s)"
proof -
  have "c0_free (json_escape_char c)" for c
    by (auto simp: json_escape_char_def Let_def c0_free_hex)
  then show ?thesis by (induction s) (simp_all add: json_escape_def)
qed

lemma c0_free_quote [simp]: "c0_free (json_quote s)"
  by (simp add: json_quote_def c0_free_escape)

lemma c0_free_join: "c0_free sep \<Longrightarrow> list_all c0_free ws \<Longrightarrow> c0_free (join_with sep ws)"
  by (induction sep ws rule: join_with.induct) simp_all

lemma c0_free_digits [simp]: "c0_free (str_nat n)" "c0_free (str_int i)"
proof -
  show n: "c0_free (str_nat n)" for n
    using str_nat_digits [of n] by (auto simp: c0_free_def list_all_iff is_digit_def Let_def)
  show "c0_free (str_int i)" by (simp add: str_int_def n)
qed

lemma c0_free_json: "(\<And>r. c0_free (fs r)) \<Longrightarrow> c0_free (json_text fs v)"
proof (induction v)
  case (JList vs)
  then have "list_all c0_free (map (json_text fs) vs)" by (simp add: list_all_iff)
  then show ?case by (simp add: c0_free_join)
next
  case (JObj kvs)
  have "list_all c0_free (map (\<lambda>(k, t). json_quote k @ '':'' @ t) (map (map_prod id (json_text fs)) kvs))"
    unfolding list_all_iff
  proof
    fix w assume "w \<in> set (map (\<lambda>(k, t). json_quote k @ '':'' @ t) (map (map_prod id (json_text fs)) kvs))"
    then obtain k v where kv: "(k, v) \<in> set kvs" "w = json_quote k @ '':'' @ json_text fs v" by auto
    have "c0_free (json_text fs v)" by (rule JObj.IH [OF kv(1) _ JObj.prems]) simp
    with kv(2) show "c0_free w" by simp
  qed
  then show ?case by (simp add: c0_free_join)
qed simp_all

section \<open>Properties\<close>

text \<open>
  The attributes a record has of its own: those of Python 3.11, the version of the container image, to
  which 3.12 adds \<open>taskName\<close>. And the text orjson writes.
\<close>

definition record_attributes :: "string list" where
  "record_attributes =
     [''name'', ''msg'', ''args'', ''levelname'', ''levelno'', ''pathname'', ''filename'', ''module'', ''exc_info'',
      ''exc_text'', ''stack_info'', ''lineno'', ''funcName'', ''created'', ''msecs'', ''relativeCreated'', ''thread'',
      ''threadName'', ''processName'', ''process'', ''taskName'']"

definition compact_json :: "(rat \<Rightarrow> string) \<Rightarrow> (json \<Rightarrow> string outcome) \<Rightarrow> bool" where
  "compact_json fs dumps = ((\<forall>v t. dumps v = Inr t \<longrightarrow> t = json_text fs v) \<and> (\<forall>r. c0_free (fs r)))"

lemma hidden_list: "set record_attributes - set hidden_attributes = {''taskName''}"
  by (auto simp add: record_attributes_def hidden_attributes_def)

lemma access_extra_keys:
  "distinct (map fst (access_extra str e))"
  "fst ` set (access_extra str e) \<inter> insert ''taskName'' (set hidden_attributes) = {}"
  "fst ` set (access_extra str e) \<inter> {''message'', ''asctime''} = {}"
  "fst ` set (access_extra str e) \<inter> {''time'', ''level'', ''logger'', ''message''} = {}"
  by (cases e; auto simp: access_extra_def hidden_attributes_def split: option.splits)+

lemma payload_of_record:
  assumes "distinct (map fst xs)" and "fst ` set xs \<inter> fst ` set base \<subseteq> set hidden_attributes"
  shows "fold (\<lambda>(k, v) p. if k \<in> set hidden_attributes then p else dict_set k v p) xs base =
    base @ filter (\<lambda>(k, _). k \<notin> set hidden_attributes) xs"
proof -
  let ?shown = "filter (\<lambda>(k, _). k \<notin> set hidden_attributes) xs"
  have "fold (\<lambda>(k, v) p. if k \<in> set hidden_attributes then p else dict_set k v p) xs base = fold (\<lambda>(k, v) d. dict_set k v d) ?shown base"
    by (induction xs arbitrary: base) auto
  moreover have "distinct (map fst ?shown)" using assms(1) by (rule distinct_map_filter)
  moreover have "fst ` set ?shown \<inter> fst ` set base = {}" using assms(2) by auto
  ultimately show ?thesis by (simp add: dict_set_all)
qed

text \<open>
  C33. An access log line says what happened, on one line: the logging library accepts the extra fields of every
  entry, the JSON object of the line consists of time, level, logger and message and exactly these
  fields (on Python 3.12 and later with \<open>taskName\<close> before them, which the formatter does not hide), and whatever a client sent in path, headers or identifier, the line contains no line
  feed, no carriage return and no other C0 control character (codes below 32), so that readers which end
  a line at a line feed see one entry as one line. Characters above that JSON does not escape, DEL and the C1
  controls, pass as they are.
\<close>

theorem access_log_line:
  assumes "fst ` set attributes \<subseteq> set record_attributes" and "distinct (map fst attributes)" and "compact_json fs orjson_dumps"
  shows "\<exists>rec. access_record str attributes e = Inr rec \<and>
    json_payload now rec =
      [(''time'', JStr now), (''level'', JStr (lr_levelname rec)), (''logger'', JStr ''gateway.plugins.logging.logging_plugin''),
       (''message'', JStr (lr_message rec))] @ filter (\<lambda>(k, _). k = ''taskName'') attributes @ access_extra str e \<and>
    (\<forall>line. json_format orjson_dumps now rec = Inr line \<longrightarrow>
       list_all (\<lambda>ch. (of_char ch :: nat) \<ge> 32) line \<and> CHR 0x0A \<notin> set line \<and> CHR 0x0D \<notin> set line)"
proof -
  let ?extra = "access_extra str e"
  have own: "fst ` set attributes \<subseteq> insert ''taskName'' (set hidden_attributes)" using assms(1) hidden_list by blast
  then have new: "fst ` set ?extra \<inter> fst ` set attributes = {}" using access_extra_keys(2) [of str e] by blast
  then have "dict_get attributes k = None" if "k \<in> fst ` set ?extra" for k
    using that by (auto simp: map_of_eq_None_iff)
  moreover have "k \<notin> {''message'', ''asctime''}" if "k \<in> fst ` set ?extra" for k
    using that access_extra_keys(3) [of str e] by (metis disjoint_iff)
  ultimately have "\<not> list_ex (\<lambda>(k, v). k \<in> {''message'', ''asctime''} \<or> dict_get attributes k \<noteq> None) ?extra"
    by (fastforce simp: list_ex_iff)
  then obtain rec where rec: "access_record str attributes e = Inr rec" "lr_name rec = ''gateway.plugins.logging.logging_plugin''"
    "lr_exception rec = None" "lr_attributes rec = attributes @ ?extra"
    using dict_set_all [OF access_extra_keys(1) new] by (simp add: access_record_def make_record_def)
  let ?fields = "[(''time'', JStr now), (''level'', JStr (lr_levelname rec)), (''logger'', JStr ''gateway.plugins.logging.logging_plugin''),
       (''message'', JStr (lr_message rec))]"
  have names: "fst ` set ?fields = {''time'', ''level'', ''logger'', ''message''}" by simp
  have taken: "insert ''taskName'' (set hidden_attributes) \<inter> {''time'', ''level'', ''logger'', ''message''} \<subseteq> set hidden_attributes"
    by (simp add: hidden_attributes_def)
  have "fst ` set (attributes @ ?extra) \<inter> fst ` set ?fields \<subseteq> set hidden_attributes"
    using own access_extra_keys(4) [of str e] taken unfolding names set_append image_Un by blast
  from payload_of_record [OF _ this]
  have "fold (\<lambda>(k, v) p. if k \<in> set hidden_attributes then p else dict_set k v p) (attributes @ ?extra) ?fields =
      ?fields @ filter (\<lambda>(k, _). k \<notin> set hidden_attributes) attributes @ filter (\<lambda>(k, _). k \<notin> set hidden_attributes) ?extra"
    using assms(2) access_extra_keys(1) [of str e] new by auto
  moreover have "filter (\<lambda>(k, _). k \<notin> set hidden_attributes) attributes = filter (\<lambda>(k, _). k = ''taskName'') attributes"
  proof (rule filter_cong [OF refl])
    fix kv assume "kv \<in> set attributes"
    then have "fst kv \<in> insert ''taskName'' (set hidden_attributes)" and "''taskName'' \<notin> set hidden_attributes"
      using own hidden_list by blast+
    then show "(case kv of (k, _) \<Rightarrow> k \<notin> set hidden_attributes) = (case kv of (k, _) \<Rightarrow> k = ''taskName'')"
      unfolding case_prod_unfold by (metis insertE)
  qed
  moreover have "filter (\<lambda>(k, _). k \<notin> set hidden_attributes) ?extra = ?extra"
    using access_extra_keys(2) [of str e] unfolding filter_id_conv case_prod_unfold by blast
  ultimately have "json_payload now rec = ?fields @ filter (\<lambda>(k, _). k = ''taskName'') attributes @ ?extra"
    using rec(2-4) by (simp add: json_payload_def Let_def)
  moreover have "list_all (\<lambda>ch. (of_char ch :: nat) \<ge> 32) line \<and> CHR 0x0A \<notin> set line \<and> CHR 0x0D \<notin> set line"
    if "json_format orjson_dumps now rec = Inr line" for line
  proof -
    have "c0_free line" using that assms(3) c0_free_json [of fs] by (auto simp: json_format_def compact_json_def)
    then show ?thesis by (force simp: c0_free_def list_all_iff)
  qed
  ultimately show ?thesis using rec(1) by blast
qed

theorem access_log_line_witness:
  "\<exists>rec. access_record (\<lambda>_. []) [(''name'', JStr ''root''), (''taskName'', JStr ''Task-1'')]
      (RequestFailed \<lparr>li_request_id = ''r1'', li_method = ''GET'', li_path = ''/a'' @ [CHR 0x0A] @ ''b'', li_remote_addr = ''-'',
         li_headers = None\<rparr> TypeError) = Inr rec \<and>
    dict_get (json_payload ''now'' rec) ''taskName'' = Some (JStr ''Task-1'') \<and>
    (\<forall>line. json_format (\<lambda>v. Inr (json_text (\<lambda>_. ''0.0'') v)) ''now'' rec = Inr line \<longrightarrow> CHR 0x0A \<notin> set line)"
proof -
  let ?own = "[(''name'', JStr ''root''), (''taskName'', JStr ''Task-1'')]"
  have "compact_json (\<lambda>_. ''0.0'') (\<lambda>v. Inr (json_text (\<lambda>_. ''0.0'') v))" by (simp add: compact_json_def)
  moreover have "fst ` set ?own \<subseteq> set record_attributes" "distinct (map fst ?own)" by (simp_all add: record_attributes_def)
  ultimately show ?thesis using access_log_line [of ?own, where now = "''now''"] by fastforce
qed

end
