(* ===== verification/PluginOrder.thy ===== *)
theory PluginOrder
  imports Gateway
begin

text \<open>
  What the order of the plugins is worth: a plugin that checks a credential stands before the rate limiter
  and the circuit breaker of its own list, and the global list stands before the one of the route. A request
  that is not let in therefore meets neither, and Redis never hears of it.
\<close>

section \<open>Services\<close>

text \<open>\<open>env\<close> with the Redis, the HTTP client and the timer of \<open>s\<close>.\<close>

definition other_services :: "'w env \<Rightarrow> 'w env \<Rightarrow> 'w env" where
  "other_services s env =
     s\<lparr>clock := clock env, fetch_json := fetch_json env, jwt_decode := jwt_decode env,
       config_digest := config_digest env, float_str := float_str env\<rparr>"

fun uses_redis :: "plugin \<Rightarrow> bool" where
  "uses_redis (RateLimiterPlugin _) = True"
| "uses_redis (CircuitBreakerPlugin _) = True"
| "uses_redis _ = False"

lemma uses_redis_order: "uses_redis q \<longleftrightarrow> 20 \<le> plugin_order q"
  by (cases q) simp_all

lemma uses_redis_name:
  "instantiate plugin_registry c = Some q \<Longrightarrow> uses_redis q \<Longrightarrow> pc_name c = ''rate-limiter'' \<or> pc_name c = ''circuit-breaker''"
  by (cases q) (auto simp: instantiate_def plugin_registry_get plugin_classes_def map_sum_Inr_iff split: if_splits sum.splits)

lemma other_services_call: "\<not> uses_redis q \<Longrightarrow> plugin_call (other_services s env) q = plugin_call env q"
proof -
  have "fetch_jwks (other_services s env) = fetch_jwks env"
    by (intro ext) (simp add: fetch_jwks_def other_services_def cong: full_congs)
  moreover have "decode_token (other_services s env) = decode_token env"
    by (intro ext) (simp add: decode_token_def other_services_def cong: full_congs)
  ultimately have jwt: "jwt_validator (other_services s env) = jwt_validator env"
    by (intro ext) (simp add: jwt_validator_def verification_key_def cong: full_congs)
  have "log_handled (other_services s env) = log_handled env"
    by (intro ext) (simp add: log_handled_def other_services_def cong: full_congs)
  then have log: "access_logger (other_services s env) = access_logger env"
    by (intro ext) (simp add: access_logger_def other_services_def cong: full_congs)
  assume "\<not> uses_redis q"
  then show ?thesis by (cases q) (simp_all add: jwt log)
qed

lemma other_services_float: "float_str (other_services s env) = float_str env"
  by (simp add: other_services_def)

lemma other_services_plugins: "get_plugins (other_services s env) = get_plugins env"
proof -
  have "get_or_create (other_services s env) = get_or_create env"
    by (intro ext) (simp add: get_or_create_def config_hash_def other_services_def)
  then have "collect_plugins (other_services s env) reg cfgs c = collect_plugins env reg cfgs c" for reg cfgs c
    by (induction cfgs arbitrary: c) (simp_all add: split_beta)
  then show ?thesis by (intro ext) (simp add: get_plugins_def)
qed

section \<open>What stands before a guard\<close>

text \<open>Behind a plugin that does not let the request in, neither the services nor the endpoint matter.\<close>

lemma guarded_chain:
  fixes env :: "'w env"
  assumes "\<forall>q \<in> set ps. \<not> uses_redis q" and "\<not> lets_in p r"
  shows "build_chain (other_services s env) (ps @ p # qs) e' r t = build_chain env (ps @ p # qs) e r t"
proof -
  have "\<not> uses_redis p" using assms(2) by (cases p) simp_all
  with assms(1) have same: "build_chain (other_services s env) (ps @ [p]) x = build_chain env (ps @ [p]) x" for x
    by (induction ps) (simp_all add: build_chain_def other_services_call)
  have cut: "build_chain env1 (ps @ p # qs) x = build_chain env1 (ps @ [p]) (build_chain env1 qs x)" for env1 :: "'w env" and x
    by (simp add: build_chain_def)
  show ?thesis
    unfolding cut same unfolding chain_is_build_chain [symmetric]
    by (rule mw.chain_closed [OF _ closed_if_not_let_in [OF assms(2)]]) simp
qed

lemma before_guard:
  assumes "sorted (map plugin_order xs)" and "p \<in> set xs" and "\<not> lets_in p r"
  shows "\<exists>ps qs. xs = ps @ p # qs \<and> (\<forall>q \<in> set ps. \<not> uses_redis q)"
proof -
  obtain ps qs where xs: "xs = ps @ p # qs" using assms(2) by (meson split_list)
  have "plugin_order p < 20" using assms(3) by (cases p) simp_all
  with assms(1) xs show ?thesis by (fastforce simp: sorted_append uses_redis_order)
qed

text \<open>The lists of a route in which nothing that uses Redis stands before the plugin of a configuration.\<close>

definition guards_first :: "PluginConfig \<Rightarrow> PluginConfig list \<Rightarrow> PluginConfig list \<Rightarrow> bool" where
  "guards_first cfg global_configs route_configs =
     (cfg \<in> set global_configs \<or> cfg \<in> set route_configs \<and>
        (\<forall>c \<in> set global_configs. pc_enabled c \<longrightarrow> pc_name c \<noteq> ''rate-limiter'' \<and> pc_name c \<noteq> ''circuit-breaker''))"

lemma fresh_sorted: "sorted (map plugin_order (fresh_plugins reg cfgs))"
  by (simp add: fresh_plugins_def)

lemma fresh_mem: "q \<in> set (fresh_plugins reg cfgs) \<longleftrightarrow> (\<exists>c \<in> set cfgs. pc_enabled c \<and> instantiate reg c = Some q)"
  by (auto simp: fresh_plugins_def map_filter_def image_iff)

lemma guard_position:
  assumes "guards_first cfg gs rs" and "pc_enabled cfg" and "instantiate plugin_registry cfg = Some p" and "\<not> lets_in p r"
  shows "\<exists>ps qs. fresh_plugins plugin_registry gs @ fresh_plugins plugin_registry rs = ps @ p # qs \<and> (\<forall>q \<in> set ps. \<not> uses_redis q)"
proof (cases "cfg \<in> set gs")
  case True
  with assms(2,3) have "p \<in> set (fresh_plugins plugin_registry gs)" by (auto simp: fresh_mem)
  from before_guard [OF fresh_sorted this assms(4)] show ?thesis by force
next
  case False
  with assms(1-3) have "p \<in> set (fresh_plugins plugin_registry rs)" by (auto simp: fresh_mem guards_first_def)
  from before_guard [OF fresh_sorted this assms(4)] obtain ps qs where
    "fresh_plugins plugin_registry rs = ps @ p # qs" "\<forall>q \<in> set ps. \<not> uses_redis q" by blast
  moreover have "\<forall>q \<in> set (fresh_plugins plugin_registry gs). \<not> uses_redis q"
    using assms(1) False uses_redis_name by (fastforce simp: fresh_mem guards_first_def)
  ultimately show ?thesis
    by (intro exI [of _ "fresh_plugins plugin_registry gs @ ps"] exI [of _ qs]) auto
qed

section \<open>Properties\<close>

text \<open>
  C3. A request that a credential plugin does not let in spends nothing: whatever Redis, the upstream or the
  timer would do, the handler gives the same response and leaves the same state, the world included, as
  long as no rate limiter or circuit breaker is global while the credential is only asked for on the route.
  So such requests use up no rate limit, open no circuit and take no probe.
\<close>

theorem unauthenticated_spends_nothing:
  assumes "match_request re (a_engine a) r = Inr (Some route)"
    and "cache_ok env used (a_plugin_cache a)" and "collision_free env used"
    and "set (gc_global_plugins (l_gateway_cfg (a_loader a))) \<subseteq> used" and "set (r_plugins route) \<subseteq> used"
    and "guards_first cfg (gc_global_plugins (l_gateway_cfg (a_loader a))) (r_plugins route)" and "pc_enabled cfg"
    and "instantiate plugin_registry cfg = Some p" and "\<not> lets_in p r"
  shows "http_gateway (other_services s env) re py_hash dr r path a = http_gateway env re py_hash dr r path a"
proof -
  let ?gs = "gc_global_plugins (l_gateway_cfg (a_loader a))" and ?rs = "r_plugins route"
  obtain gp k where g: "get_plugins env plugin_registry ?gs (a_plugin_cache a) = (gp, k)" by fastforce
  obtain rp k' where h: "get_plugins env plugin_registry ?rs k = (rp, k')" by fastforce
  have gp: "gp = fresh_plugins plugin_registry ?gs" "cache_ok env used k" using plugin_cache_spec [OF assms(2,3,4) g] by auto
  have rp: "rp = fresh_plugins plugin_registry ?rs" using plugin_cache_spec [OF gp(2) assms(3,5) h] by auto
  obtain ps qs where ps: "gp @ rp = ps @ p # qs" "\<forall>q \<in> set ps. \<not> uses_redis q"
    using guard_position [OF assms(6-9)] gp(1) rp by auto
  have same: "execute (other_services s env) plugin_registry ?gs ?rs e' r (a_plugin_cache a) t =
      execute env plugin_registry ?gs ?rs e r (a_plugin_cache a) t" for e e' t
    using g h by (simp add: execute_def other_services_plugins ps(1) guarded_chain [OF ps(2) assms(9), of s env qs e' t e])
  then show ?thesis using assms(1)
    by (simp add: http_gateway_def not_found_def json_response_def Let_def other_services_float
        same [of "proxy (other_services s env) (a_proxy_started a) route" _ "proxy env (a_proxy_started a) route"] cong: full_congs)
qed

definition demo_limit_config :: PluginConfig where
  "demo_limit_config = \<lparr>pc_name = ''rate-limiter'', pc_enabled = True, pc_config = []\<rparr>"

definition limited_route :: RouteConfig where
  "limited_route = guarded_route\<lparr>r_plugins := [demo_limit_config, demo_key_config]\<rparr>"

definition limited_app :: "demo app" where
  "limited_app = demo_app\<lparr>a_engine := update_routes [limited_route] new_RoutingEngine\<rparr>"

theorem unauthenticated_spends_nothing_witness:
  "http_gateway (other_services (demo_env\<lparr>redis_ready := \<lambda>_. False\<rparr>) digest_env) demo_re demo_hash demo_draws demo_request ''users'' limited_app =
   http_gateway digest_env demo_re demo_hash demo_draws demo_request ''users'' limited_app"
proof (rule unauthenticated_spends_nothing)
  show "match_request demo_re (a_engine limited_app) demo_request = Inr (Some limited_route)"
    by (simp add: match_request_def limited_app_def update_routes_def new_RoutingEngine_def limited_route_def guarded_route_def
        demo_request_def protocol_from_request_def header_or_def header_get_def startswith_def lower_def
        default_MatchConfig_def upper_def upper_char_def host_mismatch_def match_path_def)
  show "cache_ok digest_env {demo_limit_config, demo_key_config} (a_plugin_cache limited_app)"
    by (simp add: limited_app_def demo_app_def)
  show "collision_free digest_env {demo_limit_config, demo_key_config}"
    by (simp add: collision_free_def config_hash_def config_data_def digest_env_def demo_key_config_def demo_limit_config_def)
  have no: "gc_global_plugins (l_gateway_cfg (a_loader limited_app)) = []"
    by (simp add: limited_app_def demo_app_def new_ConfigLoader_def default_GatewayConfig_def)
  then show "set (gc_global_plugins (l_gateway_cfg (a_loader limited_app))) \<subseteq> {demo_limit_config, demo_key_config}"
    "guards_first demo_key_config (gc_global_plugins (l_gateway_cfg (a_loader limited_app))) (r_plugins limited_route)"
    by (simp_all add: guards_first_def limited_route_def)
  show "set (r_plugins limited_route) \<subseteq> {demo_limit_config, demo_key_config}" by (simp add: limited_route_def)
  show "pc_enabled demo_key_config" by (simp add: demo_key_config_def)
  show "instantiate plugin_registry demo_key_config = Some (APIKeyPlugin
      \<lparr>ak_keys = [JStr ''k1''], ak_header_name = JStr ''x-api-key'', ak_query_param = JNull\<rparr>)" by (rule demo_instances)
  show "\<not> lets_in (APIKeyPlugin \<lparr>ak_keys = [JStr ''k1''], ak_header_name = JStr ''x-api-key'', ak_query_param = JNull\<rparr>) demo_request"
    by (simp add: demo_request_def valid_api_key_def extract_key_def header_get_def)
qed

text \<open>
  The restriction is needed: the order of a plugin counts within its list only, and a global limiter
  runs before a key check of the route, which its order puts after that check.
\<close>

lemma global_limiter_first:
  assumes "instantiate plugin_registry g = Some (RateLimiterPlugin c)" and "pc_enabled g"
    and "instantiate plugin_registry k = Some (APIKeyPlugin x)" and "pc_enabled k"
  shows "fresh_plugins plugin_registry [g] @ fresh_plugins plugin_registry [k] = [RateLimiterPlugin c, APIKeyPlugin x]"
    and "fresh_plugins plugin_registry [g, k] = [APIKeyPlugin x, RateLimiterPlugin c]"
  using assms by (simp_all add: fresh_plugins_def map_filter_simps)

end
