(* ===== verification/AdminWorld.thy ===== *)
theory AdminWorld
  imports Loader Http "HOL-Library.Countable"
begin

text \<open>
  What the admin process calls: the clock, its files, random identifiers, SHA-256, date and JSON
  text, and the publication of a reload message. Stores keep a state of their own beside the world,
  so their operations act on a pair of both.
\<close>

section \<open>External operations\<close>

text \<open>A parsed ISO date: with a time zone, or without one and then read as UTC.\<close>

datatype iso_time = Aware rat | Naive rat

record 'w admin_deps =
  ad_now :: "'w \<Rightarrow> rat"
  ad_monotonic :: "'w \<Rightarrow> rat"
  ad_exists :: "'w \<Rightarrow> string \<Rightarrow> bool"
  ad_read :: "'w \<Rightarrow> string \<Rightarrow> string outcome"
  ad_write :: "string \<Rightarrow> string \<Rightarrow> ('w, unit) act"
  ad_append :: "string \<Rightarrow> string \<Rightarrow> ('w, unit) act"
  ad_token :: "('w, string) act"
  ad_uuid_hex :: "('w, string) act"
  ad_publish :: "string \<Rightarrow> string \<Rightarrow> ('w, unit) act"
  ad_sha256 :: "string \<Rightarrow> string"
  ad_fromiso :: "string \<Rightarrow> iso_time outcome"
  ad_isoformat :: "rat \<Rightarrow> string outcome"
  ad_repr :: "json \<Rightarrow> string"
  ad_dumps :: "json \<Rightarrow> string"
  ad_line :: "json \<Rightarrow> string"
  ad_loads :: "string \<Rightarrow> json outcome"

definition beside :: "('w, 'a) act \<Rightarrow> ('s \<times> 'w, 'a) act" where
  "beside m sw = (case sw of (s, w) \<Rightarrow> (case m w of (r, w') \<Rightarrow> (r, (s, w'))))"

definition reading :: "('w \<Rightarrow> 'a outcome) \<Rightarrow> ('w, 'a) act" where
  "reading f w = (f w, w)"

definition modify :: "('s \<Rightarrow> 's) \<Rightarrow> ('s \<times> 'w, unit) act" where
  "modify f sw = (case sw of (s, w) \<Rightarrow> (Inr (), (f s, w)))"

text \<open>\<open>str(v)\<close>; floats and containers are rendered by the interpreter.\<close>

fun py_str :: "(json \<Rightarrow> string) \<Rightarrow> json \<Rightarrow> string" where
  "py_str repr (JStr s) = s"
| "py_str repr (JInt i) = str_int i"
| "py_str repr (JBool b) = (if b then ''True'' else ''False'')"
| "py_str repr JNull = ''None''"
| "py_str repr v = repr v"

text \<open>\<open>record[key]\<close> on a decoded value.\<close>

fun json_item :: "json \<Rightarrow> string \<Rightarrow> json outcome" where
  "json_item (JObj kvs) k = (case dict_get kvs k of Some v \<Rightarrow> Inr v | None \<Rightarrow> Inl (KeyError k))"
| "json_item _ k = Inl TypeError"

definition json_option :: "string option \<Rightarrow> json" where
  "json_option v = (case v of None \<Rightarrow> JNull | Some s \<Rightarrow> JStr s)"

text \<open>\<open>ad_dumps\<close> is \<open>json.dumps\<close> indented for a file, \<open>ad_line\<close> the same on one line.\<close>

section \<open>Documented behaviour\<close>

text \<open>
  A file that was written is there and reads back as written; writing changes no other file and does
  not turn the clock. JSON text is read back as the value it was written from, and a rendered date as
  the same instant.
\<close>

definition file_laws :: "'w admin_deps \<Rightarrow> bool" where
  "file_laws d = (\<forall>p t w. \<exists>w'. ad_write d p t w = (Inr (), w') \<and> ad_exists d w' p \<and> ad_read d w' p = Inr t)"

text \<open>A write that succeeds, among others that may not, is read back.\<close>

definition writes_read_back :: "'w admin_deps \<Rightarrow> bool" where
  "writes_read_back d = (\<forall>p t w w'. ad_write d p t w = (Inr (), w') \<longrightarrow> ad_exists d w' p \<and> ad_read d w' p = Inr t)"

lemma file_laws_read_back: "file_laws d \<Longrightarrow> writes_read_back d"
  unfolding file_laws_def writes_read_back_def by (metis prod.inject)

definition json_laws :: "'w admin_deps \<Rightarrow> bool" where
  "json_laws d = (\<forall>v. ad_loads d (ad_dumps d v) = Inr v)"

definition iso_laws :: "'w admin_deps \<Rightarrow> bool" where
  "iso_laws d = (\<forall>t s. ad_isoformat d t = Inr s \<longrightarrow> s \<noteq> [] \<and> ad_fromiso d s = Inr (Aware t))"

section \<open>Lemmas\<close>

lemma bind_outcome_simps [simp]:
  "bind_outcome (Inl e) f = Inl e" "bind_outcome (Inr a) f = f a"
  by (simp_all add: bind_outcome_def)

lemma beside_apply [simp]: "beside m (s, w) = (fst (m w), (s, snd (m w)))"
  by (simp add: beside_def split_beta)

lemma reading_apply [simp]: "reading f w = (f w, w)"
  by (simp add: reading_def)

lemma modify_apply [simp]: "modify f (s, w) = (Inr (), (f s, w))"
  by (simp add: modify_def)

lemma and_then_cases:
  "and_then m f s = (r, t) \<longleftrightarrow>
     (\<exists>e. m s = (Inl e, t) \<and> r = Inl e) \<or> (\<exists>a s'. m s = (Inr a, s') \<and> f a s' = (r, t))"
  by (auto simp: and_then_def split: prod.splits sum.splits)

section \<open>An instance\<close>

text \<open>A world with a clock, files and a counter for identifiers; text forms are abstract tokens.\<close>

record admin_demo =
  dm_now :: rat
  dm_files :: "(string, string) dict"
  dm_next :: nat

instance json :: countable
  by countable_datatype

definition demo_dumps :: "json \<Rightarrow> string" where
  "demo_dumps v = str_nat (to_nat v)"

definition demo_loads :: "string \<Rightarrow> json outcome" where
  "demo_loads s = Inr (from_nat (nat_of_digits s))"

definition demo_admin_deps :: "admin_demo admin_deps" where
  "demo_admin_deps =
     \<lparr>ad_now = dm_now, ad_monotonic = dm_now,
      ad_exists = (\<lambda>w p. dict_get (dm_files w) p \<noteq> None),
      ad_read = (\<lambda>w p. case dict_get (dm_files w) p of None \<Rightarrow> Inl OSError | Some t \<Rightarrow> Inr t),
      ad_write = (\<lambda>p t w. (Inr (), w\<lparr>dm_files := dict_set p t (dm_files w)\<rparr>)),
      ad_append = (\<lambda>p t w. (Inr (), w\<lparr>dm_files := dict_set p (dict_get_default (dm_files w) p [] @ t) (dm_files w)\<rparr>)),
      ad_token = (\<lambda>w. (Inr (''tok'' @ str_nat (dm_next w)), w\<lparr>dm_next := Suc (dm_next w)\<rparr>)),
      ad_uuid_hex = (\<lambda>w. (Inr (str_nat (dm_next w)), w\<lparr>dm_next := Suc (dm_next w)\<rparr>)),
      ad_publish = (\<lambda>c m w. (Inl (RuntimeError ''Redis client is not initialized''), w)),
      ad_sha256 = (\<lambda>s. s),
      ad_fromiso = (\<lambda>s. Inr (Aware (of_nat (nat_of_digits s)))),
      ad_isoformat = (\<lambda>t. if t \<in> \<nat> then Inr (str_nat (nat \<lfloor>t\<rfloor>)) else Inl (OtherError ''OverflowError'')),
      ad_repr = (\<lambda>v. ''...''), ad_dumps = demo_dumps, ad_line = demo_dumps, ad_loads = demo_loads\<rparr>"

definition demo_admin_world :: admin_demo where
  "demo_admin_world = \<lparr>dm_now = 0, dm_files = [], dm_next = 0\<rparr>"

lemma demo_admin_simps [simp]:
  "ad_now demo_admin_deps = dm_now" "ad_monotonic demo_admin_deps = dm_now"
  "ad_exists demo_admin_deps w p = (dict_get (dm_files w) p \<noteq> None)"
  "ad_write demo_admin_deps p t w = (Inr (), w\<lparr>dm_files := dict_set p t (dm_files w)\<rparr>)"
  "ad_append demo_admin_deps p t w = (Inr (), w\<lparr>dm_files := dict_set p (dict_get_default (dm_files w) p [] @ t) (dm_files w)\<rparr>)"
  "ad_token demo_admin_deps w = (Inr (''tok'' @ str_nat (dm_next w)), w\<lparr>dm_next := Suc (dm_next w)\<rparr>)"
  "ad_uuid_hex demo_admin_deps w = (Inr (str_nat (dm_next w)), w\<lparr>dm_next := Suc (dm_next w)\<rparr>)"
  "ad_publish demo_admin_deps c m w = (Inl (RuntimeError ''Redis client is not initialized''), w)"
  "ad_sha256 demo_admin_deps s = s"
  "ad_fromiso demo_admin_deps s = Inr (Aware (of_nat (nat_of_digits s)))"
  "ad_isoformat demo_admin_deps (of_nat n) = Inr (str_nat n)"
  by (simp_all add: demo_admin_deps_def)

lemma demo_file_laws: "file_laws demo_admin_deps"
  by (auto simp: file_laws_def demo_admin_deps_def update_conv)

lemma demo_json_laws: "json_laws demo_admin_deps"
  by (simp add: json_laws_def demo_admin_deps_def demo_dumps_def demo_loads_def nat_of_digits_str_nat)

lemma demo_iso_laws: "iso_laws demo_admin_deps"
  by (auto simp: iso_laws_def demo_admin_deps_def nat_of_digits_str_nat elim!: Nats_cases split: if_splits)

end
