(* ===== verification/AdminKeys.thy ===== *)
theory AdminKeys
  imports AdminWorld Steps
begin

text \<open>
  The key store of \<open>admin/security.py\<close>: roles, bootstrap and loading, authentication, creation
  and deactivation of keys. Records are decoded JSON objects, since they come from a file; a record
  that is none makes an operation raise as the code does.
\<close>

section \<open>Roles and principals\<close>

datatype AdminRole = Read | Write

fun role_rank :: "AdminRole \<Rightarrow> nat" where
  "role_rank Read = 1"
| "role_rank Write = 2"

instantiation AdminRole :: linorder
begin

definition less_eq_AdminRole :: "AdminRole \<Rightarrow> AdminRole \<Rightarrow> bool" where
  "less_eq_AdminRole r s = (role_rank r \<le> role_rank s)"

definition less_AdminRole :: "AdminRole \<Rightarrow> AdminRole \<Rightarrow> bool" where
  "less_AdminRole r s = (role_rank r < role_rank s)"

instance
proof (standard, goal_cases)
  case (4 r s)
  then show ?case by (cases r; cases s) (simp_all add: less_eq_AdminRole_def)
qed (auto simp: less_eq_AdminRole_def less_AdminRole_def)

end

fun role_name :: "AdminRole \<Rightarrow> string" where
  "role_name Read = ''read''"
| "role_name Write = ''write''"

definition role_of_name :: "string \<Rightarrow> AdminRole option" where
  "role_of_name s = (if s = ''read'' then Some Read else if s = ''write'' then Some Write else None)"

record AdminPrincipal =
  p_key_id :: string
  p_role :: AdminRole
  p_label :: string

definition is_allowed :: "AdminPrincipal \<Rightarrow> AdminRole \<Rightarrow> bool" where
  "is_allowed p required_role = (role_rank (p_role p) \<ge> role_rank required_role)"

section \<open>The store\<close>

record key_store =
  ks_path :: string
  ks_keys :: "json list"

definition persist_keys :: "'w admin_deps \<Rightarrow> (key_store \<times> 'w, unit) act" where
  "persist_keys d sw =
     beside (ad_write d (ks_path (fst sw))
       (ad_dumps d (JObj [(''version'', JInt 1), (''keys'', JList (ks_keys (fst sw)))]))) sw"

definition key_record :: "string \<Rightarrow> string \<Rightarrow> AdminRole \<Rightarrow> bool \<Rightarrow> string \<Rightarrow> string option \<Rightarrow> string \<Rightarrow> json" where
  "key_record kid label role active created_at expires_at secret_sha256 =
     JObj [(''id'', JStr kid), (''label'', JStr label), (''role'', JStr (role_name role)),
       (''active'', JBool active), (''created_at'', JStr created_at),
       (''expires_at'', json_option expires_at), (''secret_sha256'', JStr secret_sha256)]"

fun bootstrap_records :: "'w admin_deps \<Rightarrow> string \<Rightarrow> AdminRole \<Rightarrow> nat \<Rightarrow> string list \<Rightarrow> json list" where
  "bootstrap_records d now role index [] = []"
| "bootstrap_records d now role index (key # keys) =
     (let secret = strip key in
      (if secret = [] then []
       else [key_record (role_name role @ ''-bootstrap-'' @ str_nat (index + 1)) (''bootstrap-'' @ role_name role)
               role True now None (ad_sha256 d secret)]) @
      bootstrap_records d now role (index + 1) keys)"

definition load_keys :: "'w admin_deps \<Rightarrow> string \<Rightarrow> ('w, json list) act" where
  "load_keys d path =
     reading (\<lambda>w. bind_outcome (ad_read d w path) (\<lambda>text.
       bind_outcome (ad_loads d text) (\<lambda>loaded.
       bind_outcome (json_dict_get loaded ''keys'' (JList [])) iter_json)))"

definition load_or_bootstrap :: "'w admin_deps \<Rightarrow> string list \<Rightarrow> string list \<Rightarrow> (key_store \<times> 'w, unit) act" where
  "load_or_bootstrap d write_keys read_keys sw =
     (if ad_exists d (snd sw) (ks_path (fst sw))
      then and_then (beside (load_keys d (ks_path (fst sw)))) (\<lambda>keys. modify (\<lambda>s. s\<lparr>ks_keys := keys\<rparr>)) sw
      else and_then (beside (reading (\<lambda>w. ad_isoformat d (ad_now d w)))) (\<lambda>now.
           and_then (modify (\<lambda>s. s\<lparr>ks_keys := bootstrap_records d now Write 0 write_keys @
                bootstrap_records d now Read 0 read_keys\<rparr>)) (\<lambda>_.
           persist_keys d)) sw)"

definition new_key_store :: "'w admin_deps \<Rightarrow> string \<Rightarrow> string list \<Rightarrow> string list \<Rightarrow> ('w, key_store) act" where
  "new_key_store d path write_keys read_keys w =
     (case load_or_bootstrap d write_keys read_keys (\<lparr>ks_path = path, ks_keys = []\<rparr>, w) of
        (Inl e, (s, w')) \<Rightarrow> (Inl e, w')
      | (Inr _, (s, w')) \<Rightarrow> (Inr s, w'))"

section \<open>Authentication\<close>

fun utc :: "iso_time \<Rightarrow> rat" where
  "utc (Aware t) = t"
| "utc (Naive t) = t"

text \<open>A time stamp that cannot be parsed fails closed; other exceptions pass through.\<close>

definition is_expired :: "'w admin_deps \<Rightarrow> rat \<Rightarrow> json \<Rightarrow> bool outcome" where
  "is_expired d current record =
     bind_outcome (json_dict_get record ''expires_at'' JNull) (\<lambda>raw.
       if \<not> truthy raw then Inr False
       else (case ad_fromiso d (py_str (ad_repr d) raw) of
               Inl e \<Rightarrow> if is_value_error e then Inr True else Inl e
             | Inr t \<Rightarrow> Inr (current \<ge> utc t)))"

fun authenticate_loop :: "'w admin_deps \<Rightarrow> rat \<Rightarrow> string \<Rightarrow> json list \<Rightarrow> AdminPrincipal option outcome" where
  "authenticate_loop d now digest [] = Inr None"
| "authenticate_loop d now digest (record # records) =
     bind_outcome (json_dict_get record ''active'' (JBool False)) (\<lambda>active.
       if \<not> truthy active then authenticate_loop d now digest records
       else bind_outcome (is_expired d now record) (\<lambda>expired.
         if expired then authenticate_loop d now digest records
         else bind_outcome (json_dict_get record ''secret_sha256'' JNull) (\<lambda>stored.
           if stored \<noteq> JStr digest then authenticate_loop d now digest records
           else bind_outcome (json_dict_get record ''role'' (JStr ''read'')) (\<lambda>role.
             case role_of_name (lower (py_str (ad_repr d) role)) of
               None \<Rightarrow> authenticate_loop d now digest records
             | Some r \<Rightarrow>
                 bind_outcome (json_item record ''id'') (\<lambda>kid.
                 bind_outcome (json_dict_get record ''label'' (JStr [])) (\<lambda>label.
                 Inr (Some \<lparr>p_key_id = py_str (ad_repr d) kid, p_role = r,
                            p_label = py_str (ad_repr d) label\<rparr>)))))))"

definition authenticate :: "'w admin_deps \<Rightarrow> string \<Rightarrow> key_store \<Rightarrow> 'w \<Rightarrow> AdminPrincipal option outcome" where
  "authenticate d secret s w = authenticate_loop d (ad_now d w) (ad_sha256 d secret) (ks_keys s)"

section \<open>Listing, creation, deactivation\<close>

text \<open>\<open>str(record.get("expires_at") or "")\<close>.\<close>

definition str_or_empty :: "'w admin_deps \<Rightarrow> json \<Rightarrow> string" where
  "str_or_empty d v = (if truthy v then py_str (ad_repr d) v else [])"

definition list_key :: "'w admin_deps \<Rightarrow> rat \<Rightarrow> json \<Rightarrow> json outcome" where
  "list_key d now record =
     bind_outcome (json_item record ''id'') (\<lambda>kid.
     bind_outcome (json_dict_get record ''label'' (JStr [])) (\<lambda>label.
     bind_outcome (json_dict_get record ''role'' (JStr ''read'')) (\<lambda>role.
     bind_outcome (json_dict_get record ''active'' (JBool False)) (\<lambda>active.
     bind_outcome (json_dict_get record ''created_at'' (JStr [])) (\<lambda>created_at.
     bind_outcome (json_dict_get record ''expires_at'' JNull) (\<lambda>expires_at.
     bind_outcome (is_expired d now record) (\<lambda>expired.
     Inr (JObj [(''id'', JStr (py_str (ad_repr d) kid)), (''label'', JStr (py_str (ad_repr d) label)),
       (''role'', JStr (py_str (ad_repr d) role)), (''active'', JBool (truthy active)),
       (''created_at'', JStr (py_str (ad_repr d) created_at)), (''expires_at'', JStr (str_or_empty d expires_at)),
       (''expired'', JBool expired)]))))))))"

definition list_keys :: "'w admin_deps \<Rightarrow> key_store \<Rightarrow> 'w \<Rightarrow> json list outcome" where
  "list_keys d s w = map_outcome (list_key d (ad_now d w)) (ks_keys s)"

record created_key =
  ck_id :: string
  ck_role :: AdminRole
  ck_secret :: string
  ck_expires_at :: string

definition expiry_text :: "'w admin_deps \<Rightarrow> int option \<Rightarrow> 'w \<Rightarrow> string option outcome" where
  "expiry_text d expires_in_seconds w =
     (case expires_in_seconds of
        Some n \<Rightarrow> if n > 0 then map_sum id Some (ad_isoformat d (ad_now d w + of_int n)) else Inr None
      | None \<Rightarrow> Inr None)"

text \<open>The new record with what the caller is told of it; then the store appends it.\<close>

definition new_key :: "'w admin_deps \<Rightarrow> AdminRole \<Rightarrow> string \<Rightarrow> int option \<Rightarrow> ('w, created_key \<times> json) act" where
  "new_key d role label expires_in_seconds =
     and_then (ad_token d) (\<lambda>plaintext.
     and_then (reading (expiry_text d expires_in_seconds)) (\<lambda>expires_at.
     and_then (ad_uuid_hex d) (\<lambda>hex.
     and_then (reading (\<lambda>w. ad_isoformat d (ad_now d w))) (\<lambda>created_at.
     (let kid = ''key-'' @ take 12 hex
      in ret (\<lparr>ck_id = kid, ck_role = role, ck_secret = plaintext,
               ck_expires_at = (case expires_at of None \<Rightarrow> [] | Some t \<Rightarrow> t)\<rparr>,
              key_record kid (if strip label = [] then ''rotated-key'' else strip label) role True created_at
                expires_at (ad_sha256 d plaintext)))))))"

definition create_key :: "'w admin_deps \<Rightarrow> AdminRole \<Rightarrow> string \<Rightarrow> int option \<Rightarrow> (key_store \<times> 'w, created_key) act" where
  "create_key d role label expires_in_seconds =
     and_then (beside (new_key d role label expires_in_seconds)) (\<lambda>(created, record).
     and_then (modify (\<lambda>s. s\<lparr>ks_keys := ks_keys s @ [record]\<rparr>)) (\<lambda>_.
     and_then (persist_keys d) (\<lambda>_. ret created)))"

text \<open>The loop of \<open>deactivate_key\<close>: the records afterwards and whether one was changed.\<close>

fun deactivate_loop :: "'w admin_deps \<Rightarrow> string \<Rightarrow> json list \<Rightarrow> (json list \<times> bool) outcome" where
  "deactivate_loop d key_id [] = Inr ([], False)"
| "deactivate_loop d key_id (record # records) =
     bind_outcome (json_dict_get record ''id'' JNull) (\<lambda>kid.
       if py_str (ad_repr d) kid \<noteq> key_id
       then map_sum id (\<lambda>(rs, changed). (record # rs, changed)) (deactivate_loop d key_id records)
       else bind_outcome (json_dict_get record ''active'' (JBool False)) (\<lambda>active.
         if \<not> truthy active then Inr (record # records, False)
         else (case record of
                 JObj kvs \<Rightarrow> Inr (JObj (dict_set ''active'' (JBool False) kvs) # records, True)
               | _ \<Rightarrow> Inl TypeError)))"

definition deactivate_key :: "'w admin_deps \<Rightarrow> string \<Rightarrow> (key_store \<times> 'w, bool) act" where
  "deactivate_key d key_id sw =
     (case deactivate_loop d key_id (ks_keys (fst sw)) of
        Inl e \<Rightarrow> (Inl e, sw)
      | Inr (records, changed) \<Rightarrow>
          if changed
          then and_then (modify (\<lambda>s. s\<lparr>ks_keys := records\<rparr>)) (\<lambda>_.
               and_then (persist_keys d) (\<lambda>_. ret True)) sw
          else (Inr False, sw))"

text \<open>Once there is a key file, the configured keys are not looked at.\<close>

lemma configured_keys_ignored:
  "ad_exists d w path \<Longrightarrow> new_key_store d path write_keys read_keys w = new_key_store d path [] [] w"
  by (simp add: new_key_store_def load_or_bootstrap_def)

section \<open>Well-formed stores\<close>

definition expires_ok :: "'w admin_deps \<Rightarrow> string option \<Rightarrow> bool" where
  "expires_ok d expires_at = (case expires_at of None \<Rightarrow> True | Some t \<Rightarrow> t \<noteq> [] \<and> (\<exists>x. ad_fromiso d t = Inr x))"

definition key_ok :: "'w admin_deps \<Rightarrow> json \<Rightarrow> bool" where
  "key_ok d v = (\<exists>kid label role active created_at expires_at digest.
     v = key_record kid label role active created_at expires_at digest \<and> expires_ok d expires_at)"

fun key_id :: "json \<Rightarrow> string" where
  "key_id (JObj kvs) = (case dict_get kvs ''id'' of Some (JStr kid) \<Rightarrow> kid | _ \<Rightarrow> [])"
| "key_id _ = []"

definition keys_ok :: "'w admin_deps \<Rightarrow> json list \<Rightarrow> bool" where
  "keys_ok d ks = (list_all (key_ok d) ks \<and> distinct (map key_id ks))"

text \<open>The time of expiry of a well-formed record.\<close>

definition expired_at :: "'w admin_deps \<Rightarrow> rat \<Rightarrow> string option \<Rightarrow> bool" where
  "expired_at d now expires_at =
     (case expires_at of None \<Rightarrow> False
      | Some t \<Rightarrow> (case ad_fromiso d t of Inl _ \<Rightarrow> True | Inr x \<Rightarrow> now \<ge> utc x))"

lemma key_id_record [simp]: "key_id (key_record kid label role active c x h) = kid"
  by (simp add: key_record_def)

lemma key_record_inject [simp]:
  "key_record kid label role active c x h = key_record kid' label' role' active' c' x' h' \<longleftrightarrow>
     kid = kid' \<and> label = label' \<and> role = role' \<and> active = active' \<and> c = c' \<and> x = x' \<and> h = h'"
  by (cases role; cases role'; cases x; cases x') (simp_all add: key_record_def json_option_def)

lemma key_ok_record [intro]: "expires_ok d x \<Longrightarrow> key_ok d (key_record kid label role active c x h)"
  by (auto simp: key_ok_def)

lemma key_record_fields [simp]:
  "json_dict_get (key_record kid label role active c x h) ''id'' v = Inr (JStr kid)"
  "json_dict_get (key_record kid label role active c x h) ''label'' v = Inr (JStr label)"
  "json_dict_get (key_record kid label role active c x h) ''role'' v = Inr (JStr (role_name role))"
  "json_dict_get (key_record kid label role active c x h) ''active'' v = Inr (JBool active)"
  "json_dict_get (key_record kid label role active c x h) ''created_at'' v = Inr (JStr c)"
  "json_dict_get (key_record kid label role active c x h) ''expires_at'' v = Inr (json_option x)"
  "json_dict_get (key_record kid label role active c x h) ''secret_sha256'' v = Inr (JStr h)"
  "json_item (key_record kid label role active c x h) ''id'' = Inr (JStr kid)"
  by (simp_all add: key_record_def dict_get_default_def)

lemma is_expired_record:
  "expires_ok d x \<Longrightarrow> is_expired d now (key_record kid label role active c x h) = Inr (expired_at d now x)"
  by (auto simp: is_expired_def expires_ok_def expired_at_def json_option_def split: option.splits)

lemma role_of_name_record [simp]: "role_of_name (lower (role_name r)) = Some r"
  by (cases r) (simp_all add: role_of_name_def lower_def lower_char_def)

lemma authenticate_record:
  "expires_ok d x \<Longrightarrow>
   authenticate_loop d now digest (key_record kid label role active c x h # records) =
     (if active \<and> \<not> expired_at d now x \<and> h = digest
      then Inr (Some \<lparr>p_key_id = kid, p_role = role, p_label = label\<rparr>)
      else authenticate_loop d now digest records)"
  by (simp add: is_expired_record)

lemma deactivate_record:
  "deactivate_loop d kid (key_record k label role active c x h # records) =
     (if k \<noteq> kid then map_sum id (\<lambda>(rs, changed). (key_record k label role active c x h # rs, changed)) (deactivate_loop d kid records)
      else Inr (key_record k label role False c x h # records, active))"
  by (simp add: key_record_def dict_get_default_def)

lemma keys_ok_simps [simp]:
  "keys_ok d []" "keys_ok d (v # vs) \<longleftrightarrow> key_ok d v \<and> key_id v \<notin> key_id ` set vs \<and> keys_ok d vs"
  by (auto simp: keys_ok_def)

lemma key_okE:
  assumes "key_ok d v"
  obtains kid label role active c x h where "v = key_record kid label role active c x h" "expires_ok d x"
  using assms by (auto simp: key_ok_def)

lemma keys_ok_append:
  "keys_ok d (xs @ ys) \<longleftrightarrow> keys_ok d xs \<and> keys_ok d ys \<and> key_id ` set xs \<inter> key_id ` set ys = {}"
  by (auto simp: keys_ok_def)

section \<open>Revocation\<close>

text \<open>
  A store of credentials that can be revoked for good: what one step keeps of the invariant and of
  a revocation, and what every run keeps.
\<close>

locale revocable = stable step inv
  for step :: "'s \<Rightarrow> 's \<Rightarrow> bool" and inv :: "'s \<Rightarrow> bool" +
  fixes revoked :: "'k \<Rightarrow> 's \<Rightarrow> bool" and admits :: "'s \<Rightarrow> 'k \<Rightarrow> bool"
  assumes revoked_step: "inv s \<Longrightarrow> revoked k s \<Longrightarrow> step s t \<Longrightarrow> revoked k t"
    and revoked_out: "inv s \<Longrightarrow> revoked k s \<Longrightarrow> \<not> admits s k"
begin

lemma revoked_steps: "step\<^sup>*\<^sup>* s t \<Longrightarrow> inv s \<Longrightarrow> revoked k s \<Longrightarrow> revoked k t"
  by (induction rule: rtranclp_induct) (auto dest: inv_steps revoked_step)

lemma never_again: "step\<^sup>*\<^sup>* s t \<Longrightarrow> inv s \<Longrightarrow> revoked k s \<Longrightarrow> \<not> admits t k"
  using inv_steps revoked_steps revoked_out by blast

end

text \<open>
  What can happen to a store: a key is created, with an identifier that is not in use, a key is
  deactivated, and the world moves on.
\<close>

inductive key_step :: "'w admin_deps \<Rightarrow> key_store \<times> 'w \<Rightarrow> key_store \<times> 'w \<Rightarrow> bool" for d where
  create: "create_key d role label ttl s = (r, t) \<Longrightarrow> distinct (map key_id (ks_keys (fst t))) \<Longrightarrow> key_step d s t"
| deactivate: "deactivate_key d kid s = (r, t) \<Longrightarrow> key_step d s t"
| elapse: "key_step d (ks, w) (ks, w')"

inductive_cases key_stepE: "key_step d s t"

definition store_ok :: "'w admin_deps \<Rightarrow> key_store \<times> 'w \<Rightarrow> bool" where
  "store_ok d s = (iso_laws d \<and> keys_ok d (ks_keys (fst s)))"

definition inactive_record :: "string \<Rightarrow> json \<Rightarrow> bool" where
  "inactive_record kid v = (\<exists>label role c x h. v = key_record kid label role False c x h)"

definition deactivated :: "string \<Rightarrow> key_store \<times> 'w \<Rightarrow> bool" where
  "deactivated kid s = list_ex (inactive_record kid) (ks_keys (fst s))"

definition admits_key :: "'w admin_deps \<Rightarrow> key_store \<times> 'w \<Rightarrow> string \<Rightarrow> bool" where
  "admits_key d s kid = (\<exists>secret p. authenticate d secret (fst s) (snd s) = Inr (Some p) \<and> p_key_id p = kid)"

lemma persist_keys_store: "persist_keys d (s, w) = (r, t) \<Longrightarrow> fst t = s"
  by (auto simp: persist_keys_def)

lemma expiry_ok: "expiry_text d ttl w = Inr x \<Longrightarrow> iso_laws d \<Longrightarrow> expires_ok d x"
  by (cases "ad_isoformat d (ad_now d w + of_int (the ttl))")
     (auto simp: expiry_text_def expires_ok_def iso_laws_def split: option.splits if_splits)

lemma new_key_record:
  assumes "new_key d role label ttl w = (Inr (c, v), w')"
  obtains tok w1 x created where "ad_token d w = (Inr tok, w1)" and "expiry_text d ttl w1 = Inr x"
    and "v = key_record (ck_id c) (if strip label = [] then ''rotated-key'' else strip label) role True created x (ad_sha256 d tok)"
    and "ck_secret c = tok" and "ck_role c = role"
  using assms by (auto simp: new_key_def and_then_cases Let_def)

lemma create_key_cases:
  obtains (failed) e w' where "create_key d role label ttl (s, w) = (Inl e, (s, w'))"
  | (stored) c v w1 r w2 where "new_key d role label ttl w = (Inr (c, v), w1)"
      and "persist_keys d (s\<lparr>ks_keys := ks_keys s @ [v]\<rparr>, w1) = (r, (s\<lparr>ks_keys := ks_keys s @ [v]\<rparr>, w2))"
      and "create_key d role label ttl (s, w) = (map_sum id (\<lambda>_. c) r, (s\<lparr>ks_keys := ks_keys s @ [v]\<rparr>, w2))"
proof (cases "new_key d role label ttl w")
  case (Pair q w1)
  show thesis
  proof (cases q)
    case (Inl e)
    with Pair show thesis by (intro failed) (simp add: create_key_def and_then_def)
  next
    case (Inr cv)
    obtain c v where cv: "cv = (c, v)" by fastforce
    obtain r w2 where p: "persist_keys d (s\<lparr>ks_keys := ks_keys s @ [v]\<rparr>, w1) = (r, (s\<lparr>ks_keys := ks_keys s @ [v]\<rparr>, w2))"
      by (metis persist_keys_store prod.collapse)
    show thesis
      by (rule stored [of c v w1 r w2]) (use Pair Inr cv p in \<open>simp_all add: create_key_def and_then_def split: sum.split\<close>)
  qed
qed

lemma create_key_store:
  assumes "create_key d role label ttl (s, w) = (r, t)" and "iso_laws d"
  shows "ks_keys (fst t) = ks_keys s \<or> (\<exists>v. key_ok d v \<and> ks_keys (fst t) = ks_keys s @ [v])"
proof (cases rule: create_key_cases [of d role label ttl s w])
  case (failed e w')
  with assms(1) show ?thesis by auto
next
  case (stored c v w1 r' w2)
  from stored(1) assms(2) have "key_ok d v"
    by (elim new_key_record) (auto dest: expiry_ok)
  with stored(3) assms(1) show ?thesis by auto
qed

lemma deactivate_loop_spec:
  assumes "keys_ok d ks"
  shows "\<exists>ks' changed. deactivate_loop d kid ks = Inr (ks', changed) \<and> keys_ok d ks' \<and> map key_id ks' = map key_id ks \<and>
    (kid \<in> key_id ` set ks \<longrightarrow> list_ex (inactive_record kid) ks') \<and>
    (\<forall>k. list_ex (inactive_record k) ks \<longrightarrow> list_ex (inactive_record k) ks') \<and>
    (changed \<longleftrightarrow> kid \<in> key_id ` set ks \<and> \<not> list_ex (inactive_record kid) ks) \<and>
    (\<not> changed \<longrightarrow> ks' = ks)"
  using assms
proof (induction ks)
  case Nil
  then show ?case by (intro exI [of _ "[]"] exI [of _ False]) simp
next
  case (Cons v ks)
  from Cons.prems obtain k label role active c x h where v: "v = key_record k label role active c x h" "expires_ok d x"
    by (auto elim: key_okE)
  have inact: "inactive_record i v \<longleftrightarrow> i = k \<and> \<not> active" for i
    by (auto simp: v inactive_record_def)
  show ?case
  proof (cases "k = kid")
    case True
    let ?v' = "key_record k label role False c x h"
    have "list_ex (inactive_record k) ks \<Longrightarrow> k \<in> key_id ` set ks"
      by (force simp: list_ex_iff inactive_record_def)
    moreover have "key_ok d ?v'" "inactive_record k ?v'" using v by (auto simp: inactive_record_def)
    moreover have "deactivate_loop d kid (v # ks) = Inr (?v' # ks, active)"
      using True by (simp add: v deactivate_record del: deactivate_loop.simps)
    ultimately show ?thesis using True Cons.prems v inact
      by (intro exI [of _ "?v' # ks"] exI [of _ active]) auto
  next
    case False
    from Cons obtain ks' ch where IH: "deactivate_loop d kid ks = Inr (ks', ch)" "keys_ok d ks'" "map key_id ks' = map key_id ks"
      "kid \<in> key_id ` set ks \<longrightarrow> list_ex (inactive_record kid) ks'"
      "\<forall>k. list_ex (inactive_record k) ks \<longrightarrow> list_ex (inactive_record k) ks'"
      "ch \<longleftrightarrow> kid \<in> key_id ` set ks \<and> \<not> list_ex (inactive_record kid) ks" "\<not> ch \<longrightarrow> ks' = ks" by auto
    have "key_id ` set ks' = key_id ` set ks" using IH(3) by (metis list.set_map)
    moreover have "deactivate_loop d kid (v # ks) = Inr (v # ks', ch)"
      using False IH(1) by (simp add: v deactivate_record del: deactivate_loop.simps)
    ultimately show ?thesis using False IH Cons.prems inact v(1)
      by (intro exI [of _ "v # ks'"] exI [of _ ch]) auto
  qed
qed

lemma deactivate_key_store:
  assumes "keys_ok d (ks_keys (fst s))" and "deactivate_key d kid s = (r, t)"
  shows "\<exists>ks' changed. deactivate_loop d kid (ks_keys (fst s)) = Inr (ks', changed) \<and> ks_keys (fst t) = ks'"
proof -
  obtain ks' ch where l: "deactivate_loop d kid (ks_keys (fst s)) = Inr (ks', ch)" "\<not> ch \<longrightarrow> ks' = ks_keys (fst s)"
    using deactivate_loop_spec [OF assms(1), of kid] by blast
  then show ?thesis using assms(2)
    by (cases s) (auto simp: deactivate_key_def and_then_cases dest!: persist_keys_store split: if_splits)
qed

lemma authenticate_loop_spec:
  assumes "list_all (key_ok d) ks"
  shows "\<exists>res. authenticate_loop d now digest ks = Inr res \<and>
    (case res of
       Some p \<Rightarrow> \<exists>c x. key_record (p_key_id p) (p_label p) (p_role p) True c x digest \<in> set ks \<and> \<not> expired_at d now x
     | None \<Rightarrow> (\<forall>kid label role c x. key_record kid label role True c x digest \<in> set ks \<longrightarrow> expired_at d now x))"
  using assms
proof (induction ks)
  case Nil
  then show ?case by simp
next
  case (Cons v ks)
  from Cons.prems obtain k label role active c x h where v: "v = key_record k label role active c x h" "expires_ok d x"
    by (auto elim: key_okE)
  from Cons obtain res where IH: "authenticate_loop d now digest ks = Inr res"
    "case res of Some p \<Rightarrow> \<exists>c x. key_record (p_key_id p) (p_label p) (p_role p) True c x digest \<in> set ks \<and> \<not> expired_at d now x
     | None \<Rightarrow> (\<forall>kid label role c x. key_record kid label role True c x digest \<in> set ks \<longrightarrow> expired_at d now x)" by auto
  show ?case
  proof (cases "active \<and> \<not> expired_at d now x \<and> h = digest")
    case True
    then show ?thesis using v by (auto simp: authenticate_record simp del: authenticate_loop.simps)
  next
    case False
    then have "authenticate_loop d now digest (v # ks) = Inr res"
      using v IH(1) by (auto simp: authenticate_record simp del: authenticate_loop.simps)
    with False IH(2) v show ?thesis by (cases res) auto
  qed
qed

lemma admitted_record:
  assumes "list_all (key_ok d) (ks_keys k)" and "authenticate d secret k w = Inr (Some p)"
  obtains c x where "key_record (p_key_id p) (p_label p) (p_role p) True c x (ad_sha256 d secret) \<in> set (ks_keys k)"
    and "\<not> expired_at d (ad_now d w) x"
  using authenticate_loop_spec [OF assms(1), of "ad_now d w" "ad_sha256 d secret"] assms(2)
  by (auto simp: authenticate_def)

lemma inactive_unique:
  assumes "distinct (map key_id ks)" and "list_ex (inactive_record kid) ks"
  shows "key_record kid label role True c x h \<notin> set ks"
proof
  assume active: "key_record kid label role True c x h \<in> set ks"
  from assms(2) obtain l' r' c' x' h' where "key_record kid l' r' False c' x' h' \<in> set ks"
    by (auto simp: list_ex_iff inactive_record_def)
  moreover have "inj_on key_id (set ks)" using assms(1) by (simp add: distinct_map)
  ultimately have "key_record kid l' r' False c' x' h' = key_record kid label role True c x h"
    using active inj_onD [of key_id "set ks" "key_record kid l' r' False c' x' h'" "key_record kid label role True c x h"]
    by simp
  then show False by simp
qed

interpretation keys: revocable "key_step d" "store_ok d" deactivated "admits_key d" for d
proof (unfold_locales, goal_cases)
  case (1 s t)
  from 1(2) show ?case
  proof cases
    case (create role label ttl r)
    with 1(1) show ?thesis using create_key_store [of d role label ttl "fst s" "snd s" r t]
      by (auto simp: store_ok_def keys_ok_def)
  next
    case (deactivate kid r)
    with 1(1) show ?thesis using deactivate_key_store [of d s kid r t] deactivate_loop_spec [of d "ks_keys (fst s)" kid]
      by (fastforce simp: store_ok_def)
  next
    case (elapse ks w w')
    with 1(1) show ?thesis by (simp add: store_ok_def)
  qed
next
  case (2 s kid t)
  from 2(3) show ?case
  proof cases
    case (create role label ttl r)
    with 2(1,2) show ?thesis using create_key_store [of d role label ttl "fst s" "snd s" r t]
      by (auto simp: store_ok_def deactivated_def)
  next
    case (deactivate i r)
    with 2(1,2) show ?thesis using deactivate_key_store [of d s i r t] deactivate_loop_spec [of d "ks_keys (fst s)" i]
      by (fastforce simp: store_ok_def deactivated_def)
  next
    case (elapse ks w w')
    with 2(2) show ?thesis by (simp add: deactivated_def)
  qed
next
  case (3 s kid)
  then show ?case
    by (auto simp: store_ok_def keys_ok_def deactivated_def admits_key_def dest!: inactive_unique elim!: admitted_record)
qed

lemma store_ok_keys: "store_ok d s \<Longrightarrow> list_all (key_ok d) (ks_keys (fst s))"
  by (simp add: store_ok_def keys_ok_def)

lemma list_key_ok: "key_ok d v \<Longrightarrow> \<exists>l. list_key d now v = Inr l"
  by (elim key_okE) (simp add: list_key_def is_expired_record)

lemma map_outcome_total: "list_all (\<lambda>x. \<exists>y. f x = Inr y) xs \<Longrightarrow> \<exists>ys. map_outcome f xs = Inr ys"
  by (induction xs) auto

section \<open>Bootstrap\<close>

lemma str_nat_inject [simp]: "str_nat m = str_nat n \<longleftrightarrow> m = n"
  by (metis nat_of_digits_str_nat)

lemma bootstrap_ids:
  "v \<in> set (bootstrap_records d now role i keys) \<Longrightarrow>
   key_ok d v \<and> (\<exists>n > i. key_id v = role_name role @ ''-bootstrap-'' @ str_nat n)"
  by (induction keys arbitrary: i) (auto simp: Let_def expires_ok_def intro!: key_ok_record split: if_splits dest: Suc_lessD)

lemma bootstrap_distinct: "distinct (map key_id (bootstrap_records d now role i keys))"
proof (induction keys arbitrary: i)
  case Nil
  then show ?case by simp
next
  case (Cons key keys)
  have "role_name role @ ''-bootstrap-'' @ str_nat (Suc i) \<notin> key_id ` set (bootstrap_records d now role (Suc i) keys)"
    using bootstrap_ids [of _ d now role "Suc i" keys] by force
  with Cons show ?case by (simp add: Let_def)
qed

lemma bootstrap_ok: "keys_ok d (bootstrap_records d now Write i ws @ bootstrap_records d now Read j rs)"
proof -
  have "keys_ok d (bootstrap_records d now role i keys)" for role i keys
    using bootstrap_ids [of _ d now role i keys] bootstrap_distinct [of d now role i keys]
    by (auto simp: keys_ok_def list_all_iff)
  moreover have "key_id ` set (bootstrap_records d now Write i ws) \<inter> key_id ` set (bootstrap_records d now Read j rs) = {}"
    using bootstrap_ids [of _ d now Write i ws] bootstrap_ids [of _ d now Read j rs] by force
  ultimately show ?thesis by (simp add: keys_ok_append)
qed

lemma new_key_store_fresh:
  assumes "new_key_store d path write_keys read_keys w = (Inr s, w')" and "\<not> ad_exists d w path"
  shows "\<exists>now. ad_isoformat d (ad_now d w) = Inr now \<and> ks_path s = path \<and>
    ks_keys s = bootstrap_records d now Write 0 write_keys @ bootstrap_records d now Read 0 read_keys"
  using assms
  by (auto simp: new_key_store_def load_or_bootstrap_def and_then_cases split: prod.splits sum.splits
      dest!: persist_keys_store)

section \<open>What is on file\<close>

definition on_file :: "'w admin_deps \<Rightarrow> key_store \<Rightarrow> 'w \<Rightarrow> bool" where
  "on_file d s w = (\<exists>v. persist_keys d (s, v) = (Inr (), (s, w)))"

lemma create_key_on_file:
  assumes "create_key d role label ttl s = (Inr c, (t, w))"
  shows "ks_path t = ks_path (fst s) \<and> on_file d t w"
proof (cases rule: create_key_cases [of d role label ttl "fst s" "snd s"])
  case (failed e w')
  with assms show ?thesis by simp
next
  case (stored c' v w1 r w2)
  with assms show ?thesis by (cases r) (auto simp: on_file_def)
qed

lemma deactivate_key_on_file:
  assumes "deactivate_key d kid s = (Inr True, (t, w))"
  shows "ks_path t = ks_path (fst s) \<and> on_file d t w"
proof -
  obtain k v where s: "s = (k, v)" by fastforce
  with assms obtain ks' where "deactivate_loop d kid (ks_keys k) = Inr (ks', True)"
    by (auto simp: deactivate_key_def split: sum.splits prod.splits if_splits)
  moreover obtain r u where p: "persist_keys d (k\<lparr>ks_keys := ks'\<rparr>, v) = (r, (k\<lparr>ks_keys := ks'\<rparr>, u))"
    by (metis persist_keys_store prod.collapse)
  ultimately have "deactivate_key d kid s = (map_sum id (\<lambda>_. True) r, (k\<lparr>ks_keys := ks'\<rparr>, u))"
    by (simp add: s deactivate_key_def and_then_def split: sum.split)
  with assms p s show ?thesis by (cases r) (auto simp: on_file_def)
qed

text \<open>The key file holds exactly the keys of the store.\<close>

definition file_holds :: "'w admin_deps \<Rightarrow> key_store \<times> 'w \<Rightarrow> bool" where
  "file_holds d s = (ad_exists d (snd s) (ks_path (fst s)) \<and> load_keys d (ks_path (fst s)) (snd s) = (Inr (ks_keys (fst s)), snd s))"

lemma on_file_holds: "writes_read_back d \<Longrightarrow> json_laws d \<Longrightarrow> on_file d (fst t) (snd t) \<Longrightarrow> file_holds d t"
proof -
  assume laws: "writes_read_back d" "json_laws d" and "on_file d (fst t) (snd t)"
  then obtain v where "ad_write d (ks_path (fst t))
      (ad_dumps d (JObj [(''version'', JInt 1), (''keys'', JList (ks_keys (fst t)))])) v = (Inr (), snd t)"
    by (auto simp: on_file_def persist_keys_def prod_eq_iff)
  then have "ad_exists d (snd t) (ks_path (fst t))"
    "ad_read d (snd t) (ks_path (fst t)) = Inr (ad_dumps d (JObj [(''version'', JInt 1), (''keys'', JList (ks_keys (fst t)))]))"
    using laws(1) unfolding writes_read_back_def by blast+
  then show ?thesis using laws(2)
    by (simp add: file_holds_def load_keys_def json_laws_def dict_get_default_def)
qed

lemma reopen:
  "file_holds d s \<Longrightarrow> new_key_store d (ks_path (fst s)) write_keys read_keys (snd s) = (Inr (fst s), snd s)"
  by (cases s) (simp add: file_holds_def new_key_store_def load_or_bootstrap_def and_then_def)

text \<open>
  The life of a key file through restarts: what happens to a store as long as every write succeeds and
  nobody else touches its file, and that the process is started again, with any configured keys.
\<close>

inductive key_life :: "'w admin_deps \<Rightarrow> key_store \<times> 'w \<Rightarrow> key_store \<times> 'w \<Rightarrow> bool" for d where
  create: "create_key d role label ttl s = (Inr c, t) \<Longrightarrow> distinct (map key_id (ks_keys (fst t))) \<Longrightarrow> key_life d s t"
| deactivate: "deactivate_key d kid s = (Inr changed, t) \<Longrightarrow> key_life d s t"
| elapse: "ad_read d w' (ks_path ks) = ad_read d w (ks_path ks) \<Longrightarrow> ad_exists d w' (ks_path ks) = ad_exists d w (ks_path ks) \<Longrightarrow>
    key_life d (ks, w) (ks, w')"
| restart: "new_key_store d (ks_path ks) write_keys read_keys w = (Inr ks', w') \<Longrightarrow> key_life d (ks, w) (ks', w')"

lemma key_life_step:
  assumes "key_life d s t" and "writes_read_back d" and "json_laws d" and "file_holds d s"
  shows "file_holds d t \<and> key_step d s t"
  using assms(1)
proof cases
  case (create role label ttl c)
  then show ?thesis using create_key_on_file [of d role label ttl s c "fst t" "snd t"] on_file_holds [OF assms(2,3)]
    by (auto intro: key_step.create)
next
  case (deactivate kid changed)
  show ?thesis
  proof (cases changed)
    case True
    with deactivate show ?thesis using deactivate_key_on_file [of d kid s "fst t" "snd t"] on_file_holds [OF assms(2,3)]
      by (auto intro: key_step.deactivate)
  next
    case False
    then have "t = s" using deactivate
      by (cases s) (auto simp: deactivate_key_def and_then_cases split: sum.splits prod.splits if_splits)
    with deactivate assms(4) show ?thesis by (auto intro: key_step.deactivate)
  qed
next
  case (elapse w' ks w)
  then show ?thesis using assms(4) by (auto simp: file_holds_def load_keys_def intro: key_step.elapse)
next
  case (restart ks write_keys read_keys w ks' w')
  then have "t = s" using reopen [OF assms(4), of write_keys read_keys] by simp
  then show ?thesis using assms(4) by (cases s) (auto intro: key_step.elapse)
qed

interpretation lives: revocable "key_life d"
    "\<lambda>s. writes_read_back d \<and> json_laws d \<and> file_holds d s \<and> store_ok d s" deactivated "admits_key d" for d
proof (unfold_locales, goal_cases)
  case (1 s t)
  then show ?case using key_life_step keys.inv_step by blast
next
  case (2 s k t)
  then show ?case using key_life_step keys.revoked_step by blast
next
  case (3 s k)
  then show ?case using keys.revoked_out by blast
qed

section \<open>A small store\<close>

definition demo_store :: key_store where
  "demo_store = \<lparr>ks_path = ''keys.json'',
     ks_keys = [key_record ''write-bootstrap-1'' ''bootstrap-write'' Write True ''0'' None ''root'',
                key_record ''write-bootstrap-3'' ''bootstrap-write'' Write True ''0'' None ''ops'']\<rparr>"

definition demo_stored :: admin_demo where
  "demo_stored = snd (snd (persist_keys demo_admin_deps (demo_store, demo_admin_world)))"

lemma demo_stored_simps [simp]: "dm_now demo_stored = 0" "dm_next demo_stored = 0"
  by (simp_all add: demo_stored_def persist_keys_def demo_admin_world_def)

lemma demo_bootstrap:
  "new_key_store demo_admin_deps ''keys.json'' [''root'', '' '', ''ops''] [] demo_admin_world = (Inr demo_store, demo_stored)"
proof -
  have s: "strip ''root'' = ''root''" "strip '' '' = []" "strip ''ops'' = ''ops''"
    by (simp_all add: strip_def lstrip_def rstrip_chars_def is_space_def)
  have n: "str_nat 1 = ''1''" "str_nat 3 = ''3''" "str_nat 0 = ''0''"
    by code_simp+
  have "bootstrap_records demo_admin_deps ''0'' Write 0 [''root'', '' '', ''ops''] = ks_keys demo_store"
    using n by (simp add: s Let_def demo_store_def numeral_3_eq_3 [symmetric])
  moreover have "ad_isoformat demo_admin_deps 0 = Inr ''0''"
    using demo_admin_simps(11) [of 0] n(3) by simp
  ultimately show ?thesis
    by (simp add: new_key_store_def load_or_bootstrap_def and_then_def demo_stored_def demo_store_def
        demo_admin_world_def persist_keys_def split_beta)
qed

lemma demo_store_ok: "store_ok demo_admin_deps (demo_store, w)"
  by (auto simp: store_ok_def demo_iso_laws demo_store_def expires_ok_def)

section \<open>Properties\<close>

lemma checks_total:
  assumes "store_ok d t"
  shows "\<exists>res. authenticate d secret (fst t) v = Inr res" and "\<exists>l. list_keys d (fst t) v = Inr l"
proof -
  show "\<exists>l. list_keys d (fst t) v = Inr l"
    unfolding list_keys_def using store_ok_keys [OF assms]
    by (intro map_outcome_total) (auto simp: list_all_iff intro: list_key_ok)
  show "\<exists>res. authenticate d secret (fst t) v = Inr res"
    using authenticate_loop_spec [OF store_ok_keys [OF assms]] unfolding authenticate_def by blast
qed

lemma deactivate_revokes:
  assumes "store_ok d s" and "deactivate_key d kid s = (r, t)"
  shows "kid \<in> key_id ` set (ks_keys (fst s)) \<Longrightarrow> deactivated kid t" and "r = Inr True \<Longrightarrow> deactivated kid t"
proof -
  from assms(1) have ok: "keys_ok d (ks_keys (fst s))" by (simp add: store_ok_def)
  then show d: "kid \<in> key_id ` set (ks_keys (fst s)) \<Longrightarrow> deactivated kid t"
    using deactivate_key_store [OF ok assms(2)] deactivate_loop_spec [OF ok, of kid] by (fastforce simp: deactivated_def)
  assume "r = Inr True"
  with assms(2) obtain ks' where "deactivate_loop d kid (ks_keys (fst s)) = Inr (ks', True)"
    by (auto simp: deactivate_key_def split: sum.splits if_splits prod.splits)
  with deactivate_loop_spec [OF ok, of kid] d show "deactivated kid t" by auto
qed

text \<open>
  C32. A key store that was bootstrapped stays well typed whatever keys are created and deactivated
  afterwards and whatever time passes: identifiers are distinct, every record has a known role and a
  readable expiry, so that authenticating and listing never raise, and deactivating a key raises
  only what writing the file raises.
\<close>

theorem key_store_sound:
  assumes "iso_laws d" and "new_key_store d path write_keys read_keys w = (Inr s, w')" and "\<not> ad_exists d w path"
    and "(key_step d)\<^sup>*\<^sup>* (s, w') t"
  shows "keys_ok d (ks_keys (fst t)) \<and> (\<exists>res. authenticate d secret (fst t) v = Inr res) \<and>
    (\<exists>l. list_keys d (fst t) v = Inr l) \<and>
    (\<exists>ks. fst (deactivate_key d kid t) \<in> {Inr True, Inr False, map_sum id (\<lambda>_. True) (fst (persist_keys d (ks, snd t)))})"
proof -
  have "store_ok d (s, w')"
    using new_key_store_fresh [OF assms(2,3)] assms(1) bootstrap_ok by (fastforce simp: store_ok_def)
  then have ok: "store_ok d t" using keys.inv_steps [OF assms(4)] by simp
  obtain ks' ch where "deactivate_loop d kid (ks_keys (fst t)) = Inr (ks', ch)"
    using deactivate_loop_spec ok unfolding store_ok_def by blast
  then have "fst (deactivate_key d kid t) \<in>
      {Inr False, map_sum id (\<lambda>_. True) (fst (persist_keys d ((fst t)\<lparr>ks_keys := ks'\<rparr>, snd t)))}"
    by (cases t; cases ch; cases "persist_keys d ((fst t)\<lparr>ks_keys := ks'\<rparr>, snd t)")
       (auto simp: deactivate_key_def and_then_def split: sum.splits)
  with ok checks_total [OF ok] show ?thesis by (auto simp: store_ok_def)
qed

theorem key_store_sound_witness:
  "keys_ok demo_admin_deps (ks_keys demo_store) \<and> (\<exists>l. list_keys demo_admin_deps demo_store demo_stored = Inr l)"
  using key_store_sound [OF demo_iso_laws demo_bootstrap _ rtranclp.rtrancl_refl, of "[]" demo_stored "[]"]
  by (simp add: demo_admin_world_def)

text \<open>
  C11. Deactivation and its reach: once \<open>deactivate_key\<close> has run for a key of the store, the running process never again
  authenticates any secret as that key, whatever is created, deactivated or waited for, even when
  writing the file failed. When it answered success, the same holds through any number of restarts,
  whatever keys they are configured with, as long as later writes succeed and nobody else changes the
  file. When the write failed and left the file as it was, the next start loads the key as it was before,
  active if it was active.
\<close>

theorem deactivated_never_admitted:
  assumes "store_ok d s" and "kid \<in> key_id ` set (ks_keys (fst s))" and "deactivate_key d kid s = (r, t)"
  shows "(\<forall>u secret p. (key_step d)\<^sup>*\<^sup>* t u \<and> authenticate d secret (fst u) (snd u) = Inr (Some p) \<longrightarrow> p_key_id p \<noteq> kid) \<and>
    (r = Inr True \<and> writes_read_back d \<and> json_laws d \<longrightarrow>
       (\<forall>u secret p. (key_life d)\<^sup>*\<^sup>* t u \<and> authenticate d secret (fst u) (snd u) = Inr (Some p) \<longrightarrow> p_key_id p \<noteq> kid)) \<and>
    (\<forall>e write_keys read_keys. r = Inl e \<and> file_holds d (fst s, snd t) \<longrightarrow>
       new_key_store d (ks_path (fst s)) write_keys read_keys (snd t) = (Inr (fst s), snd t))"
proof (intro conjI)
  have t: "store_ok d t" by (rule keys.inv_step [OF assms(1) key_step.deactivate [OF assms(3)]])
  have gone: "deactivated kid t" by (rule deactivate_revokes(1) [OF assms(1,3,2)])
  show "\<forall>u secret p. (key_step d)\<^sup>*\<^sup>* t u \<and> authenticate d secret (fst u) (snd u) = Inr (Some p) \<longrightarrow> p_key_id p \<noteq> kid"
    using keys.never_again [OF _ t gone] unfolding admits_key_def by blast
  show "r = Inr True \<and> writes_read_back d \<and> json_laws d \<longrightarrow>
      (\<forall>u secret p. (key_life d)\<^sup>*\<^sup>* t u \<and> authenticate d secret (fst u) (snd u) = Inr (Some p) \<longrightarrow> p_key_id p \<noteq> kid)"
  proof (intro impI)
    assume h: "r = Inr True \<and> writes_read_back d \<and> json_laws d"
    then have "file_holds d t" using deactivate_key_on_file [of d kid s "fst t" "snd t"] on_file_holds [of d] assms(3) by auto
    then show "\<forall>u secret p. (key_life d)\<^sup>*\<^sup>* t u \<and> authenticate d secret (fst u) (snd u) = Inr (Some p) \<longrightarrow> p_key_id p \<noteq> kid"
      using lives.never_again [OF _ _ gone] t h unfolding admits_key_def by blast
  qed
  show "\<forall>e write_keys read_keys. r = Inl e \<and> file_holds d (fst s, snd t) \<longrightarrow>
      new_key_store d (ks_path (fst s)) write_keys read_keys (snd t) = (Inr (fst s), snd t)"
    using reopen by fastforce
qed

definition demo_after :: "key_store \<times> admin_demo" where
  "demo_after = snd (deactivate_key demo_admin_deps ''write-bootstrap-1'' (demo_store, demo_stored))"

theorem deactivated_never_admitted_witness:
  "new_key_store demo_admin_deps ''keys.json'' [''root''] [] (snd demo_after) = (Inr (fst demo_after), snd demo_after) \<and>
   (\<exists>p. authenticate demo_admin_deps ''ops'' (fst demo_after) (snd demo_after) = Inr (Some p) \<and>
     p_key_id p \<noteq> ''write-bootstrap-1'')"
proof -
  let ?p = "\<lparr>p_key_id = ''write-bootstrap-3'', p_role = Write, p_label = ''bootstrap-write''\<rparr>"
  have d: "deactivate_key demo_admin_deps ''write-bootstrap-1'' (demo_store, demo_stored) = (Inr True, demo_after)"
    by (simp add: demo_after_def deactivate_key_def demo_store_def deactivate_record persist_keys_def and_then_def
        del: deactivate_loop.simps)
  have a: "authenticate demo_admin_deps ''ops'' (fst demo_after) (snd demo_after) = Inr (Some ?p)"
    by (simp add: demo_after_def deactivate_key_def demo_store_def deactivate_record persist_keys_def and_then_def
        authenticate_def authenticate_record expires_ok_def expired_at_def del: deactivate_loop.simps authenticate_loop.simps)
  have "ks_path (fst demo_after) = ''keys.json''" "file_holds demo_admin_deps demo_after"
    using deactivate_key_on_file [of demo_admin_deps "''write-bootstrap-1''" "(demo_store, demo_stored)" "fst demo_after" "snd demo_after"]
      d on_file_holds [OF file_laws_read_back [OF demo_file_laws] demo_json_laws] by (simp_all add: demo_store_def)
  with reopen [of demo_admin_deps demo_after "[''root'']" "[]"]
  have start: "new_key_store demo_admin_deps ''keys.json'' [''root''] [] (snd demo_after) = (Inr (fst demo_after), snd demo_after)"
    and path: "ks_path (fst demo_after) = ''keys.json''" by simp_all
  have "(key_life demo_admin_deps)\<^sup>*\<^sup>* demo_after demo_after"
    using key_life.restart [of demo_admin_deps "fst demo_after" "[''root'']" "[]" "snd demo_after"] start path
    by (metis prod.collapse r_into_rtranclp)
  moreover have "''write-bootstrap-1'' \<in> key_id ` set (ks_keys (fst (demo_store, demo_stored)))" by (simp add: demo_store_def)
  ultimately have "p_key_id ?p \<noteq> ''write-bootstrap-1''"
    using deactivated_never_admitted [OF demo_store_ok _ d] file_laws_read_back [OF demo_file_laws] demo_json_laws a by blast
  with a start show ?thesis by blast
qed

text \<open>
  C37. A created key admits its secret, with its role, exactly until it expires: when no other
  record has the digest of the new secret, then at any later time the secret is
  authenticated if no positive life time was given or the life time has not passed, and refused otherwise.
\<close>

theorem created_key_lifetime:
  assumes "store_ok d (s, w)" and "create_key d role label ttl (s, w) = (Inr c, (t, w'))"
    and "list_all (\<lambda>v. json_dict_get v ''secret_sha256'' JNull \<noteq> Inr (JStr (ad_sha256 d (ck_secret c)))) (ks_keys s)"
  shows "authenticate d (ck_secret c) t v =
    Inr (if (case ttl of Some n \<Rightarrow> n > 0 \<and> ad_now d v \<ge> ad_now d (snd (ad_token d w)) + of_int n | None \<Rightarrow> False)
         then None
         else Some \<lparr>p_key_id = ck_id c, p_role = role,
                    p_label = if strip label = [] then ''rotated-key'' else strip label\<rparr>)"
proof -
  have "list_all (key_ok d) ks \<Longrightarrow>
      list_all (\<lambda>v. json_dict_get v ''secret_sha256'' JNull \<noteq> Inr (JStr h)) ks \<Longrightarrow>
      authenticate_loop d now h (ks @ vs) = authenticate_loop d now h vs" for ks h now vs
    by (induction ks) (auto elim!: key_okE simp: authenticate_record simp del: authenticate_loop.simps(2))
  note skip = this [OF store_ok_keys [OF assms(1), unfolded fst_conv] assms(3)]
  from assms(2) obtain v1 w1 where n: "new_key d role label ttl w = (Inr (c, v1), w1)" and t: "ks_keys t = ks_keys s @ [v1]"
    by (cases rule: create_key_cases [of d role label ttl s w]) (auto simp: map_sum_def split: sum.splits)
  obtain tok w2 x created where x: "ad_token d w = (Inr tok, w2)" "expiry_text d ttl w2 = Inr x" "ck_secret c = tok"
    "v1 = key_record (ck_id c) (if strip label = [] then ''rotated-key'' else strip label) role True created x (ad_sha256 d tok)"
    using n by (elim new_key_record) blast
  have iso: "iso_laws d" using assms(1) by (simp add: store_ok_def)
  have e: "expires_ok d x" by (rule expiry_ok [OF x(2) iso])
  have "authenticate d (ck_secret c) t v = Inr (if expired_at d (ad_now d v) x then None
      else Some \<lparr>p_key_id = ck_id c, p_role = role, p_label = if strip label = [] then ''rotated-key'' else strip label\<rparr>)"
    using skip e by (simp add: authenticate_def t x(3,4) authenticate_record del: authenticate_loop.simps(2))
  moreover have "expired_at d (ad_now d v) x \<longleftrightarrow>
      (case ttl of Some n \<Rightarrow> n > 0 \<and> ad_now d v \<ge> ad_now d w2 + of_int n | None \<Rightarrow> False)"
    using x(2) iso by (cases "ad_isoformat d (ad_now d w2 + of_int (the ttl))")
      (auto simp: expiry_text_def expired_at_def iso_laws_def split: option.splits if_splits)
  ultimately show ?thesis using x(1) by (simp split: option.splits)
qed

definition demo_created :: "created_key outcome \<times> key_store \<times> admin_demo" where
  "demo_created = create_key demo_admin_deps Read ''ci'' (Some 300) (demo_store, demo_stored)"

lemma demo_created_simps:
  "demo_created = (Inr \<lparr>ck_id = ''key-1'', ck_role = Read, ck_secret = ''tok0'', ck_expires_at = ''300''\<rparr>, snd demo_created)"
proof -
  have "str_nat 300 = ''300''" "str_nat 1 = ''1''" "str_nat 0 = ''0''" by code_simp+
  moreover have "ad_isoformat demo_admin_deps 300 = Inr (str_nat 300)" "ad_isoformat demo_admin_deps 0 = Inr (str_nat 0)"
    using demo_admin_simps(11) [of 300] demo_admin_simps(11) [of 0] by simp_all
  ultimately show ?thesis
    by (simp add: demo_created_def create_key_def new_key_def expiry_text_def and_then_def persist_keys_def Let_def)
qed

theorem created_key_lifetime_witness:
  "authenticate demo_admin_deps ''tok0'' (fst (snd demo_created)) (demo_admin_world\<lparr>dm_now := 299\<rparr>) =
     Inr (Some \<lparr>p_key_id = ''key-1'', p_role = Read, p_label = ''ci''\<rparr>) \<and>
   authenticate demo_admin_deps ''tok0'' (fst (snd demo_created)) (demo_admin_world\<lparr>dm_now := 300\<rparr>) = Inr None"
proof -
  have c: "create_key demo_admin_deps Read ''ci'' (Some 300) (demo_store, demo_stored) =
      (Inr \<lparr>ck_id = ''key-1'', ck_role = Read, ck_secret = ''tok0'', ck_expires_at = ''300''\<rparr>, fst (snd demo_created), snd (snd demo_created))"
    using demo_created_simps by (simp add: demo_created_def)
  have s: "strip ''ci'' = ''ci''" by (simp add: strip_def lstrip_def rstrip_chars_def is_space_def)
  show ?thesis
    using created_key_lifetime [OF demo_store_ok c, of "demo_admin_world\<lparr>dm_now := 299\<rparr>"]
      created_key_lifetime [OF demo_store_ok c, of "demo_admin_world\<lparr>dm_now := 300\<rparr>"]
    by (simp add: demo_store_def s)
qed

text \<open>
  What was changed survives a restart: after a key was created or deactivated, a store opened on
  the same file has exactly the keys of the running one, whatever bootstrap keys it is given.
\<close>

theorem key_store_persisted:
  assumes "file_laws d" and "json_laws d"
    and "create_key d role label ttl s = (Inr c, (t, w)) \<or> deactivate_key d kid s = (Inr True, (t, w))"
  shows "new_key_store d (ks_path (fst s)) write_keys read_keys w = (Inr t, w)"
proof -
  have "ks_path t = ks_path (fst s) \<and> on_file d t w"
    using assms(3) by (elim disjE) (erule create_key_on_file, erule deactivate_key_on_file)
  then show ?thesis
    using reopen [of d "(t, w)"] on_file_holds [OF file_laws_read_back [OF assms(1)] assms(2), of "(t, w)"] by simp
qed

theorem key_store_persisted_witness:
  "new_key_store demo_admin_deps ''keys.json'' [''root''] [] (snd demo_after) = (Inr (fst demo_after), snd demo_after)"
proof -
  have d: "deactivate_key demo_admin_deps ''write-bootstrap-1'' (demo_store, demo_stored) = (Inr True, (fst demo_after, snd demo_after))"
    by (simp add: demo_after_def deactivate_key_def demo_store_def deactivate_record persist_keys_def and_then_def
        del: deactivate_loop.simps)
  show ?thesis
    using key_store_persisted [OF demo_file_laws demo_json_laws disjI2 [OF d], of "[''root'']" "[]"]
    by (simp add: demo_store_def)
qed

end
