(* ===== verification/AdminHistory.thy ===== *)
theory AdminHistory
  imports AdminWorld
begin

text \<open>
  The route history of \<open>admin/history.py\<close> and the audit log of \<open>admin/audit.py\<close>: entries
  are decoded JSON objects, the file keeps the last \<open>max_entries\<close> of them while the list in
  memory grows until the next start.
\<close>

section \<open>Operations\<close>

record history_store =
  hs_path :: string
  hs_max_entries :: int
  hs_entries :: "json list"

text \<open>\<open>xs[-n:]\<close>: a positive \<open>n\<close> keeps the last ones, 0 keeps all, a negative one drops from the front.\<close>

definition slice_tail :: "int \<Rightarrow> 'a list \<Rightarrow> 'a list" where
  "slice_tail n xs = (if n > 0 then drop (length xs - nat n) xs else drop (nat (- n)) xs)"

definition load_entries :: "'w admin_deps \<Rightarrow> string \<Rightarrow> 'w \<Rightarrow> json list outcome" where
  "load_entries d path w =
     (if \<not> ad_exists d w path then Inr []
      else bind_outcome (ad_read d w path) (\<lambda>text.
           bind_outcome (ad_loads d text) (\<lambda>loaded.
           bind_outcome (json_dict_get loaded ''entries'' (JList [])) iter_json)))"

definition new_history_store :: "'w admin_deps \<Rightarrow> string \<Rightarrow> int \<Rightarrow> 'w \<Rightarrow> history_store outcome" where
  "new_history_store d path max_entries w =
     map_sum id (\<lambda>es. \<lparr>hs_path = path, hs_max_entries = max_entries, hs_entries = es\<rparr>) (load_entries d path w)"

definition persist_history :: "'w admin_deps \<Rightarrow> (history_store \<times> 'w, unit) act" where
  "persist_history d sw =
     beside (ad_write d (hs_path (fst sw))
       (ad_dumps d (JObj [(''version'', JInt 1),
          (''entries'', JList (slice_tail (hs_max_entries (fst sw)) (hs_entries (fst sw))))]))) sw"

definition history_entry :: "string \<Rightarrow> string \<Rightarrow> string \<Rightarrow> string \<Rightarrow> string \<Rightarrow> string \<Rightarrow> json \<Rightarrow> json \<Rightarrow> string \<Rightarrow> json" where
  "history_entry eid timestamp action rid actor_key_id actor_role before after note =
     JObj [(''id'', JStr eid), (''timestamp'', JStr timestamp), (''action'', JStr action),
       (''route_id'', JStr rid), (''actor_key_id'', JStr actor_key_id), (''actor_role'', JStr actor_role),
       (''before'', before), (''after'', after), (''note'', JStr note)]"

definition new_entry :: "'w admin_deps \<Rightarrow> string \<Rightarrow> string \<Rightarrow> string \<Rightarrow> string \<Rightarrow> json \<Rightarrow> json \<Rightarrow> string \<Rightarrow>
    ('w, json) act" where
  "new_entry d action rid actor_key_id actor_role before after note =
     and_then (ad_uuid_hex d) (\<lambda>hex.
     and_then (reading (\<lambda>w. ad_isoformat d (ad_now d w))) (\<lambda>timestamp.
     ret (history_entry (''hist-'' @ take 12 hex) timestamp action rid actor_key_id actor_role before after note)))"

definition append_entry :: "'w admin_deps \<Rightarrow> string \<Rightarrow> string \<Rightarrow> string \<Rightarrow> string \<Rightarrow> json \<Rightarrow> json \<Rightarrow> string \<Rightarrow>
    (history_store \<times> 'w, json) act" where
  "append_entry d action rid actor_key_id actor_role before after note =
     and_then (beside (new_entry d action rid actor_key_id actor_role before after note)) (\<lambda>entry.
     and_then (modify (\<lambda>s. s\<lparr>hs_entries := hs_entries s @ [entry]\<rparr>)) (\<lambda>_.
     and_then (persist_history d) (\<lambda>_. ret entry)))"

definition list_entries :: "int \<Rightarrow> history_store \<Rightarrow> json list" where
  "list_entries limit s = rev (slice_tail (max 1 (min limit (hs_max_entries s))) (hs_entries s))"

fun find_entry_loop :: "'w admin_deps \<Rightarrow> string \<Rightarrow> json list \<Rightarrow> json option outcome" where
  "find_entry_loop d entry_id [] = Inr None"
| "find_entry_loop d entry_id (entry # entries) =
     bind_outcome (json_dict_get entry ''id'' JNull) (\<lambda>eid.
       if py_str (ad_repr d) eid = entry_id then Inr (Some entry) else find_entry_loop d entry_id entries)"

definition find_entry :: "'w admin_deps \<Rightarrow> string \<Rightarrow> history_store \<Rightarrow> json option outcome" where
  "find_entry d entry_id s = find_entry_loop d entry_id (hs_entries s)"

section \<open>Audit log\<close>

definition audit_log :: "'w admin_deps \<Rightarrow> string \<Rightarrow> (string, json) dict \<Rightarrow> ('w, unit) act" where
  "audit_log d path event =
     and_then (reading (\<lambda>w. ad_isoformat d (ad_now d w))) (\<lambda>timestamp.
     ad_append d path (ad_line d (JObj (dict_of ((''timestamp'', JStr timestamp) # event))) @ [CHR 0x0A]))"

section \<open>Lemmas\<close>

lemma slice_tail_rev: "n > 0 \<Longrightarrow> slice_tail n xs = rev (take (nat n) (rev xs))"
  by (simp add: slice_tail_def take_rev)

lemma length_slice_tail: "n > 0 \<Longrightarrow> length (slice_tail n xs) = min (nat n) (length xs)"
  by (simp add: slice_tail_rev)

lemma slice_tail_slice_tail: "0 < m \<Longrightarrow> m \<le> n \<Longrightarrow> slice_tail m (slice_tail n xs) = slice_tail m xs"
  by (simp add: slice_tail_rev min_def)

lemma slice_tail_snoc: "n > 0 \<Longrightarrow> \<exists>zs. slice_tail n (xs @ [x]) = zs @ [x]"
  by (cases "nat n") (simp_all add: slice_tail_rev)

lemma persist_history_store: "persist_history d (s, w) = (r, t) \<Longrightarrow> fst t = s"
  by (auto simp: persist_history_def)

lemma append_entry_Inr:
  assumes "append_entry d action rid kid role before after note (s, w) = (Inr entry, (t, w'))"
  obtains v where "new_entry d action rid kid role before after note w = (Inr entry, v)"
    and "t = s\<lparr>hs_entries := hs_entries s @ [entry]\<rparr>" and "persist_history d (t, v) = (Inr (), (t, w'))"
proof -
  from assms obtain v where n: "new_entry d action rid kid role before after note w = (Inr entry, v)"
    by (cases "new_entry d action rid kid role before after note w"; cases "fst (new_entry d action rid kid role before after note w)")
       (auto simp: append_entry_def and_then_cases)
  let ?t = "s\<lparr>hs_entries := hs_entries s @ [entry]\<rparr>"
  obtain r u where p: "persist_history d (?t, v) = (r, (?t, u))"
    by (metis persist_history_store prod.collapse)
  with n have "append_entry d action rid kid role before after note (s, w) = (map_sum id (\<lambda>_. entry) r, (?t, u))"
    by (simp add: append_entry_def and_then_def split: sum.split)
  with assms p n show thesis by (cases r) (auto intro!: that)
qed

section \<open>Properties\<close>

text \<open>
  C38. A restart shows the same history: after a change was recorded, a store opened on the same file
  lists for every limit what the running one lists, the newest entry first and never more than the
  limit or \<open>max_entries\<close>, and holds the last \<open>max_entries\<close> of its entries.
\<close>

theorem history_survives_restart:
  assumes "file_laws d" and "json_laws d" and "hs_max_entries (fst s) \<ge> 1"
    and "append_entry d action rid kid role before after note s = (Inr entry, (t, w))"
  shows "\<exists>u. new_history_store d (hs_path (fst s)) (hs_max_entries (fst s)) w = Inr u \<and>
    hs_entries u = slice_tail (hs_max_entries (fst s)) (hs_entries t) \<and>
    list_entries limit u = list_entries limit t \<and> hd (list_entries limit t) = entry \<and>
    int (length (list_entries limit t)) \<le> max 1 (min limit (hs_max_entries (fst s)))"
proof -
  obtain k v0 where s: "s = (k, v0)" by fastforce
  from assms(4) s obtain v where t: "t = k\<lparr>hs_entries := hs_entries k @ [entry]\<rparr>"
    and p: "persist_history d (t, v) = (Inr (), (t, w))" by (auto elim: append_entry_Inr)
  let ?es = "slice_tail (hs_max_entries k) (hs_entries t)"
  have "ad_write d (hs_path t) (ad_dumps d (JObj [(''version'', JInt 1),
      (''entries'', JList (slice_tail (hs_max_entries t) (hs_entries t)))])) v = (Inr (), w)"
    using p by (auto simp: persist_history_def prod_eq_iff)
  then have f: "ad_exists d w (hs_path t)" "ad_read d w (hs_path t) = Inr (ad_dumps d (JObj [(''version'', JInt 1),
      (''entries'', JList (slice_tail (hs_max_entries t) (hs_entries t)))]))"
    using assms(1) unfolding file_laws_def by (metis prod.inject)+
  then have "new_history_store d (hs_path k) (hs_max_entries k) w =
      Inr \<lparr>hs_path = hs_path k, hs_max_entries = hs_max_entries k, hs_entries = ?es\<rparr>"
    using assms(2) by (simp add: new_history_store_def load_entries_def json_laws_def dict_get_default_def t)
  moreover have "list_entries limit \<lparr>hs_path = hs_path k, hs_max_entries = hs_max_entries k, hs_entries = ?es\<rparr> = list_entries limit t"
    using assms(3) s by (simp add: list_entries_def t slice_tail_slice_tail)
  moreover obtain zs where "slice_tail (max 1 (min limit (hs_max_entries k))) (hs_entries t) = zs @ [entry]"
    using slice_tail_snoc [of "max 1 (min limit (hs_max_entries k))" "hs_entries k" entry] t
    by (auto simp: less_max_iff_disj)
  moreover have "length (slice_tail (max 1 (min limit (hs_max_entries k))) (hs_entries t)) \<le> nat (max 1 (min limit (hs_max_entries k)))"
    by (simp add: length_slice_tail)
  ultimately show ?thesis using s by (auto simp: list_entries_def t)
qed

definition demo_history :: history_store where
  "demo_history = \<lparr>hs_path = ''history.json'', hs_max_entries = 1, hs_entries = [JNull]\<rparr>"

theorem history_survives_restart_witness:
  "\<exists>u entry. new_history_store demo_admin_deps ''history.json'' 1
     (snd (snd (append_entry demo_admin_deps ''create'' ''users'' ''k'' ''write'' JNull (JObj []) [] (demo_history, demo_admin_world)))) = Inr u \<and>
     list_entries 30 u = [entry]"
proof -
  obtain entry t w where a: "append_entry demo_admin_deps ''create'' ''users'' ''k'' ''write'' JNull (JObj []) []
      (demo_history, demo_admin_world) = (Inr entry, (t, w))"
    using demo_admin_simps(11) [of 0]
    by (simp add: append_entry_def new_entry_def and_then_def Let_def persist_history_def demo_admin_world_def)
  have "hs_max_entries (fst (demo_history, demo_admin_world)) \<ge> 1" by (simp add: demo_history_def)
  from history_survives_restart [OF demo_file_laws demo_json_laws this a, of 30] obtain u where
    u: "new_history_store demo_admin_deps ''history.json'' 1 w = Inr u" "list_entries 30 u = list_entries 30 t"
    "hd (list_entries 30 t) = entry" "int (length (list_entries 30 t)) \<le> 1"
    by (auto simp: demo_history_def)
  have "list_entries 30 t \<noteq> []" using a
    by (auto simp: list_entries_def slice_tail_def demo_history_def elim!: append_entry_Inr)
  with u have "list_entries 30 u = [entry]" by (cases "list_entries 30 t") auto
  with u(1) a show ?thesis by auto
qed

end
