(* ===== verification/AdminAccess.thy ===== *)
theory AdminAccess
  imports AdminWorld
begin

text \<open>
  Who may call the admin API and how often, from the top of \<open>admin/app.py\<close>: the sliding window of
  write actions, comma separated settings, the client address and the address allow list. Addresses
  and networks are those of Python's \<open>ipaddress\<close>: IPv4 text is parsed here, the text of an IPv6
  address is an argument.
\<close>

section \<open>Write action limiter\<close>

record write_limiter =
  wl_limit :: int
  wl_window :: rat
  wl_events :: "(string, rat list) dict"

definition new_write_limiter :: "int \<Rightarrow> write_limiter" where
  "new_write_limiter limit_per_minute = \<lparr>wl_limit = limit_per_minute, wl_window = 60, wl_events = []\<rparr>"

text \<open>\<open>allow\<close> at the time \<open>now\<close> of the monotonic clock.\<close>

definition allow_write :: "rat \<Rightarrow> string \<Rightarrow> write_limiter \<Rightarrow> bool \<times> write_limiter" where
  "allow_write now bucket l =
     (if wl_limit l \<le> 0 then (True, l)
      else (let slots = dropWhile (\<lambda>t. now - t \<ge> wl_window l) (dict_get_default (wl_events l) bucket [])
            in if int (length slots) \<ge> wl_limit l then (False, l\<lparr>wl_events := dict_set bucket slots (wl_events l)\<rparr>)
               else (True, l\<lparr>wl_events := dict_set bucket (slots @ [now]) (wl_events l)\<rparr>)))"

section \<open>Settings and client address\<close>

definition parse_csv_keys :: "string \<Rightarrow> string list" where
  "parse_csv_keys raw = map strip (filter (\<lambda>token. strip token \<noteq> []) (split_on (CHR '','') raw))"

definition extract_client_ip :: "request \<Rightarrow> bool \<Rightarrow> string" where
  "extract_client_ip r trust_proxy_headers =
     (let peer = (case rq_client r of Some (host, _) \<Rightarrow> host | None \<Rightarrow> []);
          first_hop = strip (hd (split_on (CHR '','') (header_or r ''x-forwarded-for'' [])))
      in if trust_proxy_headers \<and> header_or r ''x-forwarded-for'' [] \<noteq> [] \<and> first_hop \<noteq> [] then first_hop else peer)"

section \<open>Addresses and networks\<close>

datatype ip_version = IPv4 | IPv6

type_synonym address = "ip_version \<times> nat"

fun ip_bits :: "ip_version \<Rightarrow> nat" where
  "ip_bits IPv4 = 32"
| "ip_bits IPv6 = 128"

definition parse_octet :: "string \<Rightarrow> nat option" where
  "parse_octet s =
     (if s \<noteq> [] \<and> list_all is_digit s \<and> length s \<le> 3 \<and> (s = ''0'' \<or> hd s \<noteq> CHR ''0'') \<and> nat_of_digits s \<le> 255
      then Some (nat_of_digits s) else None)"

definition parse_ipv4 :: "string \<Rightarrow> nat option" where
  "parse_ipv4 s =
     (case map parse_octet (split_on (CHR ''.'') s) of
        [Some a, Some b, Some c, Some e] \<Rightarrow> Some (((a * 256 + b) * 256 + c) * 256 + e)
      | _ \<Rightarrow> None)"

definition ip_address :: "(string \<Rightarrow> nat option) \<Rightarrow> string \<Rightarrow> address option" where
  "ip_address parse_ipv6 s =
     (case parse_ipv4 s of
        Some a \<Rightarrow> Some (IPv4, a)
      | None \<Rightarrow> map_option (Pair IPv6) (parse_ipv6 s))"

text \<open>A prefix length, or for IPv4 a netmask or else a hostmask.\<close>

definition prefix_of_mask :: "nat \<Rightarrow> nat option" where
  "prefix_of_mask m =
     (case find (\<lambda>p. m = 2 ^ 32 - 2 ^ (32 - p)) [0..<33] of
        Some p \<Rightarrow> Some p
      | None \<Rightarrow> find (\<lambda>p. m = 2 ^ (32 - p) - 1) [0..<33])"

definition parse_prefix :: "ip_version \<Rightarrow> string \<Rightarrow> nat option" where
  "parse_prefix v s =
     (if s \<noteq> [] \<and> list_all is_digit s \<and> nat_of_digits s \<le> ip_bits v then Some (nat_of_digits s)
      else if v = IPv4 then Option.bind (parse_ipv4 s) prefix_of_mask else None)"

record network =
  nw_version :: ip_version
  nw_address :: nat
  nw_prefix :: nat

definition mask_host :: "ip_version \<Rightarrow> nat \<Rightarrow> nat \<Rightarrow> nat" where
  "mask_host v p a = (a div 2 ^ (ip_bits v - p)) * 2 ^ (ip_bits v - p)"

definition make_network :: "ip_version \<Rightarrow> (string \<Rightarrow> nat option) \<Rightarrow> string \<Rightarrow> network option" where
  "make_network v parse s =
     (case split_on (CHR ''/'') s of
        [a] \<Rightarrow> map_option (\<lambda>n. \<lparr>nw_version = v, nw_address = n, nw_prefix = ip_bits v\<rparr>) (parse a)
      | [a, p] \<Rightarrow>
          (case (parse a, parse_prefix v p) of
             (Some n, Some p) \<Rightarrow> Some \<lparr>nw_version = v, nw_address = mask_host v p n, nw_prefix = p\<rparr>
           | _ \<Rightarrow> None)
      | _ \<Rightarrow> None)"

definition ip_network :: "(string \<Rightarrow> nat option) \<Rightarrow> string \<Rightarrow> network option" where
  "ip_network parse_ipv6 s =
     (case make_network IPv4 parse_ipv4 s of Some n \<Rightarrow> Some n | None \<Rightarrow> make_network IPv6 parse_ipv6 s)"

definition in_network :: "address \<Rightarrow> network \<Rightarrow> bool" where
  "in_network a n = (fst a = nw_version n \<and> mask_host (nw_version n) (nw_prefix n) (snd a) = nw_address n)"

fun parse_networks :: "(string \<Rightarrow> nat option) \<Rightarrow> string list \<Rightarrow> network list outcome" where
  "parse_networks parse_ipv6 [] = Inr []"
| "parse_networks parse_ipv6 (token # tokens) =
     (case ip_network parse_ipv6 token of
        None \<Rightarrow> Inl (ValueError (''Invalid ADMIN__ALLOWED_IPS entry: '' @ [CHR 0x27] @ token @ [CHR 0x27]))
      | Some n \<Rightarrow> map_sum id ((#) n) (parse_networks parse_ipv6 tokens))"

definition parse_allowed_networks :: "(string \<Rightarrow> nat option) \<Rightarrow> string \<Rightarrow> network list outcome" where
  "parse_allowed_networks parse_ipv6 raw = parse_networks parse_ipv6 (parse_csv_keys raw)"

definition ip_in_allowlist :: "(string \<Rightarrow> nat option) \<Rightarrow> string \<Rightarrow> network list \<Rightarrow> bool" where
  "ip_in_allowlist parse_ipv6 client_ip allowed_networks =
     (if allowed_networks = [] then True
      else (case ip_address parse_ipv6 client_ip of
              None \<Rightarrow> False
            | Some client \<Rightarrow> list_ex (in_network client) allowed_networks))"

section \<open>The limiter is a sliding window\<close>

text \<open>
  A run of calls, each with its time and bucket, gives the granted ones. The reference keeps every
  granted call and grants when fewer than the limit were granted to the bucket within the window.
\<close>

fun allow_run :: "write_limiter \<Rightarrow> (rat \<times> string) list \<Rightarrow> (rat \<times> string) list" where
  "allow_run l [] = []"
| "allow_run l ((now, bucket) # calls) =
     (case allow_write now bucket l of (ok, l') \<Rightarrow> (if ok then [(now, bucket)] else []) @ allow_run l' calls)"

definition in_window :: "rat \<Rightarrow> rat \<Rightarrow> string \<Rightarrow> (rat \<times> string) list \<Rightarrow> (rat \<times> string) list" where
  "in_window window now bucket granted = filter (\<lambda>(t, b). b = bucket \<and> now - window < t \<and> t \<le> now) granted"

fun sliding_window :: "nat \<Rightarrow> rat \<Rightarrow> (rat \<times> string) list \<Rightarrow> (rat \<times> string) list \<Rightarrow> (rat \<times> string) list" where
  "sliding_window limit window granted [] = []"
| "sliding_window limit window granted ((now, bucket) # calls) =
     (if length (in_window window now bucket granted) < limit
      then (now, bucket) # sliding_window limit window (granted @ [(now, bucket)]) calls
      else sliding_window limit window granted calls)"

definition grants :: "string \<Rightarrow> (rat \<times> string) list \<Rightarrow> rat list" where
  "grants bucket granted = map fst (filter (\<lambda>(t, b). b = bucket) granted)"

lemma dropWhile_sorted:
  "sorted xs \<Longrightarrow> dropWhile (\<lambda>t. (now :: rat) - t \<ge> w) xs = filter (\<lambda>t. now - w < t) xs"
proof (induction xs)
  case Nil
  then show ?case by simp
next
  case (Cons x xs)
  show ?case
  proof (cases "now - x \<ge> w")
    case True
    with Cons show ?thesis by simp
  next
    case False
    with Cons.prems have "\<forall>y \<in> set xs. now - w < y" by fastforce
    then have "filter (\<lambda>t. now - w < t) xs = xs" by (simp add: filter_id_conv)
    with False show ?thesis by simp
  qed
qed

text \<open>What the slots of the limiter hold of the granted calls while calls are still to come.\<close>

definition tracks :: "(rat \<times> string) list \<Rightarrow> write_limiter \<Rightarrow> (rat \<times> string) list \<Rightarrow> bool" where
  "tracks granted l calls =
     (\<forall>b. sorted (grants b granted) \<and> (\<forall>t \<in> set (grants b granted). \<forall>c \<in> set calls. t \<le> fst c) \<and>
        (\<exists>old. grants b granted = old @ dict_get_default (wl_events l) b [] \<and>
           (\<forall>t \<in> set old. \<forall>c \<in> set calls. wl_window l \<le> fst c - t)))"

lemma grants_append: "grants b (xs @ ys) = grants b xs @ grants b ys"
  by (simp add: grants_def)

lemma length_in_window:
  "\<forall>t \<in> set (grants b granted). t \<le> now \<Longrightarrow>
   length (in_window w now b granted) = length (filter (\<lambda>t. now - w < t) (grants b granted))"
  by (induction granted) (auto simp: in_window_def grants_def)

lemma allow_step:
  assumes "tracks granted l ((now, b) # calls)" and "sorted (map fst ((now, b) # calls))" and "0 < wl_limit l"
  shows "fst (allow_write now b l) \<longleftrightarrow> length (in_window (wl_window l) now b granted) < nat (wl_limit l)"
    and "tracks (if fst (allow_write now b l) then granted @ [(now, b)] else granted) (snd (allow_write now b l)) calls"
    and "wl_limit (snd (allow_write now b l)) = wl_limit l" and "wl_window (snd (allow_write now b l)) = wl_window l"
proof -
  let ?g = "grants b granted" and ?slots = "dict_get_default (wl_events l) b []"
  let ?kept = "dropWhile (\<lambda>t. now - t \<ge> wl_window l) ?slots"
  from assms(1) obtain old where old: "?g = old @ ?slots" "\<forall>t \<in> set old. \<forall>c \<in> set ((now, b) # calls). wl_window l \<le> fst c - t"
    and g: "sorted ?g" "\<forall>t \<in> set ?g. t \<le> now" unfolding tracks_def by fastforce
  from old(1) g(1) have "sorted ?slots" by (simp add: sorted_append)
  then have kept: "?kept = filter (\<lambda>t. now - wl_window l < t) ?slots" by (rule dropWhile_sorted)
  have "filter (\<lambda>t. now - wl_window l < t) old = []" using old(2) by (force simp: filter_empty_conv)
  then have len: "length (in_window (wl_window l) now b granted) = length ?kept"
    using length_in_window [OF g(2)] old(1) kept by simp
  have al: "allow_write now b l =
      (if int (length ?kept) \<ge> wl_limit l then (False, l\<lparr>wl_events := dict_set b ?kept (wl_events l)\<rparr>)
       else (True, l\<lparr>wl_events := dict_set b (?kept @ [now]) (wl_events l)\<rparr>))"
    using assms(3) by (simp add: allow_write_def Let_def)
  show "fst (allow_write now b l) \<longleftrightarrow> length (in_window (wl_window l) now b granted) < nat (wl_limit l)"
    unfolding al len using assms(3) by auto
  show "wl_limit (snd (allow_write now b l)) = wl_limit l" "wl_window (snd (allow_write now b l)) = wl_window l"
    unfolding al by simp_all
  obtain gone where gone: "?slots = gone @ ?kept" "\<forall>t \<in> set gone. wl_window l \<le> now - t"
    by (metis (mono_tags, lifting) set_takeWhileD takeWhile_dropWhile_id)
  have later: "\<forall>c \<in> set calls. now \<le> fst c" using assms(2) by auto
  have fits: "\<exists>old'. ?g @ new = old' @ ?kept @ new \<and> (\<forall>t \<in> set old'. \<forall>c \<in> set calls. wl_window l \<le> fst c - t)" for new
  proof (intro exI conjI ballI)
    show "?g @ new = (old @ gone) @ ?kept @ new" using old(1) gone(1) by simp
    fix t c assume "t \<in> set (old @ gone)" "c \<in> set calls"
    then show "wl_window l \<le> fst c - t" using old(2) gone(2) later by fastforce
  qed
  have others: "sorted (grants c granted) \<and> (\<forall>t \<in> set (grants c granted). \<forall>x \<in> set calls. t \<le> fst x) \<and>
      (\<exists>old. grants c granted = old @ dict_get_default (wl_events l) c [] \<and>
         (\<forall>t \<in> set old. \<forall>x \<in> set calls. wl_window l \<le> fst x - t))" for c
    using assms(1) unfolding tracks_def by (meson list.set_intros(2))
  show "tracks (if fst (allow_write now b l) then granted @ [(now, b)] else granted) (snd (allow_write now b l)) calls"
    unfolding tracks_def
  proof (intro allI)
    fix c
    show "sorted (grants c (if fst (allow_write now b l) then granted @ [(now, b)] else granted)) \<and>
      (\<forall>t \<in> set (grants c (if fst (allow_write now b l) then granted @ [(now, b)] else granted)). \<forall>x \<in> set calls. t \<le> fst x) \<and>
      (\<exists>old. grants c (if fst (allow_write now b l) then granted @ [(now, b)] else granted) =
          old @ dict_get_default (wl_events (snd (allow_write now b l))) c [] \<and>
         (\<forall>t \<in> set old. \<forall>x \<in> set calls. wl_window (snd (allow_write now b l)) \<le> fst x - t))"
    proof (cases "c = b")
      case True
      then show ?thesis using g later fits [of "[]"] fits [of "[now]"] others [of b]
        unfolding al by (auto simp: grants_append grants_def sorted_append dict_get_default_def update_conv)
    next
      case False
      then show ?thesis using others [of c]
        unfolding al by (auto simp: grants_append grants_def dict_get_default_def update_conv)
    qed
  qed
qed

lemma allow_run_sliding:
  assumes "tracks granted l calls" and "sorted (map fst calls)" and "0 < wl_limit l"
  shows "allow_run l calls = sliding_window (nat (wl_limit l)) (wl_window l) granted calls"
  using assms
proof (induction calls arbitrary: l granted)
  case Nil
  then show ?case by simp
next
  case (Cons call calls)
  obtain now b where c: "call = (now, b)" by fastforce
  obtain ok l' where a: "allow_write now b l = (ok, l')" by fastforce
  note step = allow_step [OF Cons.prems(1) [unfolded c] Cons.prems(2) [unfolded c] Cons.prems(3)]
  have "allow_run l' calls =
      sliding_window (nat (wl_limit l)) (wl_window l) (if ok then granted @ [(now, b)] else granted) calls"
    using Cons.IH [OF step(2)] step(3,4) Cons.prems(2,3) a by simp
  with step(1) a show ?case by (simp add: c)
qed

lemma length_filter_weaken: "(\<And>x. x \<in> set xs \<Longrightarrow> P x \<Longrightarrow> Q x) \<Longrightarrow> length (filter P xs) \<le> length (filter Q xs)"
  by (induction xs) (auto simp: le_SucI)

lemma sliding_window_bound:
  assumes "\<forall>t b. length (in_window w t b granted) \<le> n" and "sorted (map fst calls)"
    and "\<forall>g \<in> set granted. \<forall>c \<in> set calls. fst g \<le> fst c"
  shows "length (in_window w t b (granted @ sliding_window n w granted calls)) \<le> n"
  using assms
proof (induction calls arbitrary: granted)
  case Nil
  then show ?case by simp
next
  case (Cons call calls)
  obtain now c where c: "call = (now, c)" by fastforce
  let ?more = "granted @ [(now, c)]"
  have earlier: "\<forall>g \<in> set ?more. \<forall>x \<in> set calls. fst g \<le> fst x" using Cons.prems(2,3) c by auto
  show ?case
  proof (cases "length (in_window w now c granted) < n")
    case True
    have "length (in_window w u e ?more) \<le> n" for u e
    proof (cases "e = c \<and> now \<le> u")
      case True
      have "length (in_window w u e granted) \<le> length (in_window w now c granted)"
        unfolding in_window_def using True Cons.prems(3) c by (intro length_filter_weaken) auto
      then show ?thesis using \<open>length (in_window w now c granted) < n\<close> by (auto simp: in_window_def)
    next
      case False
      then have "in_window w u e ?more = in_window w u e granted" by (auto simp: in_window_def)
      then show ?thesis using Cons.prems(1) by simp
    qed
    then have "length (in_window w t b (?more @ sliding_window n w ?more calls)) \<le> n"
      using Cons.prems(2) earlier by (intro Cons.IH) simp_all
    then show ?thesis using True by (simp add: c)
  next
    case False
    then show ?thesis using Cons.IH [of granted] Cons.prems by (simp add: c)
  qed
qed

section \<open>Dotted quads\<close>

definition octets :: "nat list \<Rightarrow> bool" where
  "octets xs = (length xs = 4 \<and> list_all (\<lambda>n. n < 256) xs)"

definition quad_value :: "nat list \<Rightarrow> nat" where
  "quad_value xs = foldl (\<lambda>a n. a * 256 + n) 0 xs"

definition show_quad :: "nat list \<Rightarrow> string" where
  "show_quad xs = join_with ''.'' (map str_nat xs)"

lemma str_nat_hd: "0 < n \<Longrightarrow> hd (str_nat n) \<noteq> CHR ''0''"
proof (induction n rule: str_nat.induct)
  case (1 n)
  show ?case
  proof (cases "n < 10")
    case True
    have "(of_char (CHR ''0'') :: nat) = 48" by simp
    moreover have "(of_char (char_of (48 + n) :: char) :: nat) = 48 + n" using True by simp
    ultimately have "(char_of (48 + n) :: char) \<noteq> CHR ''0''" using 1(2) by (metis add_cancel_left_right less_irrefl)
    then show ?thesis using True by (subst str_nat.simps) simp
  next
    case False
    then show ?thesis using 1 by (subst str_nat.simps) simp
  qed
qed

lemma length_str_nat: "n < 10 ^ Suc k \<Longrightarrow> length (str_nat n) \<le> Suc k"
proof (induction k arbitrary: n)
  case 0
  then show ?case by (subst str_nat.simps) simp
next
  case (Suc k)
  then have "length (str_nat (n div 10)) \<le> Suc k" by (intro Suc.IH) simp
  then show ?case by (subst str_nat.simps) simp
qed

lemma parse_octet_str_nat:
  assumes "n < 256"
  shows "parse_octet (str_nat n) = Some n"
proof -
  have "length (str_nat n) \<le> Suc 2" using assms by (intro length_str_nat) simp
  moreover have "str_nat n = ''0'' \<or> hd (str_nat n) \<noteq> CHR ''0''"
  proof (cases "n = 0")
    case True
    have "str_nat 0 = ''0''" by code_simp
    with True show ?thesis by simp
  qed (simp add: str_nat_hd)
  ultimately show ?thesis
    using assms str_nat_digits [of n] by (auto simp: parse_octet_def list_all_iff nat_of_digits_str_nat)
qed

lemma str_nat_no: "\<not> is_digit c \<Longrightarrow> c \<notin> set (str_nat n)"
  using str_nat_digits by blast

lemma octetsE:
  assumes "octets xs"
  obtains a b c e where "xs = [a, b, c, e]" "a < 256" "b < 256" "c < 256" "e < 256"
  using assms by (auto simp: octets_def length_Suc_conv numeral_eq_Suc)

lemma split_quad: "octets xs \<Longrightarrow> split_on (CHR ''.'') (show_quad xs) = map str_nat xs"
  using str_nat_no [of "CHR ''.''"]
  by (elim octetsE) (simp add: show_quad_def split_on_append_sep split_on_single is_digit_def)

lemma parse_show_quad:
  assumes "octets xs"
  shows "parse_ipv4 (show_quad xs) = Some (quad_value xs)"
  using assms split_quad [OF assms]
  by (elim octetsE) (simp only: parse_ipv4_def list.map parse_octet_str_nat list.case option.case quad_value_def foldl.simps mult_0 add_0)

lemma show_quad_no_slash: "octets xs \<Longrightarrow> CHR ''/'' \<notin> set (show_quad xs)"
  using str_nat_no [of "CHR ''/''"] by (elim octetsE) (simp add: show_quad_def is_digit_def)

lemma parse_prefix_str_nat: "p \<le> ip_bits v \<Longrightarrow> parse_prefix v (str_nat p) = Some p"
  using str_nat_digits [of p] by (simp add: parse_prefix_def list_all_iff nat_of_digits_str_nat)

lemma ip_network_quad:
  assumes "octets ys" and "p \<le> 32"
  shows "ip_network parse_ipv6 (show_quad ys @ CHR ''/'' # str_nat p) =
    Some \<lparr>nw_version = IPv4, nw_address = mask_host IPv4 p (quad_value ys), nw_prefix = p\<rparr>"
proof -
  have "CHR ''/'' \<notin> set (str_nat p)" by (rule str_nat_no) (simp add: is_digit_def)
  then have "split_on (CHR ''/'') (show_quad ys @ CHR ''/'' # str_nat p) = [show_quad ys, str_nat p]"
    using show_quad_no_slash [OF assms(1)] by (simp add: split_on_append_sep split_on_single)
  then show ?thesis
    using assms by (simp add: ip_network_def make_network_def parse_show_quad parse_prefix_str_nat)
qed

section \<open>Allow lists\<close>

text \<open>An entry of the allow list in CIDR notation, and the network it stands for.\<close>

type_synonym cidr = "nat list \<times> nat"

definition cidr_ok :: "cidr \<Rightarrow> bool" where
  "cidr_ok e = (octets (fst e) \<and> snd e \<le> 32)"

definition show_cidr :: "cidr \<Rightarrow> string" where
  "show_cidr e = show_quad (fst e) @ CHR ''/'' # str_nat (snd e)"

definition cidr_network :: "cidr \<Rightarrow> network" where
  "cidr_network e = \<lparr>nw_version = IPv4, nw_address = mask_host IPv4 (snd e) (quad_value (fst e)), nw_prefix = snd e\<rparr>"

lemma show_cidr_chars: "cidr_ok e \<Longrightarrow> set (show_cidr e) \<subseteq> {c. is_digit c} \<union> {CHR ''.'', CHR ''/''}"
  using str_nat_digits by (auto simp: cidr_ok_def show_cidr_def show_quad_def elim!: octetsE)

lemma show_cidr_token: "cidr_ok e \<Longrightarrow> show_cidr e \<noteq> [] \<and> CHR '','' \<notin> set (show_cidr e) \<and> (\<forall>c \<in> set (show_cidr e). \<not> is_space c)"
  using show_cidr_chars [of e]
  by (auto simp: is_digit_def is_space_def Let_def show_cidr_def subset_iff)

lemma strip_spaceless: "\<forall>c \<in> set t. \<not> is_space c \<Longrightarrow> strip t = t"
proof -
  assume t: "\<forall>c \<in> set t. \<not> is_space c"
  have "\<forall>c \<in> set u. \<not> is_space c \<Longrightarrow> dropWhile is_space u = u" for u
    by (cases u) auto
  from this [of t] this [of "rev t"] t show ?thesis by (simp add: strip_def lstrip_def rstrip_chars_def)
qed

lemma strip_space: "strip (CHR '' '' # t) = strip t"
  by (simp add: strip_def lstrip_def is_space_def)

lemma split_tokens:
  "\<forall>t \<in> set (t # ts). CHR '','' \<notin> set t \<Longrightarrow> split_on (CHR '','') (join_with '', '' (t # ts)) = t # map ((#) (CHR '' '')) ts"
proof (induction ts arbitrary: t)
  case Nil
  then show ?case by (simp add: split_on_single)
next
  case (Cons u ts)
  have "split_on (CHR '','') (join_with '', '' (u # ts)) = u # map ((#) (CHR '' '')) ts" using Cons.prems by (intro Cons.IH) simp
  then show ?case using Cons.prems by (simp add: split_on_append_sep)
qed

lemma strip_spaced: "\<forall>u \<in> set us. u \<noteq> [] \<and> strip (CHR '' '' # u) = u \<Longrightarrow>
    map strip (filter (\<lambda>u. strip u \<noteq> []) (map ((#) (CHR '' '')) us)) = us"
  by (induction us) auto

lemma parse_csv_tokens:
  assumes "\<forall>t \<in> set ts. t \<noteq> [] \<and> CHR '','' \<notin> set t \<and> (\<forall>c \<in> set t. \<not> is_space c)"
  shows "parse_csv_keys (join_with '', '' ts) = ts"
proof (cases ts)
  case Nil
  then show ?thesis by (simp add: parse_csv_keys_def strip_spaceless)
next
  case (Cons t us)
  have strip: "strip u = u" "strip (CHR '' '' # u) = u" if "u \<in> set ts" for u
    using that assms strip_spaceless [of u] strip_space [of u] by simp_all
  have "map strip (filter (\<lambda>u. strip u \<noteq> []) (map ((#) (CHR '' '')) us)) = us"
    using assms Cons strip(2) by (intro strip_spaced) auto
  then show ?thesis using split_tokens [of t us] assms Cons strip [of t] by (simp add: parse_csv_keys_def)
qed

lemma parse_networks_cidr:
  "list_all cidr_ok es \<Longrightarrow> parse_networks parse_ipv6 (map show_cidr es @ tokens) =
     map_sum id ((@) (map cidr_network es)) (parse_networks parse_ipv6 tokens)"
proof (induction es)
  case Nil
  then show ?case by (cases "parse_networks parse_ipv6 tokens") simp_all
next
  case (Cons e es)
  then show ?case
    using ip_network_quad [of "fst e" "snd e" parse_ipv6]
    by (cases "parse_networks parse_ipv6 tokens") (simp_all add: cidr_ok_def show_cidr_def cidr_network_def)
qed

lemma in_cidr_network:
  "in_network (IPv4, a) (cidr_network e) \<longleftrightarrow> a div 2 ^ (32 - snd e) = quad_value (fst e) div 2 ^ (32 - snd e)"
  by (simp add: in_network_def cidr_network_def mask_host_def)

section \<open>Properties\<close>

text \<open>
  C17. The write limiter is exactly a sliding window: started empty and called at times that never go back, it
  grants a call exactly when fewer than the limit were granted to the same bucket within the last
  window, so no window of that length, wherever it ends, ever holds more than the limit.
\<close>

theorem write_limiter_window:
  assumes "wl_events l = []" and "0 < wl_limit l" and "sorted (map fst calls)"
  shows "allow_run l calls = sliding_window (nat (wl_limit l)) (wl_window l) [] calls \<and>
    length (in_window (wl_window l) t bucket (allow_run l calls)) \<le> nat (wl_limit l)"
proof -
  have "tracks [] l calls" using assms(1) by (simp add: tracks_def grants_def dict_get_default_def)
  then have run: "allow_run l calls = sliding_window (nat (wl_limit l)) (wl_window l) [] calls"
    using assms(2,3) by (intro allow_run_sliding)
  moreover have "length (in_window (wl_window l) t bucket ([] @ sliding_window (nat (wl_limit l)) (wl_window l) [] calls)) \<le> nat (wl_limit l)"
    using assms(3) by (intro sliding_window_bound) (simp_all add: in_window_def)
  ultimately show ?thesis by simp
qed

theorem write_limiter_window_witness:
  "allow_run (new_write_limiter 1) [(0, ''a''), (30, ''a''), (30, ''b''), (60, ''a'')] = [(0, ''a''), (30, ''b''), (60, ''a'')]"
  using write_limiter_window [of "new_write_limiter 1" "[(0, ''a''), (30, ''a''), (30, ''b''), (60, ''a'')]" 60 "''a''"]
  by (simp add: new_write_limiter_def in_window_def)

text \<open>
  C39. The allow list setting does what it says: written as CIDR entries separated by commas and spaces it is accepted, and an
  address is let in exactly when it agrees with one of the entries on that entry's leading bits, or when
  the list is empty; text that is no address, and an address of the other version, are turned away by every list that is not
  empty. One entry that is no network makes the whole setting an error that names this entry.
\<close>

theorem allowlist_cidr:
  assumes "list_all cidr_ok es" and "octets xs"
  shows "(\<exists>ns. parse_allowed_networks parse_ipv6 (join_with '', '' (map show_cidr es)) = Inr ns \<and>
      (ip_in_allowlist parse_ipv6 (show_quad xs) ns \<longleftrightarrow>
         es = [] \<or> (\<exists>(ys, p) \<in> set es. quad_value xs div 2 ^ (32 - p) = quad_value ys div 2 ^ (32 - p))) \<and>
      (\<forall>other. (\<nexists>a. ip_address parse_ipv6 other = Some (IPv4, a)) \<longrightarrow> (ip_in_allowlist parse_ipv6 other ns \<longleftrightarrow> es = []))) \<and>
    (\<forall>bad. ip_network parse_ipv6 bad = None \<and> bad \<noteq> [] \<and> CHR '','' \<notin> set bad \<and> (\<forall>c \<in> set bad. \<not> is_space c) \<longrightarrow>
       parse_allowed_networks parse_ipv6 (join_with '', '' (map show_cidr es @ [bad])) =
         Inl (ValueError (''Invalid ADMIN__ALLOWED_IPS entry: '' @ [CHR 0x27] @ bad @ [CHR 0x27])))"
proof (intro conjI exI [of _ "map cidr_network es"] allI impI)
  have tokens: "\<forall>t \<in> set (map show_cidr es). t \<noteq> [] \<and> CHR '','' \<notin> set t \<and> (\<forall>c \<in> set t. \<not> is_space c)"
    using assms(1) show_cidr_token by (auto simp: list_all_iff)
  then show "parse_allowed_networks parse_ipv6 (join_with '', '' (map show_cidr es)) = Inr (map cidr_network es)"
    using parse_networks_cidr [OF assms(1), of parse_ipv6 "[]"] by (simp add: parse_allowed_networks_def parse_csv_tokens)
  show "ip_in_allowlist parse_ipv6 (show_quad xs) (map cidr_network es) \<longleftrightarrow>
      es = [] \<or> (\<exists>(ys, p) \<in> set es. quad_value xs div 2 ^ (32 - p) = quad_value ys div 2 ^ (32 - p))"
    using assms(2) by (force simp: ip_in_allowlist_def ip_address_def parse_show_quad list_ex_iff in_cidr_network)
  show "ip_in_allowlist parse_ipv6 other (map cidr_network es) \<longleftrightarrow> es = []" if "\<nexists>a. ip_address parse_ipv6 other = Some (IPv4, a)" for other
    using that by (auto simp: ip_in_allowlist_def list_ex_iff in_network_def cidr_network_def split: option.splits)
  show "parse_allowed_networks parse_ipv6 (join_with '', '' (map show_cidr es @ [bad])) =
      Inl (ValueError (''Invalid ADMIN__ALLOWED_IPS entry: '' @ [CHR 0x27] @ bad @ [CHR 0x27]))"
    if "ip_network parse_ipv6 bad = None \<and> bad \<noteq> [] \<and> CHR '','' \<notin> set bad \<and> (\<forall>c \<in> set bad. \<not> is_space c)" for bad
    using that tokens parse_csv_tokens [of "map show_cidr es @ [bad]"] parse_networks_cidr [OF assms(1), of parse_ipv6 "[bad]"]
    by (auto simp: parse_allowed_networks_def)
qed

theorem allowlist_cidr_witness:
  "\<exists>ns. parse_allowed_networks (\<lambda>_. None) (join_with '', '' (map show_cidr [([10, 0, 0, 0], 8), ([192, 168, 1, 0], 24)])) = Inr ns \<and>
     ip_in_allowlist (\<lambda>_. None) (show_quad [192, 168, 1, 77]) ns \<and> \<not> ip_in_allowlist (\<lambda>_. None) ''gateway'' ns"
proof -
  have ok: "list_all cidr_ok [([10, 0, 0, 0], 8), ([192, 168, 1, 0], 24)]" "octets [192, 168, 1, 77]"
    by (simp_all add: cidr_ok_def octets_def)
  have none: "ip_address (\<lambda>_. None) ''gateway'' = None"
    by (simp add: ip_address_def parse_ipv4_def parse_octet_def is_digit_def)
  have q: "quad_value [192, 168, 1, 77] div 2 ^ (32 - 24) = quad_value [192, 168, 1, 0] div 2 ^ (32 - 24)"
    by (simp add: quad_value_def)
  from allowlist_cidr [OF ok, of "\<lambda>_. None"] obtain ns where
    "parse_allowed_networks (\<lambda>_. None) (join_with '', '' (map show_cidr [([10, 0, 0, 0], 8), ([192, 168, 1, 0], 24)])) = Inr ns"
    "ip_in_allowlist (\<lambda>_. None) (show_quad [192, 168, 1, 77]) ns" "\<not> ip_in_allowlist (\<lambda>_. None) ''gateway'' ns"
    using q none by fastforce
  then show ?thesis by blast
qed

end
