(* ===== verification/AdminViews.thy ===== *)
theory AdminViews
  imports AdminAccess Settings "HOL-Library.Multiset"
begin

text \<open>
  What the admin API shows: the summary of a route, the dashboard
  and the preview of a change, from \<open>admin/app.py\<close>. Payloads are decoded JSON; the YAML text of a
  route and the unified diff of two texts come as arguments.
\<close>

section \<open>Counting\<close>

text \<open>\<open>Counter(xs)\<close>, in order of first occurrence, its \<open>most_common()\<close> and \<open>dict(sorted(...))\<close>.\<close>

definition counter :: "'a list \<Rightarrow> ('a, nat) dict" where
  "counter xs = fold (\<lambda>x d. dict_set x (Suc (dict_get_default d x 0)) d) xs []"

definition most_common :: "('a, nat) dict \<Rightarrow> ('a \<times> nat) list" where
  "most_common c = sort_key (\<lambda>(_, n). - int n) c"

definition sorted_items :: "(string, nat) dict \<Rightarrow> (string, nat) dict" where
  "sorted_items c = sort_key fst c"

definition counts_json :: "(string, nat) dict \<Rightarrow> json" where
  "counts_json c = JObj (map (\<lambda>(k, n). (k, JInt (int n))) c)"

section \<open>Route summary\<close>

abbreviation json_strings :: "string list \<Rightarrow> json" where
  "json_strings xs \<equiv> JList (map JStr xs)"

definition enabled_names :: "PluginConfig list \<Rightarrow> string list" where
  "enabled_names ps = map pc_name (filter pc_enabled ps)"

definition summarize_route :: "RouteConfig \<Rightarrow> json" where
  "summarize_route r =
     (let enabled_plugins = enabled_names (r_plugins r); m = r_match r; u = r_upstream r
      in JObj
        [(''id'', JStr (r_id r)), (''description'', JStr (r_description r)),
         (''protocol'', JStr (upper (m_protocol m))), (''path'', JStr (m_path m)),
         (''methods'', json_strings (m_methods m)), (''host'', json_option (m_host m)),
         (''match_headers'', JObj (map (map_prod id JStr) (m_headers m))),
         (''upstream_type'', JStr (upper (u_type u))), (''targets'', json_strings (map t_url (u_targets u))),
         (''target_count'', JInt (int (length (u_targets u)))), (''load_balance'', JStr (u_load_balance u)),
         (''hash_on'', JStr (u_hash_on u)), (''hash_key'', json_option (u_hash_key u)),
         (''timeout'', JFloat (u_timeout u)), (''plugins'', json_strings enabled_plugins),
         (''plugin_count'', JInt (int (length enabled_plugins))), (''strip_prefix'', JBool (r_strip_prefix r)),
         (''preserve_host'', JBool (r_preserve_host r))])"

section \<open>Dashboard\<close>

definition protocol_counts :: "RouteConfig list \<Rightarrow> (string, nat) dict" where
  "protocol_counts rs = counter (map (\<lambda>r. upper (m_protocol (r_match r))) rs)"

definition upstream_type_counts :: "RouteConfig list \<Rightarrow> (string, nat) dict" where
  "upstream_type_counts rs = counter (map (\<lambda>r. upper (u_type (r_upstream r))) rs)"

definition plugin_usage :: "RouteConfig list \<Rightarrow> (string, nat) dict" where
  "plugin_usage rs = counter (concat (map (\<lambda>r. enabled_names (r_plugins r)) rs))"

definition build_dashboard_payload :: "AdminSettings \<Rightarrow> string \<Rightarrow> 'w ConfigLoader \<Rightarrow> json" where
  "build_dashboard_payload cfg environment l =
     (let rs = l_routes l; g = l_gateway_cfg l; global_plugins = enabled_names (gc_global_plugins g);
          protocols = protocol_counts rs; usage = plugin_usage rs
      in JObj
        [(''gateway'', JObj [(''name'', JStr (gc_name g)), (''version'', JStr (gc_version g)),
            (''environment'', JStr environment)]),
         (''summary'', JObj [(''route_count'', JInt (int (length rs))),
            (''upstream_count'', JInt (int (sum_list (map (\<lambda>r. length (u_targets (r_upstream r))) rs)))),
            (''global_plugin_count'', JInt (int (length global_plugins))),
            (''configured_plugin_count'', JInt (int (length usage)))]),
         (''protocols'', counts_json (sorted_items protocols)),
         (''upstream_types'', counts_json (sorted_items (upstream_type_counts rs))),
         (''global_plugins'', json_strings global_plugins),
         (''plugin_usage'', JList (map (\<lambda>(name, n). JObj [(''name'', JStr name), (''count'', JInt (int n))])
            (most_common usage))),
         (''insights'', JObj
            [(''routes_without_plugins'',
                json_strings (map r_id (filter (\<lambda>r. \<not> list_ex pc_enabled (r_plugins r)) rs))),
             (''sticky_routes'', JInt (int (length (filter (\<lambda>r. u_load_balance (r_upstream r) = ''ip_hash'') rs)))),
             (''grpc_routes'', JInt (int (dict_get_default protocols ''GRPC'' 0))),
             (''websocket_routes'', JInt (int (dict_get_default protocols ''WEBSOCKET'' 0)))]),
         (''admin_policy'', JObj
            [(''allowed_ip_rules'', JInt (int (length (parse_csv_keys (as_allowed_ips cfg))))),
             (''write_limit_per_minute'', JInt (as_max_write_actions_per_minute cfg)),
             (''default_key_ttl_seconds'', JInt (as_default_key_ttl_seconds cfg))]),
         (''routes'', JList (map summarize_route rs))])"

section \<open>Preview\<close>

text \<open>\<open>str.splitlines()\<close>; carriage return and line feed count as one line end.\<close>

definition is_line_end :: "char \<Rightarrow> bool" where
  "is_line_end c = (let n = (of_char c :: nat) in 10 \<le> n \<and> n \<le> 13 \<or> 28 \<le> n \<and> n \<le> 30 \<or> n = 133)"

function splitlines :: "string \<Rightarrow> string list" where
  "splitlines [] = []"
| "splitlines (c # s) =
     (let t = c # s; line = takeWhile (\<lambda>x. \<not> is_line_end x) t; rest = dropWhile (\<lambda>x. \<not> is_line_end x) t
      in line # splitlines (if startswith rest [CHR 0x0D, CHR 0x0A] then drop 2 rest else drop 1 rest))"
  by pat_completeness auto
termination
proof (relation "measure length", goal_cases)
  case 1
  then show ?case by simp
next
  case (2 c s t line rest)
  then have "length rest \<le> Suc (length s)" using length_dropWhile_le [of "\<lambda>x. \<not> is_line_end x" "c # s"] by simp
  then show ?case by auto
qed

definition route_to_yaml :: "'w loader_deps \<Rightarrow> RouteConfig \<Rightarrow> string" where
  "route_to_yaml d route = rstrip_chars is_space (render_routes_yaml d [route])"

type_synonym unified_diff = "string list \<Rightarrow> string list \<Rightarrow> string \<Rightarrow> string \<Rightarrow> string list"

definition build_route_preview ::
  "'w loader_deps \<Rightarrow> unified_diff \<Rightarrow> 'w ConfigLoader \<Rightarrow> RouteConfig \<Rightarrow> string option \<Rightarrow> json" where
  "build_route_preview d diff l route current_route_id =
     (let shown = (case current_route_id of Some i \<Rightarrow> if i \<noteq> [] then i else r_id route | None \<Rightarrow> r_id route);
          existing = find_route (l_routes l) shown;
          next_route_yaml = route_to_yaml d route;
          previous_route_yaml = (case existing of Some r \<Rightarrow> route_to_yaml d r | None \<Rightarrow> []);
          label = (case current_route_id of Some i \<Rightarrow> if i \<noteq> [] then i else ''new'' | None \<Rightarrow> ''new'');
          diff_lines = diff (splitlines previous_route_yaml) (splitlines next_route_yaml)
            (label @ '' (before)'') (r_id route @ '' (after)'')
      in JObj [(''mode'', JStr (if existing \<noteq> None then ''update'' else ''create'')),
               (''normalized_route'', route_dump d route),
               (''diff'', JStr (if diff_lines \<noteq> [] then join_with [CHR 0x0A] diff_lines else ''No changes''))])"

section \<open>Lemmas\<close>

lemma counter_snoc: "counter (xs @ [x]) = dict_set x (Suc (dict_get_default (counter xs) x 0)) (counter xs)"
  by (simp add: counter_def)

lemma counter_get: "dict_get (counter xs) k = (if k \<in> set xs then Some (count_list xs k) else None)"
  by (induction xs rule: rev_induct)
     (auto simp: counter_def [of "[]"] counter_snoc update_conv dict_get_default_def count_list_0_iff)

lemma counter_ok: "dict_ok (counter xs)"
  by (induction xs rule: rev_induct) (simp_all add: counter_def [of "[]"] counter_snoc)

lemma sum_update: "dict_ok d \<Longrightarrow> sum_list (map snd (dict_set k v d)) + dict_get_default d k 0 = sum_list (map snd d) + (v :: nat)"
  by (induction d) (auto simp: dict_ok_def dict_get_default_def)

lemma counter_sum: "sum_list (map snd (counter xs)) = length xs"
proof (induction xs rule: rev_induct)
  case Nil
  then show ?case by (simp add: counter_def)
next
  case (snoc x xs)
  then show ?case
    using sum_update [OF counter_ok, of x "Suc (dict_get_default (counter xs) x 0)" xs] by (simp add: counter_snoc)
qed

lemma dict_get_perm: "dict_ok d \<Longrightarrow> mset d' = mset d \<Longrightarrow> dict_get d' k = dict_get d k"
proof -
  assume d: "dict_ok d" and m: "mset d' = mset d"
  then have "distinct (map fst d')" unfolding dict_ok_def by (metis mset_eq_imp_distinct_iff mset_map)
  moreover have "set d' = set d" using m by (metis set_mset_mset)
  ultimately show ?thesis using d unfolding dict_ok_def by (metis map_of_eq_Some_iff not_None_eq)
qed

lemma perm_default: "mset d = mset (counter xs) \<Longrightarrow> dict_get_default d k 0 = count_list xs k"
  using dict_get_perm [OF counter_ok, of d xs k] counter_get [of xs k]
  by (simp add: dict_get_default_def count_list_0_iff)

lemma count_list_map: "count_list (map f xs) y = length (filter (\<lambda>x. f x = y) xs)"
  by (induction xs) auto

section \<open>Properties\<close>

text \<open>
  The dashboard counts what there is: under every protocol stands the number of routes of that
  protocol and the numbers add up to the route count, the protocols are listed in order; the plugins
  are listed by falling use, each with the number of enabled entries over all routes.
\<close>

theorem dashboard_counts:
  "\<exists>protocols usage.
     json_item (build_dashboard_payload cfg environment l) ''protocols'' = Inr (counts_json protocols) \<and>
     sorted (map fst protocols) \<and> sum_list (map snd protocols) = length (l_routes l) \<and>
     (\<forall>p. dict_get_default protocols p 0 = length (filter (\<lambda>r. upper (m_protocol (r_match r)) = p) (l_routes l))) \<and>
     json_item (build_dashboard_payload cfg environment l) ''plugin_usage'' =
       Inr (JList (map (\<lambda>(name, n). JObj [(''name'', JStr name), (''count'', JInt (int n))]) usage)) \<and>
     sorted (rev (map snd usage)) \<and>
     (\<forall>name. dict_get_default usage name 0 =
        count_list (concat (map (\<lambda>r. enabled_names (r_plugins r)) (l_routes l))) name)"
proof (intro exI conjI)
  let ?p = "protocol_counts (l_routes l)" and ?u = "plugin_usage (l_routes l)"
  show "json_item (build_dashboard_payload cfg environment l) ''protocols'' = Inr (counts_json (sorted_items ?p))"
    "json_item (build_dashboard_payload cfg environment l) ''plugin_usage'' =
       Inr (JList (map (\<lambda>(name, n). JObj [(''name'', JStr name), (''count'', JInt (int n))]) (most_common ?u)))"
    by (simp_all add: build_dashboard_payload_def Let_def)
  show "sorted (map fst (sorted_items ?p))" by (simp add: sorted_items_def)
  have "mset (map snd (sorted_items ?p)) = mset (map snd ?p)" by (simp add: sorted_items_def)
  then show "sum_list (map snd (sorted_items ?p)) = length (l_routes l)"
    by (metis sum_mset_sum_list counter_sum protocol_counts_def length_map)
  show "\<forall>p. dict_get_default (sorted_items ?p) p 0 = length (filter (\<lambda>r. upper (m_protocol (r_match r)) = p) (l_routes l))"
    by (intro allI) (subst perm_default [of _ "map (\<lambda>r. upper (m_protocol (r_match r))) (l_routes l)"],
        simp_all add: sorted_items_def protocol_counts_def count_list_map)
  have "sorted (map (\<lambda>(_, n). - int n) (most_common ?u))" by (simp add: most_common_def)
  then show "sorted (rev (map snd (most_common ?u)))"
    unfolding rev_map sorted_wrt_map sorted_wrt_rev by (simp add: split_beta)
  show "\<forall>name. dict_get_default (most_common ?u) name 0 =
      count_list (concat (map (\<lambda>r. enabled_names (r_plugins r)) (l_routes l))) name"
    by (intro allI perm_default) (simp add: most_common_def plugin_usage_def)
qed

end
