(* ===== verification/AdminApp.thy ===== *)
theory AdminApp
  imports AdminKeys AdminHistory AdminViews Pipeline Router
begin

text \<open>
  The admin application of \<open>admin/app.py\<close>: its stores as one state with the loader and the routing
  engine it was given, the role check and the write limit, and every handler. The world outside is
  the loader's. An \<open>HTTPException\<close> is the answer of its status; any other exception is answered
  500 by the framework.
\<close>

section \<open>State\<close>

record 'w admin_env =
  ae_loader :: "'w loader_deps"
  ae_admin :: "'w admin_deps"
  ae_settings :: AdminSettings
  ae_environment :: string
  ae_parse_ipv6 :: "string \<Rightarrow> nat option"
  ae_missing_key :: exn
  ae_exn_str :: "exn \<Rightarrow> string"
  ae_route_full :: "RouteConfig \<Rightarrow> json"
  ae_unified_diff :: unified_diff
  ae_registry :: registry

record 'w admin =
  adm_loader :: "'w ConfigLoader"
  adm_engine :: RoutingEngine
  adm_networks :: "network list"
  adm_limiter :: write_limiter
  adm_keys :: key_store
  adm_history :: history_store
  adm_audit_file :: string
  adm_actions :: "(string \<times> string) list"
  adm_auth_failures :: "(string \<times> string) list"

definition or_setting :: "string option \<Rightarrow> string \<Rightarrow> string" where
  "or_setting file setting = (case file of Some f \<Rightarrow> if f \<noteq> [] then f else setting | None \<Rightarrow> setting)"

definition create_admin_app :: "'w admin_env \<Rightarrow> RoutingEngine \<Rightarrow> 'w ConfigLoader \<Rightarrow> string option \<Rightarrow> string option \<Rightarrow>
    string option \<Rightarrow> 'w admin outcome" where
  "create_admin_app env engine loader key_store_file audit_log_file route_history_file =
     (let cfg = ae_settings env;
          bootstrap_write_keys = as_api_key cfg # parse_csv_keys (as_write_api_keys cfg);
          bootstrap_read_keys = parse_csv_keys (as_read_api_keys cfg)
      in bind_outcome (parse_allowed_networks (ae_parse_ipv6 env) (as_allowed_ips cfg)) (\<lambda>nets.
         case new_key_store (ae_admin env) (or_setting key_store_file (as_key_store_file cfg))
                bootstrap_write_keys bootstrap_read_keys (outside loader) of
           (Inl e, w) \<Rightarrow> Inl e
         | (Inr keys, w) \<Rightarrow>
             map_sum id (\<lambda>history.
               \<lparr>adm_loader = loader\<lparr>outside := w\<rparr>, adm_engine = engine, adm_networks = nets,
                adm_limiter = new_write_limiter (as_max_write_actions_per_minute cfg), adm_keys = keys,
                adm_history = history,
                adm_audit_file = or_setting audit_log_file (as_audit_log_file cfg), adm_actions = [], adm_auth_failures = []\<rparr>)
               (new_history_store (ae_admin env) (or_setting route_history_file (as_route_history_file cfg))
                  (as_route_history_max_entries cfg) w)))"

text \<open>Running an operation of one part on the whole.\<close>

definition on_loader :: "('w ConfigLoader, 'b) act \<Rightarrow> ('w admin, 'b) act" where
  "on_loader m a = (case m (adm_loader a) of (r, l) \<Rightarrow> (r, a\<lparr>adm_loader := l\<rparr>))"

definition on_files :: "('w, 'b) act \<Rightarrow> ('w admin, 'b) act" where
  "on_files m a = (case m (outside (adm_loader a)) of (r, w) \<Rightarrow> (r, a\<lparr>adm_loader := (adm_loader a)\<lparr>outside := w\<rparr>\<rparr>))"

definition on_keys :: "(key_store \<times> 'w, 'b) act \<Rightarrow> ('w admin, 'b) act" where
  "on_keys m a = (case m (adm_keys a, outside (adm_loader a)) of (r, (k, w)) \<Rightarrow>
     (r, a\<lparr>adm_keys := k, adm_loader := (adm_loader a)\<lparr>outside := w\<rparr>\<rparr>))"

definition on_history :: "(history_store \<times> 'w, 'b) act \<Rightarrow> ('w admin, 'b) act" where
  "on_history m a = (case m (adm_history a, outside (adm_loader a)) of (r, (h, w)) \<Rightarrow>
     (r, a\<lparr>adm_history := h, adm_loader := (adm_loader a)\<lparr>outside := w\<rparr>\<rparr>))"

definition asks :: "('w admin \<Rightarrow> 'b outcome) \<Rightarrow> ('w admin, 'b) act" where
  "asks f a = (f a, a)"

definition count_action :: "string \<Rightarrow> string \<Rightarrow> ('w admin, unit) act" where
  "count_action action status a = (Inr (), a\<lparr>adm_actions := adm_actions a @ [(action, status)]\<rparr>)"

definition count_auth_failure :: "AdminRole \<Rightarrow> string \<Rightarrow> ('w admin, unit) act" where
  "count_auth_failure role reason a =
     (Inr (), a\<lparr>adm_auth_failures := adm_auth_failures a @ [(role_name role, reason)]\<rparr>)"

section \<open>Audit, role check and write limit\<close>

definition client_ip :: "'w admin_env \<Rightarrow> request \<Rightarrow> string" where
  "client_ip env r = extract_client_ip r (as_trust_proxy_headers (ae_settings env))"

definition audit :: "'w admin_env \<Rightarrow> request \<Rightarrow> AdminPrincipal option \<Rightarrow> string \<Rightarrow> string \<Rightarrow>
    (string \<times> json) list \<Rightarrow> ('w admin, unit) act" where
  "audit env r who action status detail =
     and_then (asks (\<lambda>a. Inr (adm_audit_file a))) (\<lambda>path. on_files (audit_log (ae_admin env) path
       [(''action'', JStr action), (''status'', JStr status),
        (''actor_key_id'', JStr (case who of Some p \<Rightarrow> p_key_id p | None \<Rightarrow> [])),
        (''actor_role'', JStr (case who of Some p \<Rightarrow> role_name (p_role p) | None \<Rightarrow> [])),
        (''ip'', JStr (client_ip env r)), (''path'', JStr (rq_path r)), (''detail'', JObj detail)]))"

text \<open>\<open>APIKeyHeader\<close> with automatic errors: a missing or empty header is refused by the framework.\<close>

definition presented_key :: "'w admin_env \<Rightarrow> request \<Rightarrow> string outcome" where
  "presented_key env r =
     (case header_get r ''X-Admin-Key'' of
        Some key \<Rightarrow> if key = [] then Inl (ae_missing_key env) else Inr key
      | None \<Rightarrow> Inl (ae_missing_key env))"

definition require_role :: "'w admin_env \<Rightarrow> AdminRole \<Rightarrow> request \<Rightarrow> ('w admin, AdminPrincipal) act" where
  "require_role env required_role r =
     and_then (asks (\<lambda>a. presented_key env r)) (\<lambda>key.
     and_then (asks (\<lambda>a. authenticate (ae_admin env) key (adm_keys a) (outside (adm_loader a)))) (\<lambda>found.
     case found of
       None \<Rightarrow>
         and_then (count_auth_failure required_role ''invalid'') (\<lambda>_.
         and_then (audit env r None ''auth'' ''invalid_key'' []) (\<lambda>_.
         throw (HTTPException 401 ''Invalid Admin API Key'')))
     | Some who \<Rightarrow>
         if \<not> is_allowed who required_role then
           and_then (count_auth_failure required_role ''forbidden'') (\<lambda>_.
           and_then (audit env r (Some who) ''auth'' ''forbidden''
                       [(''required_role'', JStr (role_name required_role))]) (\<lambda>_.
           throw (HTTPException 403 ([CHR 0x27] @ role_name required_role @ [CHR 0x27] @ '' role required''))))
         else and_then (asks (\<lambda>a. Inr (adm_networks a))) (\<lambda>nets.
           if \<not> ip_in_allowlist (ae_parse_ipv6 env) (client_ip env r) nets then
             and_then (count_auth_failure required_role ''ip_blocked'') (\<lambda>_.
             and_then (audit env r (Some who) ''auth'' ''ip_blocked''
                         [(''required_role'', JStr (role_name required_role)), (''client_ip'', JStr (client_ip env r))]) (\<lambda>_.
             throw (HTTPException 403 ''Access denied from this IP'')))
           else ret who)))"

definition limit_write :: "string \<Rightarrow> 'w admin_env \<Rightarrow> ('w admin, bool) act" where
  "limit_write bucket env a =
     (case allow_write (ad_monotonic (ae_admin env) (outside (adm_loader a))) bucket (adm_limiter a) of
        (ok, l) \<Rightarrow> (Inr ok, a\<lparr>adm_limiter := l\<rparr>))"

definition guard_write_action :: "'w admin_env \<Rightarrow> request \<Rightarrow> AdminPrincipal \<Rightarrow> string \<Rightarrow> ('w admin, unit) act" where
  "guard_write_action env r who action =
     (let limit = as_max_write_actions_per_minute (ae_settings env)
      in if limit \<le> 0 then ret ()
         else and_then (limit_write (p_key_id who @ '':'' @ client_ip env r) env) (\<lambda>ok.
           if ok then ret ()
           else and_then (count_action action ''rate_limited'') (\<lambda>_.
                and_then (audit env r (Some who) action ''rate_limited''
                   [(''client_ip'', JStr (client_ip env r)), (''limit_per_minute'', JInt limit)]) (\<lambda>_.
                throw (HTTPException 429 (''Write rate limit exceeded ('' @ str_int limit @ ''/minute)''))))))"

definition publish_reload_event :: "'w admin_env \<Rightarrow> ('w admin, unit) act" where
  "publish_reload_event env =
     catching (on_files (ad_publish (ae_admin env) ''oag:config_reload'' ''reload'')) (\<lambda>_. ret ())"

definition update_engine :: "('w admin, unit) act" where
  "update_engine a = (Inr (), a\<lparr>adm_engine := update_routes (l_routes (adm_loader a)) (adm_engine a)\<rparr>)"

text \<open>The tail that the route handlers share.\<close>

definition activate :: "'w admin_env \<Rightarrow> request \<Rightarrow> AdminPrincipal \<Rightarrow> string \<Rightarrow> (string \<times> json) list \<Rightarrow> ('w admin, unit) act" where
  "activate env r who action detail =
     and_then update_engine (\<lambda>_.
     and_then (on_loader (save_to_redis (ae_loader env))) (\<lambda>_.
     and_then (publish_reload_event env) (\<lambda>_.
     and_then (count_action action ''ok'') (\<lambda>_.
     audit env r (Some who) action ''ok'' detail))))"

definition record_change :: "'w admin_env \<Rightarrow> string \<Rightarrow> string \<Rightarrow> AdminPrincipal \<Rightarrow> json \<Rightarrow> json \<Rightarrow> string \<Rightarrow>
    ('w admin, json) act" where
  "record_change env action rid who before after note =
     on_history (append_entry (ae_admin env) action rid (p_key_id who) (role_name (p_role who)) before after note)"

section \<open>Route handlers\<close>

definition quoted :: "string \<Rightarrow> string" where
  "quoted s = [CHR 0x27] @ s @ [CHR 0x27]"

definition no_route :: "string \<Rightarrow> exn" where
  "no_route rid = HTTPException 404 (''Route '' @ quoted rid @ '' not found'')"

definition lookup_route :: "string \<Rightarrow> ('w admin, RouteConfig option) act" where
  "lookup_route rid = asks (\<lambda>a. Inr (find_route (l_routes (adm_loader a)) rid))"

fun is_validation_error :: "exn \<Rightarrow> bool" where
  "is_validation_error (ValidationError _) = True"
| "is_validation_error _ = False"

text \<open>The two \<open>except\<close> clauses around validation and change, in their order.\<close>

definition reporting_conflicts :: "'w admin_env \<Rightarrow> request \<Rightarrow> AdminPrincipal \<Rightarrow> string \<Rightarrow>
    ('w admin, 'b) act \<Rightarrow> ('w admin, 'b) act" where
  "reporting_conflicts env r who action body =
     catching body (\<lambda>e.
       if is_value_error e then
         and_then (count_action action ''conflict'') (\<lambda>_.
         and_then (audit env r (Some who) action ''conflict'' [(''reason'', JStr (ae_exn_str env e))]) (\<lambda>_.
         throw (HTTPException 409 (ae_exn_str env e))))
       else if is_validation_error e then
         and_then (count_action action ''invalid'') (\<lambda>_.
         and_then (audit env r (Some who) action ''invalid'' [(''reason'', JStr (ae_exn_str env e))]) (\<lambda>_.
         throw (HTTPException 422 (ae_exn_str env e))))
       else throw e)"

definition create_route_handler :: "'w admin_env \<Rightarrow> request \<Rightarrow> (string, json) dict \<Rightarrow> AdminPrincipal \<Rightarrow> ('w admin, json) act" where
  "create_route_handler env r payload who =
     and_then (guard_write_action env r who ''route_create'') (\<lambda>_.
     and_then (reporting_conflicts env r who ''route_create''
        (and_then (asks (\<lambda>_. validate_route_payload (ae_loader env) payload)) (\<lambda>route.
         and_then (on_loader (create_route (ae_loader env) route)) (\<lambda>_. ret route)))) (\<lambda>route.
     (let route_json = route_dump (ae_loader env) route
      in and_then (record_change env ''create'' (r_id route) who JNull route_json ''route-created'') (\<lambda>_.
         and_then (activate env r who ''route_create'' [(''route_id'', JStr (r_id route))]) (\<lambda>_.
         ret (JObj [(''status'', JStr ''created''), (''route'', route_json)]))))))"

definition update_route_handler :: "'w admin_env \<Rightarrow> request \<Rightarrow> string \<Rightarrow> (string, json) dict \<Rightarrow> AdminPrincipal \<Rightarrow>
    ('w admin, json) act" where
  "update_route_handler env r rid payload who =
     and_then (guard_write_action env r who ''route_update'') (\<lambda>_.
     and_then (lookup_route rid) (\<lambda>before_route.
     case before_route of
       None \<Rightarrow>
         and_then (count_action ''route_update'' ''not_found'') (\<lambda>_.
         and_then (audit env r (Some who) ''route_update'' ''not_found'' [(''route_id'', JStr rid)]) (\<lambda>_.
         throw (no_route rid)))
     | Some old \<Rightarrow>
         and_then (reporting_conflicts env r who ''route_update''
            (and_then (asks (\<lambda>_. validate_route_payload (ae_loader env) payload)) (\<lambda>route.
             and_then (on_loader (update_route (ae_loader env) rid route)) (\<lambda>_. ret route)))) (\<lambda>route.
         (let after_json = route_dump (ae_loader env) route
          in and_then (record_change env ''update'' (r_id route) who (route_dump (ae_loader env) old) after_json
                         (''updated-from:'' @ rid)) (\<lambda>_.
             and_then (activate env r who ''route_update'' [(''route_id'', JStr (r_id route))]) (\<lambda>_.
             ret (JObj [(''status'', JStr ''updated''), (''route'', after_json)])))))))"

definition delete_route_handler :: "'w admin_env \<Rightarrow> request \<Rightarrow> string \<Rightarrow> AdminPrincipal \<Rightarrow> ('w admin, json) act" where
  "delete_route_handler env r rid who =
     and_then (guard_write_action env r who ''route_delete'') (\<lambda>_.
     and_then (lookup_route rid) (\<lambda>found.
     case found of
       None \<Rightarrow>
         and_then (count_action ''route_delete'' ''not_found'') (\<lambda>_.
         and_then (audit env r (Some who) ''route_delete'' ''not_found'' [(''route_id'', JStr rid)]) (\<lambda>_.
         throw (no_route rid)))
     | Some route \<Rightarrow>
         and_then (on_loader (delete_route (ae_loader env) rid)) (\<lambda>_.
         and_then (record_change env ''delete'' rid who (route_dump (ae_loader env) route) JNull ''route-deleted'') (\<lambda>_.
         and_then (activate env r who ''route_delete'' [(''route_id'', JStr rid)]) (\<lambda>_.
         ret (JObj [(''status'', JStr ''deleted''), (''route_id'', JStr rid)]))))))"

text \<open>
  Rolling back an entry: what was created is deleted, what was deleted or updated is restored from
  its snapshot. The result holds the snapshots for the new history entry.
\<close>

definition restore_or_create :: "'w admin_env \<Rightarrow> RouteConfig \<Rightarrow> ('w admin, json) act" where
  "restore_or_create env restored =
     and_then (lookup_route (r_id restored)) (\<lambda>existing.
     case existing of
       None \<Rightarrow> and_then (on_loader (create_route (ae_loader env) restored)) (\<lambda>_. ret JNull)
     | Some old \<Rightarrow>
         and_then (on_loader (update_route (ae_loader env) (r_id restored) restored)) (\<lambda>_.
         ret (route_dump (ae_loader env) old)))"

text \<open>\<open>RouteConfig.model_validate\<close> on a snapshot, which a file may hold as any value.\<close>

definition validate_snapshot :: "'w loader_deps \<Rightarrow> json \<Rightarrow> RouteConfig outcome" where
  "validate_snapshot d v =
     (case v of
        JObj payload \<Rightarrow> validate_route_payload d payload
      | _ \<Rightarrow> Inl (ValidationError ''Input should be a valid dictionary''))"

definition rollback_change :: "'w admin_env \<Rightarrow> json \<Rightarrow> json \<Rightarrow> ('w admin, json \<times> json) act" where
  "rollback_change env before_snapshot after_snapshot =
     (let current_id = bind_outcome (json_item after_snapshot ''id'') (\<lambda>v. Inr (py_str (ad_repr (ae_admin env)) v));
          restored_route = validate_snapshot (ae_loader env) before_snapshot
      in if before_snapshot = JNull \<and> after_snapshot \<noteq> JNull then
           and_then (asks (\<lambda>_. current_id)) (\<lambda>target_id.
           and_then (lookup_route target_id) (\<lambda>target.
           case target of
             None \<Rightarrow> throw (HTTPException 409 (''Cannot rollback create: route '' @ quoted target_id @ '' is already missing''))
           | Some route \<Rightarrow>
               and_then (on_loader (delete_route (ae_loader env) target_id)) (\<lambda>_.
               ret (route_dump (ae_loader env) route, JNull))))
         else if before_snapshot \<noteq> JNull \<and> after_snapshot = JNull then
           and_then (asks (\<lambda>_. restored_route)) (\<lambda>restored.
           and_then (restore_or_create env restored) (\<lambda>replaced.
           ret (replaced, route_dump (ae_loader env) restored)))
         else if before_snapshot \<noteq> JNull \<and> after_snapshot \<noteq> JNull then
           and_then (asks (\<lambda>_. restored_route)) (\<lambda>restored.
           and_then (asks (\<lambda>_. current_id)) (\<lambda>current.
           and_then (lookup_route current) (\<lambda>existing_current.
           case existing_current of
             Some old \<Rightarrow>
               and_then (on_loader (update_route (ae_loader env) current restored)) (\<lambda>_.
               ret (route_dump (ae_loader env) old, route_dump (ae_loader env) restored))
           | None \<Rightarrow>
               and_then (restore_or_create env restored) (\<lambda>replaced.
               ret (replaced, route_dump (ae_loader env) restored)))))
         else throw (HTTPException 422 ''History entry has no rollback context''))"

definition rollback_route_handler :: "'w admin_env \<Rightarrow> request \<Rightarrow> string \<Rightarrow> AdminPrincipal \<Rightarrow> ('w admin, json) act" where
  "rollback_route_handler env r entry_id who =
     and_then (guard_write_action env r who ''route_rollback'') (\<lambda>_.
     and_then (asks (\<lambda>a. find_entry (ae_admin env) entry_id (adm_history a))) (\<lambda>found.
     case found of
       None \<Rightarrow> throw (HTTPException 404 (''History entry '' @ quoted entry_id @ '' not found''))
     | Some entry \<Rightarrow>
         and_then (asks (\<lambda>_. json_dict_get entry ''before'' JNull)) (\<lambda>before_snapshot.
         and_then (asks (\<lambda>_. json_dict_get entry ''after'' JNull)) (\<lambda>after_snapshot.
         and_then (rollback_change env before_snapshot after_snapshot) (\<lambda>(rollback_before, rollback_after).
         and_then (asks (\<lambda>_. json_dict_get entry ''route_id'' (JStr []))) (\<lambda>rid.
         and_then (record_change env ''rollback'' (py_str (ad_repr (ae_admin env)) rid) who rollback_before rollback_after
                     (''rollback-of:'' @ entry_id)) (\<lambda>_.
         and_then (activate env r who ''route_rollback'' [(''entry_id'', JStr entry_id)]) (\<lambda>_.
         ret (JObj [(''status'', JStr ''rolled_back''), (''history_entry_id'', JStr entry_id)])))))))))"

definition reload_config_handler :: "'w admin_env \<Rightarrow> request \<Rightarrow> AdminPrincipal \<Rightarrow> ('w admin, json) act" where
  "reload_config_handler env r who =
     and_then (guard_write_action env r who ''config_reload'') (\<lambda>_.
     and_then (on_loader (reload (ae_loader env))) (\<lambda>_.
     and_then (activate env r who ''config_reload'' []) (\<lambda>_.
     and_then (asks (\<lambda>a. Inr (JInt (int (length (l_routes (adm_loader a))))))) (\<lambda>n.
     ret (JObj [(''status'', JStr ''reloaded''), (''routes'', n)])))))"

section \<open>Key handlers\<close>

record rotate_request =
  rk_role :: AdminRole
  rk_label :: string
  rk_expires_in_seconds :: "int option"
  rk_deactivate_key_id :: "string option"

definition default_rotate_request :: rotate_request where
  "default_rotate_request =
     \<lparr>rk_role = Write, rk_label = [], rk_expires_in_seconds = None, rk_deactivate_key_id = None\<rparr>"

text \<open>The bounds of \<open>expires_in_seconds\<close>, which the framework checks before the handler.\<close>

definition rotate_request_ok :: "rotate_request \<Rightarrow> bool" where
  "rotate_request_ok q = (case rk_expires_in_seconds q of None \<Rightarrow> True | Some n \<Rightarrow> 1 \<le> n \<and> n \<le> 31536000)"

definition key_life_time :: "AdminSettings \<Rightarrow> rotate_request \<Rightarrow> int option" where
  "key_life_time cfg q =
     (if rk_expires_in_seconds q = None \<and> as_default_key_ttl_seconds cfg > 0
      then Some (as_default_key_ttl_seconds cfg) else rk_expires_in_seconds q)"

definition created_key_json :: "created_key \<Rightarrow> json" where
  "created_key_json c =
     JObj [(''id'', JStr (ck_id c)), (''role'', JStr (role_name (ck_role c))), (''secret'', JStr (ck_secret c)),
       (''expires_at'', JStr (ck_expires_at c))]"

definition rotate_key_handler :: "'w admin_env \<Rightarrow> request \<Rightarrow> rotate_request \<Rightarrow> AdminPrincipal \<Rightarrow> ('w admin, json) act" where
  "rotate_key_handler env r q who =
     and_then (guard_write_action env r who ''key_rotate'') (\<lambda>_.
     and_then (on_keys (create_key (ae_admin env) (rk_role q) (rk_label q) (key_life_time (ae_settings env) q))) (\<lambda>created.
     and_then (case rk_deactivate_key_id q of
         Some kid \<Rightarrow> if kid \<noteq> [] then on_keys (deactivate_key (ae_admin env) kid) else ret False
       | None \<Rightarrow> ret False) (\<lambda>was_deactivated.
     and_then (count_action ''key_rotate'' ''ok'') (\<lambda>_.
     and_then (audit env r (Some who) ''key_rotate'' ''ok''
        [(''new_key_id'', JStr (ck_id created)), (''deactivated'', JBool was_deactivated)]) (\<lambda>_.
     ret (JObj [(''status'', JStr ''rotated''), (''new_key'', created_key_json created),
            (''deactivated'', JBool was_deactivated)]))))))"

definition deactivate_key_handler :: "'w admin_env \<Rightarrow> request \<Rightarrow> string \<Rightarrow> AdminPrincipal \<Rightarrow> ('w admin, json) act" where
  "deactivate_key_handler env r kid who =
     and_then (guard_write_action env r who ''key_deactivate'') (\<lambda>_.
     and_then (on_keys (deactivate_key (ae_admin env) kid)) (\<lambda>done.
     if \<not> done then throw (HTTPException 404 (''Key '' @ quoted kid @ '' not found or inactive''))
     else and_then (count_action ''key_deactivate'' ''ok'') (\<lambda>_.
          and_then (audit env r (Some who) ''key_deactivate'' ''ok'' [(''key_id'', JStr kid)]) (\<lambda>_.
          ret (JObj [(''status'', JStr ''deactivated''), (''key_id'', JStr kid)])))))"

definition list_admin_keys_handler :: "'w admin_env \<Rightarrow> AdminPrincipal \<Rightarrow> ('w admin, json) act" where
  "list_admin_keys_handler env who =
     and_then (count_action ''key_list'' ''ok'') (\<lambda>_.
     and_then (asks (\<lambda>a. list_keys (ae_admin env) (adm_keys a) (outside (adm_loader a)))) (\<lambda>ks.
     ret (JObj [(''keys'', JList ks), (''requested_by'', JStr (p_key_id who))])))"

section \<open>Reading handlers\<close>

definition list_routes :: "'w admin_env \<Rightarrow> 'w admin \<Rightarrow> json" where
  "list_routes env a = JObj [(''routes'', JList (map (ae_route_full env) (l_routes (adm_loader a))))]"

definition validated :: "'w admin_env \<Rightarrow> (string, json) dict \<Rightarrow> RouteConfig outcome" where
  "validated env payload =
     (case validate_route_payload (ae_loader env) payload of
        Inl e \<Rightarrow> Inl (if is_validation_error e then HTTPException 422 (ae_exn_str env e) else e)
      | Inr route \<Rightarrow> Inr route)"

definition validate_route :: "'w admin_env \<Rightarrow> (string, json) dict \<Rightarrow> json outcome" where
  "validate_route env payload =
     map_sum id (\<lambda>route. JObj [(''status'', JStr ''valid''), (''normalized_route'', route_dump (ae_loader env) route)])
       (validated env payload)"

definition preview_route :: "'w admin_env \<Rightarrow> (string, json) dict \<Rightarrow> string option \<Rightarrow> 'w admin \<Rightarrow> json outcome" where
  "preview_route env payload current_route_id a =
     map_sum id (\<lambda>route. build_route_preview (ae_loader env) (ae_unified_diff env) (adm_loader a) route current_route_id)
       (validated env payload)"

definition list_route_history :: "int \<Rightarrow> 'w admin \<Rightarrow> json" where
  "list_route_history limit a = JObj [(''entries'', JList (list_entries limit (adm_history a)))]"

definition get_route :: "'w admin_env \<Rightarrow> string \<Rightarrow> 'w admin \<Rightarrow> json outcome" where
  "get_route env rid a =
     (case find_route (l_routes (adm_loader a)) rid of
        None \<Rightarrow> Inl (no_route rid)
      | Some route \<Rightarrow> Inr (ae_route_full env route))"

definition list_plugins_view :: "'w admin_env \<Rightarrow> 'w admin \<Rightarrow> json" where
  "list_plugins_view env a =
     JObj [(''plugins'', json_strings (list_plugins (ae_registry env))),
           (''global_plugins'', json_strings (enabled_names (gc_global_plugins (l_gateway_cfg (adm_loader a)))))]"

definition admin_health :: "'w admin \<Rightarrow> json" where
  "admin_health a = JObj [(''status'', JStr ''ok''), (''routes_loaded'', JInt (int (length (l_routes (adm_loader a)))))]"

text \<open>
  The pages outside the API: the redirect to the user interface, its one file, whose answer Starlette makes of
  the path under the static directory, and the old health check.
\<close>

definition redirect_to_ui :: response where
  "redirect_to_ui = mk_response [] 307 [(''location'', ''/ui'')] None"

definition admin_ui :: "(string \<Rightarrow> response) \<Rightarrow> string \<Rightarrow> response" where
  "admin_ui file_response static_dir = file_response (static_dir @ ''/index.html'')"

definition legacy_health :: json where
  "legacy_health = JObj [(''status'', JStr ''ok'')]"

section \<open>All endpoints\<close>

datatype admin_call =
    Dashboard
  | ListRoutes
  | ValidateRoute "(string, json) dict"
  | PreviewRoute "(string, json) dict" "string option"
  | ListHistory int
  | GetRoute string
  | CreateRoute "(string, json) dict"
  | UpdateRoute string "(string, json) dict"
  | DeleteRoute string
  | RollbackRoute string
  | ReloadConfig
  | ListPlugins
  | ListKeys
  | RotateKey rotate_request
  | DeactivateKey string
  | Health

text \<open>The role an endpoint requires; the health endpoint is open.\<close>

fun required_role :: "admin_call \<Rightarrow> AdminRole option" where
  "required_role Dashboard = Some Read"
| "required_role ListRoutes = Some Read"
| "required_role (ValidateRoute _) = Some Read"
| "required_role (PreviewRoute _ _) = Some Read"
| "required_role (ListHistory _) = Some Read"
| "required_role (GetRoute _) = Some Read"
| "required_role ListPlugins = Some Read"
| "required_role Health = None"
| "required_role _ = Some Write"

fun handler_of :: "'w admin_env \<Rightarrow> request \<Rightarrow> admin_call \<Rightarrow> AdminPrincipal \<Rightarrow> ('w admin, json) act" where
  "handler_of env r Dashboard who =
     asks (\<lambda>a. Inr (build_dashboard_payload (ae_settings env) (ae_environment env) (adm_loader a)))"
| "handler_of env r ListRoutes who = asks (\<lambda>a. Inr (list_routes env a))"
| "handler_of env r (ValidateRoute payload) who = asks (\<lambda>a. validate_route env payload)"
| "handler_of env r (PreviewRoute payload current) who = asks (preview_route env payload current)"
| "handler_of env r (ListHistory limit) who = asks (\<lambda>a. Inr (list_route_history limit a))"
| "handler_of env r (GetRoute rid) who = asks (get_route env rid)"
| "handler_of env r (CreateRoute payload) who = create_route_handler env r payload who"
| "handler_of env r (UpdateRoute rid payload) who = update_route_handler env r rid payload who"
| "handler_of env r (DeleteRoute rid) who = delete_route_handler env r rid who"
| "handler_of env r (RollbackRoute eid) who = rollback_route_handler env r eid who"
| "handler_of env r ReloadConfig who = reload_config_handler env r who"
| "handler_of env r ListPlugins who = asks (\<lambda>a. Inr (list_plugins_view env a))"
| "handler_of env r ListKeys who = list_admin_keys_handler env who"
| "handler_of env r (RotateKey q) who = rotate_key_handler env r q who"
| "handler_of env r (DeactivateKey kid) who = deactivate_key_handler env r kid who"
| "handler_of env r Health who = asks (\<lambda>a. Inr (admin_health a))"

definition nobody :: AdminPrincipal where
  "nobody = \<lparr>p_key_id = [], p_role = Read, p_label = []\<rparr>"

definition admin_endpoint :: "'w admin_env \<Rightarrow> request \<Rightarrow> admin_call \<Rightarrow> ('w admin, json) act" where
  "admin_endpoint env r call =
     (case required_role call of
        None \<Rightarrow> handler_of env r call nobody
      | Some role \<Rightarrow> and_then (require_role env role r) (handler_of env r call))"

end
