(* ===== verification/AdminSafety.thy ===== *)
theory AdminSafety
  imports AdminApp Steps
begin

text \<open>
  What the admin endpoints promise: nothing changes without a writer who is admitted, the routing
  engine follows the loader's table, and a rollback undoes the change of its entry.
\<close>

section \<open>Steps that keep a view of the state\<close>

lemma keeps_asks [keeps_intros]: "keeps view (asks f)"
  by (simp add: keeps_def asks_def)

text \<open>What no refused call may touch, and what the gateway routes by.\<close>

definition protected :: "'w admin \<Rightarrow> RouteConfig list \<times> GatewayConfig \<times> RoutingEngine \<times> key_store \<times> history_store" where
  "protected a = (l_routes (adm_loader a), l_gateway_cfg (adm_loader a), adm_engine a, adm_keys a, adm_history a)"

definition routing :: "'w admin \<Rightarrow> RouteConfig list \<times> RoutingEngine" where
  "routing a = (l_routes (adm_loader a), adm_engine a)"

lemma routing_protected: "keeps protected m \<Longrightarrow> keeps routing m"
  by (auto simp: keeps_def protected_def routing_def)

lemma on_files_keeps [keeps_intros]:
  "keeps protected (on_files m)" "keeps routing (on_files m)" "keeps adm_engine (on_files m)"
  by (simp_all add: keeps_def on_files_def protected_def routing_def split_beta)

lemma audit_keeps [keeps_intros]:
  "keeps protected (audit env r p ac st dt)" "keeps routing (audit env r p ac st dt)" "keeps adm_engine (audit env r p ac st dt)"
  by (simp_all add: audit_def keeps_intros)

lemma count_keeps [keeps_intros]:
  "keeps protected (count_action ac st)" "keeps routing (count_action ac st)" "keeps adm_engine (count_action ac st)"
  "keeps protected (count_auth_failure role st)" "keeps routing (count_auth_failure role st)"
  "keeps adm_engine (count_auth_failure role st)"
  by (simp_all add: count_action_def count_auth_failure_def keeps_def protected_def routing_def)

lemma limit_write_keeps [keeps_intros]:
  "keeps protected (limit_write b env)" "keeps routing (limit_write b env)" "keeps adm_engine (limit_write b env)"
  by (simp_all add: limit_write_def keeps_def protected_def routing_def split_beta)

lemma stores_keep [keeps_intros]:
  "keeps routing (on_keys m)" "keeps routing (on_history n)" "keeps adm_engine (on_keys m)" "keeps adm_engine (on_history n)"
  "keeps adm_engine (on_loader l)"
  by (simp_all add: on_keys_def on_history_def on_loader_def keeps_def routing_def split_beta)

lemma guard_keeps [keeps_intros]:
  "keeps protected (guard_write_action env r who ac)" "keeps routing (guard_write_action env r who ac)"
  "keeps adm_engine (guard_write_action env r who ac)"
  unfolding guard_write_action_def Let_def by (intro keeps_intros)+

lemma require_role_keeps [keeps_intros]:
  "keeps protected (require_role env role r)" "keeps routing (require_role env role r)"
  "keeps adm_engine (require_role env role r)"
  unfolding require_role_def by (intro keeps_intros)+

lemma publish_keeps [keeps_intros]:
  "keeps protected (publish_reload_event env)" "keeps routing (publish_reload_event env)"
  unfolding publish_reload_event_def by (intro keeps_intros)+

lemma save_keeps [keeps_intros]: "keeps routing (on_loader (save_to_redis d))"
  by (simp add: keeps_def on_loader_def routing_def save_to_redis_def split_beta)

section \<open>Gates\<close>

text \<open>A gate before a handler: it touches nothing that is protected, and where it refuses the handler never runs.\<close>

locale gate =
  fixes check :: "('s, 'p) act" and view :: "'s \<Rightarrow> 'v"
  assumes check_keeps: "keeps view check"
begin

lemma refused: "check s = (Inl e, t) \<Longrightarrow> and_then check body s = (Inl e, t) \<and> view t = view s"
  using keepsD [OF check_keeps] by simp

lemma passed:
  assumes "view (snd (and_then check body s)) \<noteq> view s"
  shows "\<exists>p t. check s = (Inr p, t) \<and> view t = view s \<and> view (snd (body p t)) \<noteq> view t"
proof (cases "check s")
  case (Pair res t)
  then show ?thesis using assms keepsD [OF check_keeps Pair]
    by (cases res) (auto simp: and_then_def)
qed

end

interpretation role_gate: gate "require_role env role r" protected for env role r
  by unfold_locales (intro keeps_intros)

interpretation write_gate: gate "guard_write_action env r who ac" protected for env r who ac
  by unfold_locales (intro keeps_intros)

definition admits_writer :: "'w admin_env \<Rightarrow> request \<Rightarrow> 'w admin \<Rightarrow> AdminPrincipal \<Rightarrow> bool" where
  "admits_writer env r a p =
     ((\<exists>key. presented_key env r = Inr key \<and>
         authenticate (ae_admin env) key (adm_keys a) (outside (adm_loader a)) = Inr (Some p)) \<and>
      p_role p = Write \<and> ip_in_allowlist (ae_parse_ipv6 env) (client_ip env r) (adm_networks a) \<and>
      (as_max_write_actions_per_minute (ae_settings env) \<le> 0 \<or>
       fst (allow_write (ad_monotonic (ae_admin env) (outside (adm_loader a))) (p_key_id p @ '':'' @ client_ip env r)
              (adm_limiter a))))"

lemma require_role_Inr:
  assumes "require_role env role r a = (Inr p, t)"
  shows "t = a \<and> (\<exists>key. presented_key env r = Inr key \<and>
      authenticate (ae_admin env) key (adm_keys a) (outside (adm_loader a)) = Inr (Some p)) \<and>
    is_allowed p role \<and> ip_in_allowlist (ae_parse_ipv6 env) (client_ip env r) (adm_networks a)"
  using assms
  by (auto simp: require_role_def and_then_cases asks_def split: option.splits if_splits)

lemma guard_write_action_Inr:
  assumes "guard_write_action env r who ac a = (Inr u, t)"
  shows "as_max_write_actions_per_minute (ae_settings env) \<le> 0 \<or>
    fst (allow_write (ad_monotonic (ae_admin env) (outside (adm_loader a))) (p_key_id who @ '':'' @ client_ip env r) (adm_limiter a))"
  using assms
  by (auto simp: guard_write_action_def Let_def and_then_cases limit_write_def split: if_splits prod.splits)

lemma is_allowed_Write: "is_allowed p Write \<longleftrightarrow> p_role p = Write"
  by (cases "p_role p") (simp_all add: is_allowed_def)

text \<open>Every handler of the write role that changes anything has its write limit check first.\<close>

lemma handler_shape:
  "keeps protected (handler_of env r call who) \<or>
   required_role call = Some Write \<and> (\<exists>ac body. handler_of env r call who = and_then (guard_write_action env r who ac) body)"
proof (cases call)
  case ListKeys
  have "keeps protected (list_admin_keys_handler env who)"
    unfolding list_admin_keys_handler_def by (intro keeps_intros)
  with ListKeys show ?thesis by simp
qed (auto simp: keeps_intros create_route_handler_def update_route_handler_def delete_route_handler_def
      rollback_route_handler_def reload_config_handler_def rotate_key_handler_def deactivate_key_handler_def)

lemma writers_only:
  assumes "protected (snd (admin_endpoint env r call a)) \<noteq> protected a"
  shows "required_role call = Some Write \<and> (\<exists>p. admits_writer env r a p)"
proof (cases "required_role call")
  case None
  then have "keeps protected (handler_of env r call nobody)" using handler_shape [of env r call nobody] by simp
  with None assms show ?thesis by (simp add: admin_endpoint_def keeps_def)
next
  case (Some role)
  with assms obtain p t where p: "require_role env role r a = (Inr p, t)" "protected t = protected a"
    "protected (snd (handler_of env r call p t)) \<noteq> protected t"
    using role_gate.passed [of env role r "handler_of env r call" a] by (auto simp: admin_endpoint_def)
  note in_role = require_role_Inr [OF p(1)]
  have "\<not> keeps protected (handler_of env r call p)" using p(3) by (auto simp: keeps_def)
  then obtain ac body where w: "required_role call = Some Write"
    "handler_of env r call p = and_then (guard_write_action env r p ac) body"
    using handler_shape by blast
  obtain u t' where "guard_write_action env r p ac t = (Inr u, t')"
    using write_gate.passed [of env r p ac body t] p(3) w(2) by auto
  from guard_write_action_Inr [OF this] in_role w(1) Some show ?thesis
    by (auto simp: admits_writer_def is_allowed_Write)
qed

section \<open>Properties\<close>

text \<open>
  C2. Nothing that matters changes without an admitted writer: if a call to the admin API, answered or not,
  changes the route table, the gateway configuration, the routing engine, the keys or the history,
  then its endpoint requires the write role, and the caller presented the secret of an active and unexpired
  write key from an allowed address and within the write limit.
\<close>

theorem only_writers_change:
  assumes "protected (snd (admin_endpoint env r call a)) \<noteq> protected a"
  shows "required_role call = Some Write \<and> (\<exists>p. admits_writer env r a p)"
  using assms by (rule writers_only)

section \<open>The engine follows the table\<close>

definition in_sync :: "'w admin \<Rightarrow> bool" where
  "in_sync a = (routes (adm_engine a) = l_routes (adm_loader a))"

text \<open>A step after which the engine is the old one or holds the loader's table, and the latter when it succeeds.\<close>

definition syncs :: "('w admin, 'b) act \<Rightarrow> bool" where
  "syncs m = (\<forall>a. (adm_engine (snd (m a)) = adm_engine a \<or> in_sync (snd (m a))) \<and>
     (\<forall>x. fst (m a) = Inr x \<longrightarrow> in_sync (snd (m a))))"

lemma syncs_after: "keeps adm_engine m \<Longrightarrow> (\<And>x. syncs (f x)) \<Longrightarrow> syncs (and_then m f)"
proof -
  assume k: "keeps adm_engine m" and f: "\<And>x. syncs (f x)"
  show "syncs (and_then m f)"
    unfolding syncs_def
  proof (intro allI)
    fix a
    obtain r t where m: "m a = (r, t)" by fastforce
    have e: "adm_engine t = adm_engine a" by (rule keepsD [OF k m])
    show "(adm_engine (snd (and_then m f a)) = adm_engine a \<or> in_sync (snd (and_then m f a))) \<and>
        (\<forall>x. fst (and_then m f a) = Inr x \<longrightarrow> in_sync (snd (and_then m f a)))"
    proof (cases r)
      case (Inl err)
      with m e show ?thesis by simp
    next
      case (Inr x)
      with f [of x, unfolded syncs_def, rule_format, of t] m e show ?thesis by simp
    qed
  qed
qed

lemma syncs_then: "syncs m \<Longrightarrow> (\<And>x. keeps routing (f x)) \<Longrightarrow> syncs (and_then m f)"
proof -
  assume m: "syncs m" and f: "\<And>x. keeps routing (f x)"
  show "syncs (and_then m f)"
    unfolding syncs_def
  proof (intro allI)
    fix a
    obtain r t where r: "m a = (r, t)" by fastforce
    show "(adm_engine (snd (and_then m f a)) = adm_engine a \<or> in_sync (snd (and_then m f a))) \<and>
        (\<forall>x. fst (and_then m f a) = Inr x \<longrightarrow> in_sync (snd (and_then m f a)))"
    proof (cases r)
      case (Inl err)
      with m [unfolded syncs_def, rule_format, of a] r show ?thesis by simp
    next
      case (Inr x)
      then have "in_sync t" using m r unfolding syncs_def by (metis fst_conv snd_conv)
      moreover have "routing (snd (f x t)) = routing t" using f [of x] by (simp add: keeps_def)
      ultimately have "in_sync (snd (f x t))" by (simp add: in_sync_def routing_def)
      with Inr r show ?thesis by simp
    qed
  qed
qed

lemma syncs_throw: "syncs (throw e)"
  by (simp add: syncs_def)

lemma syncs_update: "syncs update_engine"
  by (simp add: syncs_def update_engine_def in_sync_def update_routes_def Let_def)

lemma syncs_option: "syncs m \<Longrightarrow> (\<And>x. syncs (n x)) \<Longrightarrow> syncs (case v of None \<Rightarrow> m | Some x \<Rightarrow> n x)"
  by (cases v) simp_all

lemma syncs_pair: "(\<And>x y. syncs (f x y)) \<Longrightarrow> syncs (case p of (x, y) \<Rightarrow> f x y)"
  by (cases p) simp

lemma syncs_activate: "syncs (activate env r who ac dt)"
  unfolding activate_def by (intro syncs_then [OF syncs_update] keeps_intros)

lemma reporting_engine [keeps_intros]:
  "keeps adm_engine body \<Longrightarrow> keeps adm_engine (reporting_conflicts env r who ac body)"
  unfolding reporting_conflicts_def by (intro keeps_intros)

lemma keeps_let [keeps_intros]: "keeps view (f x) \<Longrightarrow> keeps view (let y = x in f y)"
  by simp

lemma rollback_engine [keeps_intros]: "keeps adm_engine (rollback_change env b c)"
  unfolding rollback_change_def restore_or_create_def lookup_route_def by (intro keeps_intros)

lemma record_engine [keeps_intros]: "keeps adm_engine (record_change env ac rid who b c n)"
  unfolding record_change_def by (intro keeps_intros)

lemma lookup_engine [keeps_intros]: "keeps adm_engine (lookup_route rid)" "keeps routing (lookup_route rid)"
  unfolding lookup_route_def by (intro keeps_intros)+

lemma syncs_let: "syncs (f x) \<Longrightarrow> syncs (let y = x in f y)"
  by simp

lemma syncs_activate_then: "(\<And>x. keeps routing (f x)) \<Longrightarrow> syncs (and_then (activate env r who ac dt) f)"
  by (rule syncs_then [OF syncs_activate])

lemma change_syncs:
  "syncs (create_route_handler env r payload who)" "syncs (update_route_handler env r rid payload who)"
  "syncs (delete_route_handler env r rid who)" "syncs (rollback_route_handler env r eid who)"
  "syncs (reload_config_handler env r who)"
  unfolding create_route_handler_def update_route_handler_def delete_route_handler_def rollback_route_handler_def
    reload_config_handler_def
  by (intro syncs_let syncs_option syncs_pair syncs_throw syncs_activate_then keeps_intros | rule syncs_after)+

lemma others_keep_routing:
  "keeps routing (list_admin_keys_handler env who)" "keeps routing (rotate_key_handler env r q who)"
  "keeps routing (deactivate_key_handler env r kid who)"
  unfolding list_admin_keys_handler_def rotate_key_handler_def deactivate_key_handler_def
  by (intro keeps_intros)+

lemma handler_syncs: "keeps routing (handler_of env r call who) \<or> syncs (handler_of env r call who)"
  by (cases call) (auto simp: keeps_intros others_keep_routing change_syncs)

text \<open>
  C12. The routing engine never lags behind in silence: after any call it is the engine from before or
  holds the loader's table, and when it held the table before the call and the call is answered
  normally, it holds the table again.
\<close>

theorem engine_follows_loader:
  assumes "admin_endpoint env r call a = (res, b)" and "in_sync a"
  shows "(adm_engine b = adm_engine a \<or> in_sync b) \<and> (\<forall>j. res = Inr j \<longrightarrow> in_sync b)"
proof -
  have handler: "(adm_engine b = adm_engine a \<or> in_sync b) \<and> (\<forall>j. res = Inr j \<longrightarrow> in_sync b)"
    if "handler_of env r call who a = (res, b)" for who
  proof -
    from handler_syncs [of env r call who] show ?thesis
    proof
      assume "keeps routing (handler_of env r call who)"
      from keepsD [OF this that] assms(2) show ?thesis by (simp add: routing_def in_sync_def)
    next
      assume "syncs (handler_of env r call who)"
      from this [unfolded syncs_def, rule_format, of a] that show ?thesis by simp
    qed
  qed
  show ?thesis
  proof (cases "required_role call")
    case None
    with assms(1) handler show ?thesis by (simp add: admin_endpoint_def)
  next
    case (Some role)
    obtain q t where q: "require_role env role r a = (q, t)" by fastforce
    show ?thesis
    proof (cases q)
      case (Inl e)
      have "routing t = routing a" by (rule keepsD [OF require_role_keeps(2) q])
      with Inl q Some assms show ?thesis by (auto simp: admin_endpoint_def routing_def)
    next
      case (Inr p)
      with q have "t = a" using require_role_Inr by blast
      with Inr q Some assms(1) handler show ?thesis by (simp add: admin_endpoint_def)
    qed
  qed
qed

section \<open>What a successful change does to the table and the history\<close>

definition tbl :: "'w admin \<Rightarrow> string \<rightharpoonup> RouteConfig" where
  "tbl a = table_lookup (adm_loader a)"

definition tbl_ok :: "'w admin \<Rightarrow> bool" where
  "tbl_ok a = table_ok (adm_loader a)"

definition records :: "'w admin \<Rightarrow> RouteConfig list \<times> json list" where
  "records a = (l_routes (adm_loader a), hs_entries (adm_history a))"

definition snapshot_ok :: "'w loader_deps \<Rightarrow> RouteConfig \<Rightarrow> bool" where
  "snapshot_ok d r = (\<exists>kvs. route_dump d r = JObj kvs \<and> route_validate d kvs = Inr r \<and>
     dict_get kvs ''id'' = Some (JStr (r_id r)))"

lemma records_protected: "keeps protected m \<Longrightarrow> keeps records m"
  by (auto simp: keeps_def protected_def records_def)

lemma records_tbl: "records a = records b \<Longrightarrow> tbl a = tbl b \<and> tbl_ok a = tbl_ok b"
  by (simp add: records_def tbl_def tbl_ok_def table_lookup_def [abs_def] table_ok_def)

lemma records_keep [keeps_intros]:
  "keeps records (guard_write_action env r who ac)" "keeps records (audit env r p ac st dt)"
  "keeps records (count_action ac st)" "keeps records (publish_reload_event env)" "keeps records (asks f)"
  "keeps records (lookup_route rid)" "keeps records (require_role env role r)"
  by (rule records_protected, intro keeps_intros | simp add: lookup_route_def)+

lemma activate_records [keeps_intros]: "keeps records (activate env r who ac dt)"
proof -
  have "keeps records update_engine" "keeps records (on_loader (save_to_redis (ae_loader env)))"
    by (simp_all add: keeps_def records_def update_engine_def on_loader_def save_to_redis_def split_beta)
  then show ?thesis unfolding activate_def by (intro keeps_intros)
qed

lemma on_loader_Inr: "on_loader m a = (Inr x, b) \<Longrightarrow> \<exists>l. m (adm_loader a) = (Inr x, l) \<and> b = a\<lparr>adm_loader := l\<rparr>"
  by (auto simp: on_loader_def split: prod.splits)

lemma create_tbl:
  assumes "on_loader (create_route d route) a = (Inr u, b)" and "tbl_ok a"
  shows "tbl_ok b \<and> tbl a (r_id route) = None \<and> tbl b = (tbl a)(r_id route \<mapsto> route) \<and> adm_history b = adm_history a"
  using on_loader_Inr [OF assms(1)] assms(2) table.create_ok unfolding tbl_def tbl_ok_def by fastforce

lemma update_tbl:
  assumes "on_loader (update_route d i route) a = (Inr u, b)" and "tbl_ok a"
  shows "tbl_ok b \<and> tbl a i \<noteq> None \<and> (r_id route = i \<or> tbl a (r_id route) = None) \<and>
    tbl b = (tbl a)(i := None, r_id route \<mapsto> route) \<and> adm_history b = adm_history a"
  using on_loader_Inr [OF assms(1)] assms(2) table.update_ok unfolding tbl_def tbl_ok_def by fastforce

lemma delete_tbl:
  assumes "on_loader (delete_route d i) a = (Inr u, b)" and "tbl_ok a"
  shows "tbl_ok b \<and> tbl a i \<noteq> None \<and> tbl b = (tbl a)(i := None) \<and> adm_history b = adm_history a"
  using on_loader_Inr [OF assms(1)] assms(2) table.delete_ok unfolding tbl_def tbl_ok_def by fastforce

lemma record_change_Inr:
  assumes "record_change env ac rid who before after note a = (Inr entry, b)"
  shows "tbl b = tbl a \<and> tbl_ok b = tbl_ok a \<and> hs_entries (adm_history b) = hs_entries (adm_history a) @ [entry] \<and>
    (\<exists>eid ts. entry = history_entry eid ts ac rid (p_key_id who) (role_name (p_role who)) before after note)"
proof -
  obtain h w where ap: "append_entry (ae_admin env) ac rid (p_key_id who) (role_name (p_role who)) before after note
      (adm_history a, outside (adm_loader a)) = (Inr entry, (h, w))"
    and b: "b = a\<lparr>adm_history := h, adm_loader := (adm_loader a)\<lparr>outside := w\<rparr>\<rparr>"
    using assms by (auto simp: record_change_def on_history_def split: prod.splits)
  from ap obtain v where "new_entry (ae_admin env) ac rid (p_key_id who) (role_name (p_role who)) before after note
      (outside (adm_loader a)) = (Inr entry, v)" and "hs_entries h = hs_entries (adm_history a) @ [entry]"
    by (auto elim: append_entry_Inr)
  then show ?thesis
    by (auto simp: b new_entry_def and_then_cases tbl_def tbl_ok_def table_lookup_def [abs_def] table_ok_def)
qed

lemma lookup_route_Inr: "lookup_route rid a = (Inr x, b) \<longleftrightarrow> b = a \<and> x = tbl a rid"
  by (auto simp: lookup_route_def asks_def tbl_def table_lookup_def)

lemma asks_Inr: "asks f a = (Inr x, b) \<longleftrightarrow> b = a \<and> f a = Inr x"
  by (auto simp: asks_def)

lemma reporting_conflicts_Inr:
  "reporting_conflicts env r who ac body a = (Inr x, b) \<longleftrightarrow> body a = (Inr x, b)"
  by (cases "body a"; cases "fst (body a)") (auto simp: reporting_conflicts_def and_then_cases split: if_splits)

lemma records_Inr: "keeps records m \<Longrightarrow> m a = (Inr x, b) \<Longrightarrow> tbl b = tbl a \<and> tbl_ok b = tbl_ok a \<and>
    hs_entries (adm_history b) = hs_entries (adm_history a)"
  using keepsD [of records m a "Inr x" b] records_tbl [of b a] by (simp add: records_def)

lemma create_success:
  assumes "create_route_handler env r payload who a = (Inr j, b)" and "tbl_ok a"
  shows "\<exists>route eid ts k l n. validate_route_payload (ae_loader env) payload = Inr route \<and> tbl_ok b \<and>
    tbl a (r_id route) = None \<and> tbl b = (tbl a)(r_id route \<mapsto> route) \<and>
    hs_entries (adm_history b) = hs_entries (adm_history a) @
      [history_entry eid ts ''create'' (r_id route) k l JNull (route_dump (ae_loader env) route) n]"
proof -
  from assms(1) obtain route a1 a2 a3 u1 u2 u3 entry where
    g: "guard_write_action env r who ''route_create'' a = (Inr u1, a1)" and
    v: "validate_route_payload (ae_loader env) payload = Inr route" and
    c: "on_loader (create_route (ae_loader env) route) a1 = (Inr u2, a2)" and
    h: "record_change env ''create'' (r_id route) who JNull (route_dump (ae_loader env) route) ''route-created'' a2 = (Inr entry, a3)" and
    t: "activate env r who ''route_create'' [(''route_id'', JStr (r_id route))] a3 = (Inr u3, b)"
    by (auto simp: create_route_handler_def and_then_cases reporting_conflicts_Inr asks_Inr Let_def)
  note g' = records_Inr [OF records_keep(1) g] and c' = create_tbl [OF c] and h' = record_change_Inr [OF h]
    and t' = records_Inr [OF activate_records t]
  from g' c' h' t' v assms(2) show ?thesis by fastforce
qed

lemma update_success:
  assumes "update_route_handler env r rid payload who a = (Inr j, b)" and "tbl_ok a"
  shows "\<exists>old route eid ts k l n. tbl a rid = Some old \<and> validate_route_payload (ae_loader env) payload = Inr route \<and>
    tbl_ok b \<and> (r_id route = rid \<or> tbl a (r_id route) = None) \<and> tbl b = (tbl a)(rid := None, r_id route \<mapsto> route) \<and>
    hs_entries (adm_history b) = hs_entries (adm_history a) @
      [history_entry eid ts ''update'' (r_id route) k l (route_dump (ae_loader env) old) (route_dump (ae_loader env) route) n]"
proof -
  from assms(1) obtain old route a1 a2 a3 u1 u2 u3 entry where
    g: "guard_write_action env r who ''route_update'' a = (Inr u1, a1)" and o: "tbl a1 rid = Some old" and
    v: "validate_route_payload (ae_loader env) payload = Inr route" and
    c: "on_loader (update_route (ae_loader env) rid route) a1 = (Inr u2, a2)" and
    h: "record_change env ''update'' (r_id route) who (route_dump (ae_loader env) old) (route_dump (ae_loader env) route)
          (''updated-from:'' @ rid) a2 = (Inr entry, a3)" and
    t: "activate env r who ''route_update'' [(''route_id'', JStr (r_id route))] a3 = (Inr u3, b)"
    by (auto simp: update_route_handler_def and_then_cases reporting_conflicts_Inr asks_Inr lookup_route_Inr Let_def split: option.splits)
  note g' = records_Inr [OF records_keep(1) g] and c' = update_tbl [OF c] and h' = record_change_Inr [OF h]
    and t' = records_Inr [OF activate_records t]
  from g' c' h' t' v o assms(2) show ?thesis by fastforce
qed

lemma delete_success:
  assumes "delete_route_handler env r rid who a = (Inr j, b)" and "tbl_ok a"
  shows "\<exists>old eid ts k l n. tbl a rid = Some old \<and> tbl_ok b \<and> tbl b = (tbl a)(rid := None) \<and>
    hs_entries (adm_history b) = hs_entries (adm_history a) @
      [history_entry eid ts ''delete'' rid k l (route_dump (ae_loader env) old) JNull n]"
proof -
  from assms(1) obtain old a1 a2 a3 u1 u2 u3 entry where
    g: "guard_write_action env r who ''route_delete'' a = (Inr u1, a1)" and o: "tbl a1 rid = Some old" and
    c: "on_loader (delete_route (ae_loader env) rid) a1 = (Inr u2, a2)" and
    h: "record_change env ''delete'' rid who (route_dump (ae_loader env) old) JNull ''route-deleted'' a2 = (Inr entry, a3)" and
    t: "activate env r who ''route_delete'' [(''route_id'', JStr rid)] a3 = (Inr u3, b)"
    by (auto simp: delete_route_handler_def and_then_cases lookup_route_Inr split: option.splits)
  note g' = records_Inr [OF records_keep(1) g] and c' = delete_tbl [OF c] and h' = record_change_Inr [OF h]
    and t' = records_Inr [OF activate_records t]
  from g' c' h' t' o assms(2) show ?thesis by fastforce
qed

section \<open>Rolling back\<close>

lemma snapshotE:
  assumes "snapshot_ok (ae_loader env) r"
  obtains kvs where "route_dump (ae_loader env) r = JObj kvs"
    and "validate_snapshot (ae_loader env) (JObj kvs) = Inr r" and "dict_get kvs ''id'' = Some (JStr (r_id r))"
  using assms by (auto simp: snapshot_ok_def validate_snapshot_def validate_route_payload_def)

lemma restore_or_create_tbl:
  assumes "restore_or_create env route a = (Inr x, b)" and "tbl_ok a"
  shows "tbl b = (tbl a)(r_id route \<mapsto> route)"
  using assms
  by (auto simp: restore_or_create_def and_then_cases lookup_route_Inr split: option.splits dest!: create_tbl update_tbl)

lemma rollback_created:
  assumes "rollback_change env JNull (route_dump (ae_loader env) route) a = (Inr x, b)" and "tbl_ok a"
    and "snapshot_ok (ae_loader env) route"
  shows "tbl b = (tbl a)(r_id route := None)"
proof -
  obtain kvs where d: "route_dump (ae_loader env) route = JObj kvs" "dict_get kvs ''id'' = Some (JStr (r_id route))"
    by (rule snapshotE [OF assms(3)])
  from assms(1) obtain u where "on_loader (delete_route (ae_loader env) (r_id route)) a = (Inr u, b)"
    by (auto simp: rollback_change_def Let_def d and_then_cases lookup_route_Inr asks_Inr split: option.splits)
  from delete_tbl [OF this assms(2)] show ?thesis by blast
qed

lemma rollback_deleted:
  assumes "rollback_change env (route_dump (ae_loader env) route) JNull a = (Inr x, b)" and "tbl_ok a"
    and "snapshot_ok (ae_loader env) route"
  shows "tbl b = (tbl a)(r_id route \<mapsto> route)"
proof -
  obtain kvs where d: "route_dump (ae_loader env) route = JObj kvs" "validate_snapshot (ae_loader env) (JObj kvs) = Inr route"
    by (rule snapshotE [OF assms(3)])
  from assms(1) obtain y where "restore_or_create env route a = (Inr y, b)"
    by (auto simp: rollback_change_def Let_def d and_then_cases asks_Inr)
  from restore_or_create_tbl [OF this assms(2)] show ?thesis .
qed

lemma rollback_updated:
  assumes "rollback_change env (route_dump (ae_loader env) old) (route_dump (ae_loader env) route) a = (Inr x, b)" and "tbl_ok a"
    and "snapshot_ok (ae_loader env) old" and "snapshot_ok (ae_loader env) route" and "tbl a (r_id route) \<noteq> None"
  shows "tbl b = (tbl a)(r_id route := None, r_id old \<mapsto> old)"
proof -
  obtain kvs where d: "route_dump (ae_loader env) old = JObj kvs" "validate_snapshot (ae_loader env) (JObj kvs) = Inr old"
    by (rule snapshotE [OF assms(3)])
  obtain kvs' where d': "route_dump (ae_loader env) route = JObj kvs'" "dict_get kvs' ''id'' = Some (JStr (r_id route))"
    by (rule snapshotE [OF assms(4)])
  from assms(1,5) obtain u where "on_loader (update_route (ae_loader env) (r_id route) old) a = (Inr u, b)"
    by (auto simp: rollback_change_def Let_def d d' and_then_cases lookup_route_Inr asks_Inr split: option.splits)
  from update_tbl [OF this assms(2)] show ?thesis by blast
qed

text \<open>
  An update whose route was renamed or deleted since: the old route is put in beside whatever there is now.
\<close>

lemma rollback_renamed_since:
  assumes "rollback_change env (route_dump (ae_loader env) old) (route_dump (ae_loader env) route) a = (Inr x, b)" and "tbl_ok a"
    and "snapshot_ok (ae_loader env) old" and "snapshot_ok (ae_loader env) route" and "tbl a (r_id route) = None"
  shows "tbl b = (tbl a)(r_id old \<mapsto> old)"
proof -
  obtain kvs where d: "route_dump (ae_loader env) old = JObj kvs" "validate_snapshot (ae_loader env) (JObj kvs) = Inr old"
    by (rule snapshotE [OF assms(3)])
  obtain kvs' where d': "route_dump (ae_loader env) route = JObj kvs'" "dict_get kvs' ''id'' = Some (JStr (r_id route))"
    by (rule snapshotE [OF assms(4)])
  from assms(1,5) obtain y where "restore_or_create env old a = (Inr y, b)"
    by (auto simp: rollback_change_def Let_def d d' and_then_cases lookup_route_Inr asks_Inr split: option.splits)
  from restore_or_create_tbl [OF this assms(2)] show ?thesis .
qed

lemma rollback_success:
  assumes "rollback_route_handler env r eid who b = (Inr j, c)"
    and "find_entry (ae_admin env) eid (adm_history b) = Inr (Some (history_entry i ts ac rid k l before after n))"
  shows "\<exists>b' c' x. rollback_change env before after b' = (Inr x, c') \<and> tbl b' = tbl b \<and> tbl_ok b' = tbl_ok b \<and> tbl c = tbl c'"
proof -
  from assms(1) obtain found b1 b2 b3 u1 u3 before' after' rid' x entry where
    g: "guard_write_action env r who ''route_rollback'' b = (Inr u1, b1)" and
    f: "find_entry (ae_admin env) eid (adm_history b1) = Inr (Some found)" and
    s: "json_dict_get found ''before'' JNull = Inr before'" "json_dict_get found ''after'' JNull = Inr after'" and
    c: "rollback_change env before' after' b1 = (Inr x, b2)" and
    h: "record_change env ''rollback'' rid' who (fst x) (snd x) (''rollback-of:'' @ eid) b2 = (Inr entry, b3)" and
    t: "activate env r who ''route_rollback'' [(''entry_id'', JStr eid)] b3 = (Inr u3, c)"
    by (auto simp: rollback_route_handler_def and_then_cases asks_Inr split: option.splits prod.splits)
  have "protected b1 = protected b" by (rule keepsD [OF guard_keeps(1) g])
  then have "found = history_entry i ts ac rid k l before after n" using f assms(2) by (simp add: protected_def)
  then have "before' = before" "after' = after" using s by (auto simp: history_entry_def dict_get_default_def)
  with c show ?thesis
    using records_Inr [OF records_keep(1) g] record_change_Inr [OF h] records_Inr [OF activate_records t]
    by (intro exI [of _ b1] exI [of _ b2] exI [of _ x]) simp
qed

text \<open>The identifiers a change is about: those in its path and in its payload.\<close>

definition payload_id :: "'w loader_deps \<Rightarrow> (string, json) dict \<Rightarrow> string list" where
  "payload_id d payload = (case validate_route_payload d payload of Inr route \<Rightarrow> [r_id route] | Inl _ \<Rightarrow> [])"

fun named_routes :: "'w loader_deps \<Rightarrow> admin_call \<Rightarrow> string list" where
  "named_routes d (CreateRoute payload) = payload_id d payload"
| "named_routes d (UpdateRoute rid payload) = rid # payload_id d payload"
| "named_routes d (DeleteRoute rid) = [rid]"
| "named_routes d _ = []"

text \<open>
  C14. Rolling back a history entry undoes the change that left it, and nothing else: take any entry a creation, an update or a
  deletion left, however old; when the identifiers that change was about lead to the same routes as right after it
  and the rollback succeeds, each of them leads again to the route it led to before the change, and every other identifier
  to the route it leads to now, whatever was changed there in between. (Only the order of the table may
  differ. After later changes to the same identifiers this is not so: see \<open>rollback_renamed_since\<close>.) Needed
  are distinct identifiers, that the identifier of the entry finds it, and that a dumped route validates back to itself.
\<close>

theorem rollback_restores:
  assumes "tbl_ok a" and "admin_endpoint env r call a = (Inr j, b)"
    and "(\<exists>p. call = CreateRoute p) \<or> (\<exists>i p. call = UpdateRoute i p) \<or> (\<exists>i. call = DeleteRoute i)"
    and "tbl_ok b'" and "\<forall>i \<in> set (named_routes (ae_loader env) call). tbl b' i = tbl b i"
    and "find_entry (ae_admin env) eid (adm_history b') = Inr (Some (last (hs_entries (adm_history b))))"
    and "admin_endpoint env r' (RollbackRoute eid) b' = (Inr j', c)"
    and "\<forall>kvs route. route_validate (ae_loader env) kvs = Inr route \<longrightarrow> snapshot_ok (ae_loader env) route"
    and "\<forall>i route. tbl a i = Some route \<longrightarrow> snapshot_ok (ae_loader env) route"
  shows "tbl c i = (if i \<in> set (named_routes (ae_loader env) call) then tbl a i else tbl b' i)"
proof -
  from assms(2,3) obtain p where p: "handler_of env r call p a = (Inr j, b)"
    by (auto simp: admin_endpoint_def and_then_cases dest!: require_role_Inr)
  from assms(7) obtain q where q: "rollback_route_handler env r' eid q b' = (Inr j', c)"
    by (auto simp: admin_endpoint_def and_then_cases dest!: require_role_Inr)
  have id: "tbl a i = Some route \<Longrightarrow> r_id route = i" for i route
    by (simp add: tbl_def table_lookup_def find_route_id)
  note undo = rollback_success [OF q]
  from assms(3) show ?thesis
  proof (elim disjE exE)
    fix payload assume call: "call = CreateRoute payload"
    with p have "create_route_handler env r payload p a = (Inr j, b)" by simp
    from create_success [OF this assms(1)] obtain route eid' ts k l n where
      s: "validate_route_payload (ae_loader env) payload = Inr route" "tbl a (r_id route) = None" "last (hs_entries (adm_history b)) =
           history_entry eid' ts ''create'' (r_id route) k l JNull (route_dump (ae_loader env) route) n" by auto
    have "snapshot_ok (ae_loader env) route" using assms(8) s(1) by (simp add: validate_route_payload_def)
    with undo [OF assms(6) [unfolded s(3)]] assms(4) have "tbl c = (tbl b')(r_id route := None)" by (fastforce dest: rollback_created)
    with s(1,2) call show ?thesis by (simp add: payload_id_def)
  next
    fix rid payload assume call: "call = UpdateRoute rid payload"
    with p have "update_route_handler env r rid payload p a = (Inr j, b)" by simp
    from update_success [OF this assms(1)] obtain old route eid' ts k l n where
      s: "tbl a rid = Some old" "validate_route_payload (ae_loader env) payload = Inr route"
        "r_id route = rid \<or> tbl a (r_id route) = None" "tbl b = (tbl a)(rid := None, r_id route \<mapsto> route)"
        "last (hs_entries (adm_history b)) = history_entry eid' ts ''update'' (r_id route) k l
           (route_dump (ae_loader env) old) (route_dump (ae_loader env) route) n" by auto
    have ok: "snapshot_ok (ae_loader env) route" "snapshot_ok (ae_loader env) old"
      using assms(8,9) s(1,2) by (simp_all add: validate_route_payload_def)
    have now: "tbl b' (r_id route) \<noteq> None" using assms(5) call s(2,4) by (simp add: payload_id_def)
    from undo [OF assms(6) [unfolded s(5)]] obtain b1 c1 x where
      "rollback_change env (route_dump (ae_loader env) old) (route_dump (ae_loader env) route) b1 = (Inr x, c1)"
      "tbl b1 = tbl b'" "tbl_ok b1" "tbl c = tbl c1" using assms(4) by auto
    then have "tbl c = (tbl b')(r_id route := None, rid \<mapsto> old)"
      using rollback_updated [OF _ _ ok(2,1)] now id [OF s(1)] by simp
    with s(1-3) call show ?thesis by (auto simp: payload_id_def)
  next
    fix rid assume call: "call = DeleteRoute rid"
    with p have "delete_route_handler env r rid p a = (Inr j, b)" by simp
    from delete_success [OF this assms(1)] obtain old eid' ts k l n where
      s: "tbl a rid = Some old" "last (hs_entries (adm_history b)) =
           history_entry eid' ts ''delete'' rid k l (route_dump (ae_loader env) old) JNull n" by auto
    have "snapshot_ok (ae_loader env) old" using assms(9) s(1) by simp
    with undo [OF assms(6) [unfolded s(2)]] assms(4) id [OF s(1)] have "tbl c = (tbl b')(rid \<mapsto> old)" by (fastforce dest: rollback_deleted)
    with s(1) call show ?thesis by simp
  qed
qed

text \<open>
  The same invalid payload is answered differently: validating it gives 422, creating a route from
  it gives 409, because the clause for value errors comes first and a validation error is one; the
  clause that would answer 422 is never reached. Nothing that is protected changes.
\<close>

theorem invalid_route_conflict:
  assumes "validate_route_payload (ae_loader env) payload = Inl (ValidationError msg)"
    and "guard_write_action env r who ''route_create'' a = (Inr u, t)"
    and "and_then (count_action ''route_create'' ''conflict'') (\<lambda>_. audit env r (Some who) ''route_create'' ''conflict''
           [(''reason'', JStr (ae_exn_str env (ValidationError msg)))]) t = (Inr v, b)"
  shows "validate_route env payload = Inl (HTTPException 422 (ae_exn_str env (ValidationError msg))) \<and>
    create_route_handler env r payload who a = (Inl (HTTPException 409 (ae_exn_str env (ValidationError msg))), b) \<and>
    protected b = protected a"
proof (intro conjI)
  show "validate_route env payload = Inl (HTTPException 422 (ae_exn_str env (ValidationError msg)))"
    using assms(1) by (simp add: validate_route_def validated_def)
  show "create_route_handler env r payload who a = (Inl (HTTPException 409 (ae_exn_str env (ValidationError msg))), b)"
    using assms by (simp add: create_route_handler_def reporting_conflicts_def catching_def asks_def and_then_def
        count_action_def)
  have "protected t = protected a" by (rule keepsD [OF guard_keeps(1) assms(2)])
  moreover have "keeps protected (and_then (count_action ''route_create'' ''conflict'') (\<lambda>_. audit env r (Some who) ''route_create''
      ''conflict'' [(''reason'', JStr (ae_exn_str env (ValidationError msg)))]))" by (intro keeps_intros)
  then have "protected b = protected t" using assms(3) unfolding keeps_def by (metis snd_conv)
  ultimately show "protected b = protected a" by simp
qed

text \<open>
  A failing history file splits the admin process in two: when the route was validated and written to
  the table and only then appending to the history fails, the caller gets the error, the table (and the
  routes file) hold the new route, and the routing engine keeps routing without it.
\<close>

theorem history_failure_splits:
  assumes "in_sync a" and "guard_write_action env r who ''route_create'' a = (Inr u, t)"
    and "validate_route_payload (ae_loader env) payload = Inr route"
    and "create_route (ae_loader env) route (adm_loader t) = (Inr v, l)"
    and "fst (record_change env ''create'' (r_id route) who JNull (route_dump (ae_loader env) route) ''route-created''
           (t\<lparr>adm_loader := l\<rparr>)) = Inl e"
  shows "\<exists>b. create_route_handler env r payload who a = (Inl e, b) \<and>
    l_routes (adm_loader b) = l_routes (adm_loader a) @ [route] \<and> adm_engine b = adm_engine a \<and> \<not> in_sync b"
proof -
  obtain b where h: "record_change env ''create'' (r_id route) who JNull (route_dump (ae_loader env) route) ''route-created''
      (t\<lparr>adm_loader := l\<rparr>) = (Inl e, b)" using assms(5) by (metis prod.collapse)
  have "create_route_handler env r payload who a = (Inl e, b)"
    using assms(2-4) h by (simp add: create_route_handler_def reporting_conflicts_def catching_def asks_def and_then_def
        on_loader_def Let_def)
  moreover have "routing t = routing a" by (rule keepsD [OF guard_keeps(2) assms(2)])
  moreover have "routing b = routing (t\<lparr>adm_loader := l\<rparr>)"
    using h stores_keep(2) unfolding record_change_def keeps_def by (metis snd_conv)
  moreover have "l_routes l = l_routes (adm_loader t) @ [route]"
    using assms(4) by (auto simp: create_route_def dest!: save_routes_Inr split: if_splits)
  ultimately show ?thesis using assms(1) by (auto simp: routing_def in_sync_def)
qed

section \<open>The properties at work\<close>

definition demo_route_deps :: "admin_demo loader_deps" where
  "demo_route_deps =
     \<lparr>yaml_load = (\<lambda>_. Inr JNull), yaml_dump = (\<lambda>_. []), json_loads = (\<lambda>_. Inr JNull),
      route_validate = (\<lambda>kvs. case dict_get kvs ''id'' of Some (JStr i) \<Rightarrow> Inr (demo_route i) | _ \<Rightarrow> Inl (ValidationError ''id'')),
      gateway_validate = (\<lambda>_. Inr default_GatewayConfig),
      route_dump = (\<lambda>r. JObj [(''id'', JStr (r_id r))]), route_dump_json = r_id, gateway_dump_json = gc_name,
      read_file = (\<lambda>w p. Inr None), write_file = (\<lambda>p t w. (Inr (), w)), getenv = (\<lambda>w n. None),
      redis_hgetall = (\<lambda>w k. Inr []), redis_get = (\<lambda>w k. Inr None), redis_pipeline = (\<lambda>cs w. (Inr (), w))\<rparr>"

definition demo_admin_env :: "admin_demo admin_env" where
  "demo_admin_env =
     \<lparr>ae_loader = demo_route_deps, ae_admin = demo_admin_deps, ae_settings = default_AdminSettings,
      ae_environment = ''test'', ae_parse_ipv6 = (\<lambda>_. None), ae_missing_key = HTTPException 403 ''Not authenticated'',
      ae_exn_str = (\<lambda>_. ''invalid''), ae_route_full = (\<lambda>r. JObj [(''id'', JStr (r_id r))]),
      ae_unified_diff = (\<lambda>_ _ _ _. []), ae_registry = []\<rparr>"

definition demo_admin :: "admin_demo admin" where
  "demo_admin =
     \<lparr>adm_loader = new_ConfigLoader ''routes.yaml'' ''gateway.yaml'' demo_stored, adm_engine = new_RoutingEngine,
      adm_networks = [], adm_limiter = new_write_limiter 120, adm_keys = demo_store,
      adm_history = \<lparr>hs_path = ''history.json'', hs_max_entries = 300, hs_entries = []\<rparr>, adm_audit_file = ''audit.log'',
      adm_actions = [], adm_auth_failures = []\<rparr>"

definition root_request :: request where
  "root_request = demo_request\<lparr>rq_headers := [(''x-admin-key'', ''root'')]\<rparr>"

definition demo_root :: AdminPrincipal where
  "demo_root = \<lparr>p_key_id = ''write-bootstrap-1'', p_role = Write, p_label = ''bootstrap-write''\<rparr>"

lemma demo_require_role:
  assumes "adm_keys a = demo_store" and "adm_networks a = []"
  shows "require_role demo_admin_env Write root_request a = (Inr demo_root, a)"
proof -
  have "lower ''X-Admin-Key'' = ''x-admin-key''" by code_simp
  then have "presented_key demo_admin_env root_request = Inr ''root''"
    by (simp add: presented_key_def header_get_def root_request_def)
  moreover have "authenticate demo_admin_deps ''root'' demo_store w = Inr (Some demo_root)" for w
    by (simp add: authenticate_def demo_store_def authenticate_record expires_ok_def expired_at_def demo_root_def
        del: authenticate_loop.simps)
  ultimately show ?thesis using assms
    by (simp add: require_role_def and_then_def asks_def demo_admin_env_def is_allowed_def demo_root_def ip_in_allowlist_def)
qed

lemma demo_iso: "ad_isoformat demo_admin_deps 0 = Inr ''0''"
proof -
  have "str_nat 0 = ''0''" by code_simp
  then show ?thesis using demo_admin_simps(11) [of 0] by simp
qed

lemma demo_env_simps [simp]:
  "ae_loader demo_admin_env = demo_route_deps" "ae_admin demo_admin_env = demo_admin_deps"
  "ae_settings demo_admin_env = default_AdminSettings"
  by (simp_all add: demo_admin_env_def)

lemma demo_route_deps_simps [simp]:
  "route_validate demo_route_deps kvs =
     (case dict_get kvs ''id'' of Some (JStr i) \<Rightarrow> Inr (demo_route i) | _ \<Rightarrow> Inl (ValidationError ''id''))"
  "route_dump demo_route_deps r = JObj [(''id'', JStr (r_id r))]"
  "write_file demo_route_deps p t w = (Inr (), w)" "redis_pipeline demo_route_deps cs w = (Inr (), w)"
  by (simp_all add: demo_route_deps_def)

lemmas demo_handler_defs =
  and_then_def asks_def guard_write_action_def limit_write_def allow_write_def default_AdminSettings_def
  new_write_limiter_def new_ConfigLoader_def dict_get_default_def reporting_conflicts_def catching_def
  validate_route_payload_def on_loader_def create_route_def save_routes_def Let_def
  record_change_def on_history_def append_entry_def new_entry_def demo_iso persist_history_def activate_def update_engine_def
  save_to_redis_def publish_reload_event_def on_files_def count_action_def audit_def audit_log_def delete_route_def
  lookup_route_def

lemma demo_create:
  "\<exists>j b. admin_endpoint demo_admin_env root_request (CreateRoute [(''id'', JStr ''x'')]) demo_admin = (Inr j, b) \<and>
     l_routes (adm_loader b) = [demo_route ''x''] \<and> adm_keys b = demo_store \<and> adm_networks b = [] \<and>
     adm_limiter b = \<lparr>wl_limit = 120, wl_window = 60,
       wl_events = [(''write-bootstrap-1:'' @ client_ip demo_admin_env root_request, [0])]\<rparr> \<and>
     dm_now (outside (adm_loader b)) = 0 \<and>
     hs_entries (adm_history b) = [history_entry ''hist-0'' ''0'' ''create'' ''x'' ''write-bootstrap-1'' ''write'' JNull
       (JObj [(''id'', JStr ''x'')]) ''route-created'']"
proof -
  have r: "require_role demo_admin_env Write root_request demo_admin = (Inr demo_root, demo_admin)"
    by (rule demo_require_role) (simp_all add: demo_admin_def)
  have "admin_endpoint demo_admin_env root_request (CreateRoute [(''id'', JStr ''x'')]) demo_admin =
      create_route_handler demo_admin_env root_request [(''id'', JStr ''x'')] demo_root demo_admin"
    by (simp add: admin_endpoint_def r)
  moreover have "str_nat 0 = ''0''" by code_simp
  ultimately show ?thesis
    by (simp add: create_route_handler_def demo_handler_defs demo_admin_def demo_root_def)
qed

theorem only_writers_change_witness:
  "\<exists>p. admits_writer demo_admin_env root_request demo_admin p"
proof -
  obtain j b where "admin_endpoint demo_admin_env root_request (CreateRoute [(''id'', JStr ''x'')]) demo_admin = (Inr j, b)"
    "l_routes (adm_loader b) = [demo_route ''x'']" using demo_create by blast
  then have "protected (snd (admin_endpoint demo_admin_env root_request (CreateRoute [(''id'', JStr ''x'')]) demo_admin)) \<noteq>
      protected demo_admin"
    by (simp add: protected_def demo_admin_def new_ConfigLoader_def)
  from conjunct2 [OF only_writers_change [OF this]] show ?thesis .
qed

lemma demo_in_sync: "in_sync demo_admin"
  by (simp add: in_sync_def demo_admin_def new_ConfigLoader_def new_RoutingEngine_def)

theorem engine_follows_loader_witness:
  "\<exists>b. snd (admin_endpoint demo_admin_env root_request (CreateRoute [(''id'', JStr ''x'')]) demo_admin) = b \<and>
     routes (adm_engine b) = [demo_route ''x'']"
proof -
  obtain j b where b: "admin_endpoint demo_admin_env root_request (CreateRoute [(''id'', JStr ''x'')]) demo_admin = (Inr j, b)"
    "l_routes (adm_loader b) = [demo_route ''x'']" using demo_create by blast
  from engine_follows_loader [OF b(1) demo_in_sync] b show ?thesis by (simp add: in_sync_def)
qed

text \<open>
  The creation is rolled back after another route has been put in; that route stays.
\<close>

theorem rollback_restores_witness:
  "\<exists>b b' c. snd (admin_endpoint demo_admin_env root_request (CreateRoute [(''id'', JStr ''x'')]) demo_admin) = b \<and>
     b' = b\<lparr>adm_loader := (adm_loader b)\<lparr>l_routes := [demo_route ''x'', demo_route ''y'']\<rparr>\<rparr> \<and>
     snd (admin_endpoint demo_admin_env root_request (RollbackRoute ''hist-0'') b') = c \<and> tbl c ''x'' = None \<and> tbl c ''y'' = Some (demo_route ''y'')"
proof -
  obtain j b where b: "admin_endpoint demo_admin_env root_request (CreateRoute [(''id'', JStr ''x'')]) demo_admin = (Inr j, b)"
    "l_routes (adm_loader b) = [demo_route ''x'']" "adm_keys b = demo_store" "adm_networks b = []"
    "adm_limiter b = \<lparr>wl_limit = 120, wl_window = 60,
       wl_events = [(''write-bootstrap-1:'' @ client_ip demo_admin_env root_request, [0])]\<rparr>"
    "dm_now (outside (adm_loader b)) = 0"
    "hs_entries (adm_history b) = [history_entry ''hist-0'' ''0'' ''create'' ''x'' ''write-bootstrap-1'' ''write'' JNull
       (JObj [(''id'', JStr ''x'')]) ''route-created'']" using demo_create by blast
  let ?b = "b\<lparr>adm_loader := (adm_loader b)\<lparr>l_routes := [demo_route ''x'', demo_route ''y'']\<rparr>\<rparr>"
  have f: "find_entry demo_admin_deps ''hist-0'' (adm_history ?b) = Inr (Some (last (hs_entries (adm_history b))))"
    by (simp add: find_entry_def b(7)) (simp add: history_entry_def dict_get_default_def)
  have r: "require_role demo_admin_env Write root_request ?b = (Inr demo_root, ?b)"
    by (rule demo_require_role) (simp_all add: b(3,4))
  have c: "rollback_change demo_admin_env JNull (JObj [(''id'', JStr ''x'')]) a =
      and_then (on_loader (delete_route demo_route_deps ''x'')) (\<lambda>_. ret (JObj [(''id'', JStr ''x'')], JNull)) a"
    if "l_routes (adm_loader a) = [demo_route ''x'', demo_route ''y'']" for a
    using that by (simp add: rollback_change_def and_then_def asks_def lookup_route_def)
  have "admin_endpoint demo_admin_env root_request (RollbackRoute ''hist-0'') ?b =
      rollback_route_handler demo_admin_env root_request ''hist-0'' demo_root ?b"
    by (simp add: admin_endpoint_def r)
  then obtain j' c where c': "admin_endpoint demo_admin_env root_request (RollbackRoute ''hist-0'') ?b = (Inr j', c)"
    using f by (simp add: rollback_route_handler_def demo_handler_defs b(2,5,6,7) demo_root_def c history_entry_def)
  have "tbl_ok demo_admin" and none: "tbl demo_admin i = None" for i
    by (simp_all add: tbl_ok_def tbl_def table_ok_def table_lookup_def demo_admin_def new_ConfigLoader_def)
  moreover have "snapshot_ok demo_route_deps route" if "route_validate demo_route_deps kvs = Inr route" for kvs route
    using that by (auto simp: snapshot_ok_def split: option.splits json.splits)
  moreover have "tbl_ok ?b" by (simp add: tbl_ok_def table_ok_def)
  moreover have names: "set (named_routes (ae_loader demo_admin_env) (CreateRoute [(''id'', JStr ''x'')])) = {''x''}"
    by (simp add: payload_id_def validate_route_payload_def)
  moreover have t: "tbl ?b ''x'' = tbl b ''x''" "tbl ?b ''y'' = Some (demo_route ''y'')" by (simp_all add: tbl_def table_lookup_def b(2))
  ultimately have "tbl c i = (if i \<in> set (named_routes (ae_loader demo_admin_env) (CreateRoute [(''id'', JStr ''x'')])) then tbl demo_admin i else tbl ?b i)" for i
    using f by (intro rollback_restores [OF _ b(1) _ _ _ _ c']) auto
  then have "tbl c ''x'' = None \<and> tbl c ''y'' = Some (demo_route ''y'')" unfolding names by (simp add: none t(2))
  then show ?thesis using b(1) c' by simp
qed

lemma demo_guard:
  "guard_write_action demo_admin_env root_request demo_root ''route_create'' demo_admin =
     (Inr (), demo_admin\<lparr>adm_limiter := \<lparr>wl_limit = 120, wl_window = 60,
        wl_events = [(''write-bootstrap-1:'' @ client_ip demo_admin_env root_request, [0])]\<rparr>\<rparr>)"
  by (simp add: demo_handler_defs demo_admin_def demo_root_def)

theorem invalid_route_conflict_witness:
  "\<exists>b. create_route_handler demo_admin_env root_request [] demo_root demo_admin = (Inl (HTTPException 409 ''invalid''), b)"
proof -
  have v: "validate_route_payload (ae_loader demo_admin_env) [] = Inl (ValidationError ''id'')"
    by (simp add: validate_route_payload_def)
  have "ae_exn_str demo_admin_env e = ''invalid''" for e by (simp add: demo_admin_env_def)
  then show ?thesis
    using invalid_route_conflict [OF v demo_guard]
    by (fastforce simp: and_then_def count_action_def audit_def asks_def on_files_def audit_log_def demo_admin_def new_ConfigLoader_def demo_iso)
qed

text \<open>A world whose history file cannot be written.\<close>

definition full_disk :: "admin_demo admin_env" where
  "full_disk = demo_admin_env\<lparr>ae_admin := demo_admin_deps\<lparr>ad_write := (\<lambda>p t w. (Inl OSError, w))\<rparr>\<rparr>"

theorem history_failure_splits_witness:
  "\<exists>b. create_route_handler full_disk root_request [(''id'', JStr ''x'')] demo_root demo_admin = (Inl OSError, b) \<and> \<not> in_sync b"
proof -
  have iso: "ad_isoformat (ae_admin full_disk) 0 = Inr ''0''" using demo_iso by (simp add: full_disk_def)
  have g: "\<exists>t. guard_write_action full_disk root_request demo_root ''route_create'' demo_admin = (Inr (), t) \<and>
      adm_loader t = adm_loader demo_admin \<and> adm_history t = adm_history demo_admin"
    by (simp add: full_disk_def demo_handler_defs demo_admin_def)
  then obtain t where t: "guard_write_action full_disk root_request demo_root ''route_create'' demo_admin = (Inr (), t)"
    "adm_loader t = adm_loader demo_admin" "adm_history t = adm_history demo_admin" by blast
  have v: "validate_route_payload (ae_loader full_disk) [(''id'', JStr ''x'')] = Inr (demo_route ''x'')"
    by (simp add: full_disk_def validate_route_payload_def)
  obtain l where l: "create_route (ae_loader full_disk) (demo_route ''x'') (adm_loader t) = (Inr (), l)" "outside l = demo_stored"
    by (simp add: full_disk_def t(2) create_route_def save_routes_def demo_admin_def new_ConfigLoader_def)
  have "fst (record_change full_disk ''create'' (r_id (demo_route ''x'')) demo_root JNull (route_dump (ae_loader full_disk) (demo_route ''x''))
      ''route-created'' (t\<lparr>adm_loader := l\<rparr>)) = Inl OSError"
    using iso by (simp add: record_change_def on_history_def append_entry_def new_entry_def and_then_def persist_history_def l(2))
      (simp add: full_disk_def and_then_def persist_history_def)
  from history_failure_splits [OF demo_in_sync t(1) v l(1) this] show ?thesis by auto
qed

end
