(* ===== verification/AdminConc.thy ===== *)
theory AdminConc
  imports AdminSafety
begin

text \<open>
  The admin process under concurrency. A handler that changes routes runs without suspension up to
  \<open>pipeline.execute()\<close> in \<open>save_to_redis\<close>: the loader's lock is free whenever one of its
  operations starts, because only the load at start-up waits while it holds it. It then waits for Redis
  twice, once for the saved table and once for the published message; all other handlers never wait.
  A request is thus at one of four points, and a schedule is a list of events.
\<close>

section \<open>A handler up to its first wait\<close>

datatype reply = Reply json | ReplyReloaded

record finish =
  fin_who :: AdminPrincipal
  fin_action :: string
  fin_detail :: "(string \<times> json) list"
  fin_reply :: reply

definition then_finish :: "AdminPrincipal \<Rightarrow> string \<Rightarrow> (string \<times> json) list \<Rightarrow> reply \<Rightarrow> ('w admin, finish) act" where
  "then_finish who action detail answer =
     ret \<lparr>fin_who = who, fin_action = action, fin_detail = detail, fin_reply = answer\<rparr>"

text \<open>What each of the five handlers does before it installs the table: table, history, and what is left to say.\<close>

fun change_of :: "'w admin_env \<Rightarrow> request \<Rightarrow> admin_call \<Rightarrow> AdminPrincipal \<Rightarrow> ('w admin, finish) act" where
  "change_of env r (CreateRoute payload) who =
     and_then (guard_write_action env r who ''route_create'') (\<lambda>_.
     and_then (reporting_conflicts env r who ''route_create''
        (and_then (asks (\<lambda>_. validate_route_payload (ae_loader env) payload)) (\<lambda>route.
         and_then (on_loader (create_route (ae_loader env) route)) (\<lambda>_. ret route)))) (\<lambda>route.
     and_then (record_change env ''create'' (r_id route) who JNull (route_dump (ae_loader env) route) ''route-created'') (\<lambda>_.
     then_finish who ''route_create'' [(''route_id'', JStr (r_id route))]
       (Reply (JObj [(''status'', JStr ''created''), (''route'', route_dump (ae_loader env) route)])))))"
| "change_of env r (UpdateRoute rid payload) who =
     and_then (guard_write_action env r who ''route_update'') (\<lambda>_.
     and_then (lookup_route rid) (\<lambda>before_route.
     case before_route of
       None \<Rightarrow>
         and_then (count_action ''route_update'' ''not_found'') (\<lambda>_.
         and_then (audit env r (Some who) ''route_update'' ''not_found'' [(''route_id'', JStr rid)]) (\<lambda>_.
         throw (no_route rid)))
     | Some old \<Rightarrow>
         and_then (reporting_conflicts env r who ''route_update''
            (and_then (asks (\<lambda>_. validate_route_payload (ae_loader env) payload)) (\<lambda>route.
             and_then (on_loader (update_route (ae_loader env) rid route)) (\<lambda>_. ret route)))) (\<lambda>route.
         and_then (record_change env ''update'' (r_id route) who (route_dump (ae_loader env) old)
                     (route_dump (ae_loader env) route) (''updated-from:'' @ rid)) (\<lambda>_.
         then_finish who ''route_update'' [(''route_id'', JStr (r_id route))]
           (Reply (JObj [(''status'', JStr ''updated''), (''route'', route_dump (ae_loader env) route)]))))))"
| "change_of env r (DeleteRoute rid) who =
     and_then (guard_write_action env r who ''route_delete'') (\<lambda>_.
     and_then (lookup_route rid) (\<lambda>found.
     case found of
       None \<Rightarrow>
         and_then (count_action ''route_delete'' ''not_found'') (\<lambda>_.
         and_then (audit env r (Some who) ''route_delete'' ''not_found'' [(''route_id'', JStr rid)]) (\<lambda>_.
         throw (no_route rid)))
     | Some route \<Rightarrow>
         and_then (on_loader (delete_route (ae_loader env) rid)) (\<lambda>_.
         and_then (record_change env ''delete'' rid who (route_dump (ae_loader env) route) JNull ''route-deleted'') (\<lambda>_.
         then_finish who ''route_delete'' [(''route_id'', JStr rid)]
           (Reply (JObj [(''status'', JStr ''deleted''), (''route_id'', JStr rid)]))))))"
| "change_of env r (RollbackRoute entry_id) who =
     and_then (guard_write_action env r who ''route_rollback'') (\<lambda>_.
     and_then (asks (\<lambda>a. find_entry (ae_admin env) entry_id (adm_history a))) (\<lambda>found.
     case found of
       None \<Rightarrow> throw (HTTPException 404 (''History entry '' @ quoted entry_id @ '' not found''))
     | Some entry \<Rightarrow>
         and_then (asks (\<lambda>_. json_dict_get entry ''before'' JNull)) (\<lambda>before_snapshot.
         and_then (asks (\<lambda>_. json_dict_get entry ''after'' JNull)) (\<lambda>after_snapshot.
         and_then (rollback_change env before_snapshot after_snapshot) (\<lambda>(rollback_before, rollback_after).
         and_then (asks (\<lambda>_. json_dict_get entry ''route_id'' (JStr []))) (\<lambda>rid.
         and_then (record_change env ''rollback'' (py_str (ad_repr (ae_admin env)) rid) who rollback_before rollback_after
                     (''rollback-of:'' @ entry_id)) (\<lambda>_.
         then_finish who ''route_rollback'' [(''entry_id'', JStr entry_id)]
           (Reply (JObj [(''status'', JStr ''rolled_back''), (''history_entry_id'', JStr entry_id)])))))))))"
| "change_of env r ReloadConfig who =
     and_then (guard_write_action env r who ''config_reload'') (\<lambda>_.
     and_then (on_loader (reload (ae_loader env))) (\<lambda>_.
     then_finish who ''config_reload'' [] ReplyReloaded))"

fun waits :: "admin_call \<Rightarrow> bool" where
  "waits (CreateRoute _) = True"
| "waits (UpdateRoute _ _) = True"
| "waits (DeleteRoute _) = True"
| "waits (RollbackRoute _) = True"
| "waits ReloadConfig = True"
| "waits _ = False"

section \<open>Program points and schedules\<close>

text \<open>
  A request was accepted, waits for Redis to execute its commands, waits for its message to be
  published, or was answered.
\<close>

datatype admin_point =
    Arrived admin_call
  | AtExecute "redis_cmd list" finish
  | AtPublish finish
  | Replied "json outcome"

definition first_turn :: "'w admin_env \<Rightarrow> request \<Rightarrow> admin_call \<Rightarrow> ('w admin, redis_cmd list \<times> finish) act" where
  "first_turn env r call =
     and_then (require_role env Write r) (\<lambda>who.
     and_then (change_of env r call who) (\<lambda>fin.
     and_then update_engine (\<lambda>_.
     and_then (asks (\<lambda>a. Inr (save_commands (ae_loader env) (adm_loader a)))) (\<lambda>cmds.
     ret (cmds, fin)))))"

fun answer_of :: "reply \<Rightarrow> ('w admin, json) act" where
  "answer_of (Reply j) = ret j"
| "answer_of ReplyReloaded =
     and_then (asks (\<lambda>a. Inr (JInt (int (length (l_routes (adm_loader a))))))) (\<lambda>n.
     ret (JObj [(''status'', JStr ''reloaded''), (''routes'', n)]))"

definition last_turn :: "'w admin_env \<Rightarrow> request \<Rightarrow> finish \<Rightarrow> ('w admin, json) act" where
  "last_turn env r fin =
     and_then (publish_reload_event env) (\<lambda>_.
     and_then (count_action (fin_action fin) ''ok'') (\<lambda>_.
     and_then (audit env r (Some (fin_who fin)) (fin_action fin) ''ok'' (fin_detail fin)) (\<lambda>_.
     answer_of (fin_reply fin))))"

fun admin_turn :: "'w admin_env \<Rightarrow> request \<Rightarrow> admin_point \<times> 'w admin \<Rightarrow> admin_point \<times> 'w admin" where
  "admin_turn env r (Arrived call, a) =
     (if waits call
      then (case first_turn env r call a of
              (Inl e, b) \<Rightarrow> (Replied (Inl e), b)
            | (Inr (cmds, fin), b) \<Rightarrow> (AtExecute cmds fin, b))
      else (case admin_endpoint env r call a of (res, b) \<Rightarrow> (Replied res, b)))"
| "admin_turn env r (AtExecute cmds fin, a) =
     (case on_files (redis_pipeline (ae_loader env) cmds) a of
        (Inl e, b) \<Rightarrow> (Replied (Inl e), b)
      | (Inr _, b) \<Rightarrow> (AtPublish fin, b))"
| "admin_turn env r (AtPublish fin, a) = (case last_turn env r fin a of (res, b) \<Rightarrow> (Replied res, b))"
| "admin_turn env r (Replied res, a) = (Replied res, a)"

text \<open>
  Events: a request arrives, a request has a turn, or the world moves: time passes, files and Redis are
  changed from elsewhere.
\<close>

datatype 'w event = Arrive request admin_call | Turn nat | Elsewhere "'w \<Rightarrow> 'w"

type_synonym jobs = "(request \<times> admin_point) list"

fun admin_event :: "'w admin_env \<Rightarrow> 'w event \<Rightarrow> jobs \<times> 'w admin \<Rightarrow> jobs \<times> 'w admin" where
  "admin_event env (Arrive r call) (js, a) = (js @ [(r, Arrived call)], a)"
| "admin_event env (Turn i) (js, a) =
     (if i < length js
      then (case admin_turn env (fst (js ! i)) (snd (js ! i), a) of (p, b) \<Rightarrow> (js[i := (fst (js ! i), p)], b))
      else (js, a))"
| "admin_event env (Elsewhere f) (js, a) =
     (js, a\<lparr>adm_loader := (adm_loader a)\<lparr>outside := f (outside (adm_loader a))\<rparr>\<rparr>)"

definition admin_run :: "'w admin_env \<Rightarrow> 'w event list \<Rightarrow> jobs \<times> 'w admin \<Rightarrow> jobs \<times> 'w admin" where
  "admin_run env evs st = foldl (\<lambda>st ev. admin_event env ev st) st evs"

lemma admin_run_simps [simp]:
  "admin_run env [] st = st" "admin_run env (ev # evs) st = admin_run env evs (admin_event env ev st)"
  "admin_run env (evs @ [ev]) st = admin_event env ev (admin_run env evs st)"
  by (simp_all add: admin_run_def)

section \<open>The turns of a request are the handler\<close>

lemma and_then_assoc': "and_then (and_then m f) g = and_then m (\<lambda>a. and_then (f a) g)"
  by (rule ext) (rule and_then_assoc)

lemma and_then_ret [simp]: "and_then (ret x) f = f x" "and_then (throw e) f = throw e"
  by (simp_all add: fun_eq_iff and_then_def)

lemma and_then_option:
  "and_then (case v of None \<Rightarrow> m | Some x \<Rightarrow> n x) g = (case v of None \<Rightarrow> and_then m g | Some x \<Rightarrow> and_then (n x) g)"
  by (cases v) simp_all

lemma and_then_pair: "and_then (case p of (x, y) \<Rightarrow> f x y) g = (case p of (x, y) \<Rightarrow> and_then (f x y) g)"
  by (cases p) simp

lemma handler_change:
  "waits call \<Longrightarrow> handler_of env r call who = and_then (change_of env r call who) (\<lambda>fin.
     and_then (activate env r (fin_who fin) (fin_action fin) (fin_detail fin)) (\<lambda>_. answer_of (fin_reply fin)))"
  by (cases call)
     (simp_all add: create_route_handler_def update_route_handler_def delete_route_handler_def rollback_route_handler_def
       reload_config_handler_def then_finish_def and_then_assoc' and_then_option and_then_pair Let_def cong: option.case_cong)

lemma save_split:
  "on_loader (save_to_redis d) =
     and_then (asks (\<lambda>a. Inr (save_commands d (adm_loader a)))) (\<lambda>cmds. on_files (redis_pipeline d cmds))"
  by (simp add: fun_eq_iff and_then_def asks_def on_loader_def on_files_def save_to_redis_def split: prod.split)

lemma endpoint_turns:
  "waits call \<Longrightarrow> admin_endpoint env r call =
     and_then (first_turn env r call) (\<lambda>(cmds, fin).
     and_then (on_files (redis_pipeline (ae_loader env) cmds)) (\<lambda>_. last_turn env r fin))"
proof -
  assume w: "waits call"
  then have "required_role call = Some Write" by (cases call) simp_all
  moreover have "handler_of env r call = (\<lambda>who. and_then (change_of env r call who) (\<lambda>fin.
     and_then (activate env r (fin_who fin) (fin_action fin) (fin_detail fin)) (\<lambda>_. answer_of (fin_reply fin))))"
    using handler_change [OF w] by blast
  ultimately show ?thesis
    by (simp add: admin_endpoint_def first_turn_def last_turn_def activate_def save_split and_then_assoc')
qed

lemma alone_is_endpoint:
  "admin_turn env r (admin_turn env r (admin_turn env r (Arrived call, a))) =
     (case admin_endpoint env r call a of (res, b) \<Rightarrow> (Replied res, b))"
proof (cases "waits call")
  case False
  then show ?thesis by (simp split: prod.split)
next
  case True
  then show ?thesis
    by (simp add: endpoint_turns and_then_def split: prod.split sum.split)
qed


section \<open>Where the protected state changes\<close>

lemma later_turns_keep:
  "keeps protected (on_files m)" "keeps protected (last_turn env r fin)"
proof -
  have "keeps protected (answer_of (fin_reply fin))" by (cases "fin_reply fin") (simp_all add: keeps_intros)
  then show "keeps protected (last_turn env r fin)" unfolding last_turn_def by (intro keeps_intros)
qed (rule keeps_intros)

lemma turn_keeps:
  assumes "\<And>call. p \<noteq> Arrived call"
  shows "protected (snd (admin_turn env r (p, a))) = protected a"
proof (cases p)
  case (Arrived call)
  with assms show ?thesis by blast
next
  case (AtExecute cmds fin)
  then show ?thesis
    using keepsD [OF later_turns_keep(1), of "redis_pipeline (ae_loader env) cmds" a] by (simp split: prod.split sum.split)
next
  case (AtPublish fin)
  then show ?thesis using keepsD [OF later_turns_keep(2), of env r fin a] by (simp split: prod.split)
next
  case (Replied res)
  then show ?thesis by simp
qed

lemma turned: "fst (admin_turn env r pa) \<noteq> Arrived c"
  by (cases "(env, r, pa)" rule: admin_turn.cases) (auto split: prod.split sum.split)

lemma first_turn_protected:
  "protected (snd (admin_turn env r (Arrived call, a))) = protected (snd (admin_endpoint env r call a))"
proof -
  let ?q = "admin_turn env r (Arrived call, a)"
  have later: "protected (snd (admin_turn env r (admin_turn env r pa))) = protected (snd (admin_turn env r pa))" for pa
    using turn_keeps [of "fst (admin_turn env r pa)" env r "snd (admin_turn env r pa)", OF turned] by simp
  have "snd (admin_turn env r (admin_turn env r ?q)) = snd (admin_endpoint env r call a)"
    by (simp only: alone_is_endpoint split_beta snd_conv)
  then show ?thesis using later [of ?q] later [of "(Arrived call, a)"] by metis
qed

lemma event_writer:
  assumes "protected (snd (admin_event env ev (js, a))) \<noteq> protected a"
  obtains i r call p where "ev = Turn i" and "i < length js" and "js ! i = (r, Arrived call)"
    and "required_role call = Some Write" and "admits_writer env r a p"
proof (cases ev)
  case (Turn i)
  obtain r p where job: "js ! i = (r, p)" by fastforce
  from assms Turn job have i: "i < length js" "protected (snd (admin_turn env r (p, a))) \<noteq> protected a"
    by (auto split: if_splits prod.splits)
  then obtain call where p: "p = Arrived call" using turn_keeps by blast
  with i(2) have "protected (snd (admin_endpoint env r call a)) \<noteq> protected a" by (simp add: first_turn_protected del: admin_turn.simps)
  from writers_only [OF this] that Turn i(1) job p show thesis by blast
qed (use assms in \<open>auto simp: protected_def\<close>)

section \<open>The engine at every wait\<close>

definition answered_error :: "jobs \<Rightarrow> bool" where
  "answered_error js = list_ex (\<lambda>(r, p). case p of Replied (Inl e) \<Rightarrow> True | _ \<Rightarrow> False) js"

lemma first_turn_sync: "first_turn env r call a = (Inr x, b) \<Longrightarrow> in_sync b"
  by (auto simp: first_turn_def and_then_cases asks_Inr update_engine_def in_sync_def update_routes_def Let_def)

lemma quick_calls_keep: "\<not> waits call \<Longrightarrow> keeps routing (admin_endpoint env r call)"
proof -
  assume "\<not> waits call"
  then have "keeps routing (handler_of env r call who)" for who
    by (cases call) (simp_all add: keeps_intros others_keep_routing)
  then show ?thesis unfolding admin_endpoint_def by (cases "required_role call") (simp_all add: keeps_intros)
qed

lemma routing_sync: "routing b = routing a \<Longrightarrow> in_sync b = in_sync a"
  by (simp add: routing_def in_sync_def)

lemma turn_sync:
  assumes "in_sync a" and "admin_turn env r (p, a) = (q, b)"
  shows "in_sync b \<or> (\<exists>e. q = Replied (Inl e))"
proof (cases p)
  case (Arrived call)
  with assms show ?thesis
    using keepsD [OF quick_calls_keep, of call env r a _ b] routing_sync [of b a] first_turn_sync [of env r call a]
    by (auto split: if_splits prod.splits sum.splits)
next
  case (AtExecute cmds fin)
  with assms show ?thesis
    using keepsD [OF on_files_keeps(2)] routing_sync by (auto split: prod.splits sum.splits) blast+
next
  case (AtPublish fin)
  with assms show ?thesis
    using keepsD [OF routing_protected [OF later_turns_keep(2)]] routing_sync by (auto split: prod.splits) blast+
qed (use assms in simp)

lemma answered_stays: "js ! i = (r, Replied res) \<Longrightarrow> admin_event env ev (js, a) = (js', b) \<Longrightarrow> i < length js \<Longrightarrow>
    i < length js' \<and> js' ! i = (r, Replied res)"
  by (cases ev) (auto simp: nth_append nth_list_update split: if_splits prod.splits)

lemma answered_error_iff: "answered_error js \<longleftrightarrow> (\<exists>i r e. i < length js \<and> js ! i = (r, Replied (Inl e)))"
  by (auto simp: answered_error_def list_ex_length split: admin_point.splits sum.splits)

lemma event_sync:
  assumes "in_sync a \<or> answered_error js" and "admin_event env ev (js, a) = (js', b)"
  shows "in_sync b \<or> answered_error js'"
proof (cases "answered_error js")
  case True
  then show ?thesis using answered_stays [OF _ assms(2)] unfolding answered_error_iff by blast
next
  case False
  with assms(1) have s: "in_sync a" by simp
  show ?thesis
  proof (cases ev)
    case (Turn i)
    show ?thesis
    proof (cases "i < length js")
      case True
      with Turn assms(2) obtain q where q: "admin_turn env (fst (js ! i)) (snd (js ! i), a) = (q, b)"
        "js' = js[i := (fst (js ! i), q)]" by (auto split: prod.splits)
      from turn_sync [OF s q(1)] True q(2) show ?thesis
        unfolding answered_error_iff by (metis length_list_update nth_list_update_eq)
    qed (use Turn assms(2) s in simp)
  qed (use assms(2) s in \<open>auto simp: in_sync_def\<close>)
qed

lemma run_sync: "in_sync a \<Longrightarrow> admin_run env evs ([], a) = (js, b) \<Longrightarrow> in_sync b \<or> answered_error js"
proof (induction evs arbitrary: js b rule: rev_induct)
  case Nil
  then show ?case by simp
next
  case (snoc ev evs)
  obtain js0 b0 where run: "admin_run env evs ([], a) = (js0, b0)" by fastforce
  with snoc.prems show ?case using event_sync [OF snoc.IH [OF snoc.prems(1) run]] by simp
qed

section \<open>What the central store holds meanwhile\<close>

text \<open>
  A Redis transaction is executed as a whole or not at all, whatever the client is told; nothing else the
  admin process does reaches the two keys.
\<close>

definition central :: "'w loader_deps \<Rightarrow> 'w \<Rightarrow> (string, string) dict outcome \<times> string option outcome" where
  "central d w = (redis_hgetall d w ''oag:config:routes'', redis_get d w ''oag:config:gateway'')"

definition transactional :: "'w loader_deps \<Rightarrow> bool" where
  "transactional d = (\<forall>k items k2 v w. distinct (map fst items) \<and> k \<noteq> k2 \<longrightarrow>
     (let w' = snd (redis_pipeline d (DeleteKey k # map (\<lambda>(f, x). HSet k f x) items @ [SetKey k2 v]) w)
      in redis_hgetall d w' k = redis_hgetall d w k \<and> redis_get d w' k2 = redis_get d w k2 \<or>
         (\<exists>h. redis_hgetall d w' k = Inr h \<and> mset h = mset items) \<and> redis_get d w' k2 = Inr (Some v)))"

definition leaves_central :: "'w admin_env \<Rightarrow> bool" where
  "leaves_central env = (let v = central (ae_loader env); d = ae_admin env in
     (\<forall>p t. keeps v (ad_write d p t)) \<and> (\<forall>p t. keeps v (ad_append d p t)) \<and> keeps v (ad_token d) \<and>
     keeps v (ad_uuid_hex d) \<and> (\<forall>c m. keeps v (ad_publish d c m)) \<and> (\<forall>p t. keeps v (write_file (ae_loader env) p t)))"

definition central_of :: "'w admin_env \<Rightarrow> 'w admin \<Rightarrow> (string, string) dict outcome \<times> string option outcome" where
  "central_of env a = central (ae_loader env) (outside (adm_loader a))"

lemma central_holds_cong: "central d w = central d w' \<Longrightarrow> central_holds d rs g w = central_holds d rs g w'"
  by (simp add: central_def central_holds_def)

lemma transaction_effect:
  assumes "transactional d" and "table_ok s"
  shows "central d (snd (redis_pipeline d (save_commands d s) w)) = central d w \<or>
    central_holds d (l_routes s) (l_gateway_cfg s) (snd (redis_pipeline d (save_commands d s) w))"
proof -
  let ?items = "map (\<lambda>r. (r_id r, route_dump_json d r)) (l_routes s)"
  have "save_commands d s = DeleteKey ''oag:config:routes'' # map (\<lambda>(f, x). HSet ''oag:config:routes'' f x) ?items @
      [SetKey ''oag:config:gateway'' (gateway_dump_json d (l_gateway_cfg s))]"
    by (simp add: save_commands_def o_def)
  moreover have "distinct (map fst ?items)" using assms(2) by (simp add: table_ok_def o_def)
  ultimately show ?thesis
    using assms(1) [unfolded transactional_def, rule_format, of ?items "''oag:config:routes''" "''oag:config:gateway''"
        "gateway_dump_json d (l_gateway_cfg s)" w]
    by (auto simp: central_def central_holds_def Let_def)
qed

text \<open>Parts of the state, and the world in each.\<close>

lemma part_keeps:
  "keeps (central (ae_loader env)) m1 \<Longrightarrow> keeps (central_of env) (on_files m1)"
  "keeps (\<lambda>l. central (ae_loader env) (outside l)) m2 \<Longrightarrow> keeps (central_of env) (on_loader m2)"
  "keeps (\<lambda>kw. central (ae_loader env) (snd kw)) m3 \<Longrightarrow> keeps (central_of env) (on_keys m3)"
  "keeps (\<lambda>hw. central (ae_loader env) (snd hw)) m4 \<Longrightarrow> keeps (central_of env) (on_history m4)"
  by (auto simp: keeps_def central_of_def on_files_def on_loader_def on_keys_def on_history_def split: prod.split)
     (metis snd_conv)+

lemma beside_keeps:
  "keeps v m \<Longrightarrow> keeps (\<lambda>sw. v (snd sw)) (beside m)" "keeps (\<lambda>sw. v (snd sw)) (modify f)" "keeps u (reading g)"
  by (simp_all add: keeps_def)

lemma stores_leave:
  assumes "leaves_central env"
  shows "keeps (\<lambda>kw. central (ae_loader env) (snd kw)) (create_key (ae_admin env) role label ttl)"
    and "keeps (\<lambda>kw. central (ae_loader env) (snd kw)) (deactivate_key (ae_admin env) kid)"
    and "keeps (\<lambda>hw. central (ae_loader env) (snd hw)) (append_entry (ae_admin env) ac rid k l b c n)"
    and "keeps (central (ae_loader env)) (audit_log (ae_admin env) path ev)"
    and "keeps (central_of env) (publish_reload_event env)"
proof -
  have io: "keeps (central (ae_loader env)) (ad_write (ae_admin env) p t)" "keeps (central (ae_loader env)) (ad_append (ae_admin env) p t)"
    "keeps (central (ae_loader env)) (ad_token (ae_admin env))" "keeps (central (ae_loader env)) (ad_uuid_hex (ae_admin env))"
    "keeps (central (ae_loader env)) (ad_publish (ae_admin env) c m)" for p t c m
    using assms by (simp_all add: leaves_central_def Let_def)
  have persist: "keeps (\<lambda>kw. central (ae_loader env) (snd kw)) (persist_keys (ae_admin env))"
    "keeps (\<lambda>kw. central (ae_loader env) (snd kw)) (persist_history (ae_admin env))"
    using beside_keeps(1) [OF io(1)] by (simp_all add: keeps_def persist_keys_def persist_history_def)
  have "keeps (central (ae_loader env)) (new_key (ae_admin env) role label ttl)"
    unfolding new_key_def by (intro keeps_intros io beside_keeps)
  then show "keeps (\<lambda>kw. central (ae_loader env) (snd kw)) (create_key (ae_admin env) role label ttl)"
    unfolding create_key_def by (intro keeps_intros beside_keeps persist)
  have "keeps (\<lambda>kw. central (ae_loader env) (snd kw))
      (and_then (modify (\<lambda>s. s\<lparr>ks_keys := ks\<rparr>)) (\<lambda>_. and_then (persist_keys (ae_admin env)) (\<lambda>_. ret True)))" for ks
    by (intro keeps_intros beside_keeps persist)
  then show "keeps (\<lambda>kw. central (ae_loader env) (snd kw)) (deactivate_key (ae_admin env) kid)"
    by (simp add: keeps_def deactivate_key_def split: sum.split prod.split)
  have "keeps (central (ae_loader env)) (new_entry (ae_admin env) ac rid k l b c n)"
    unfolding new_entry_def by (intro keeps_intros io beside_keeps)
  then show "keeps (\<lambda>hw. central (ae_loader env) (snd hw)) (append_entry (ae_admin env) ac rid k l b c n)"
    unfolding append_entry_def by (intro keeps_intros beside_keeps persist)
  show "keeps (central (ae_loader env)) (audit_log (ae_admin env) path ev)"
    unfolding audit_log_def by (intro keeps_intros io beside_keeps)
  show "keeps (central_of env) (publish_reload_event env)"
    unfolding publish_reload_event_def by (intro keeps_intros part_keeps io)
qed

lemma table_ops_leave:
  assumes "leaves_central env"
  shows "keeps (\<lambda>l. central (ae_loader env) (outside l)) (create_route (ae_loader env) route)"
    and "keeps (\<lambda>l. central (ae_loader env) (outside l)) (update_route (ae_loader env) rid route)"
    and "keeps (\<lambda>l. central (ae_loader env) (outside l)) (delete_route (ae_loader env) rid)"
    and "keeps (\<lambda>l. central (ae_loader env) (outside l)) (reload (ae_loader env))"
proof -
  have "keeps (central (ae_loader env)) (write_file (ae_loader env) p t)" for p t
    using assms by (simp add: leaves_central_def Let_def)
  then have s: "central (ae_loader env) (outside (snd (save_routes (ae_loader env) rs l))) = central (ae_loader env) (outside l)" for rs l
    by (simp add: keeps_def save_routes_def split: prod.split sum.split) (metis snd_conv)
  then show "keeps (\<lambda>l. central (ae_loader env) (outside l)) (create_route (ae_loader env) route)"
    "keeps (\<lambda>l. central (ae_loader env) (outside l)) (update_route (ae_loader env) rid route)"
    "keeps (\<lambda>l. central (ae_loader env) (outside l)) (delete_route (ae_loader env) rid)"
    by (simp_all add: keeps_def create_route_def update_route_def delete_route_def Let_def)
  show "keeps (\<lambda>l. central (ae_loader env) (outside l)) (reload (ae_loader env))"
    by (simp add: keeps_def reload_def Let_def split: sum.split)
qed

lemma turns_leave:
  assumes "leaves_central env"
  shows "waits call \<Longrightarrow> keeps (central_of env) (first_turn env r call)" and "keeps (central_of env) (last_turn env r fin)"
    and "\<not> waits call \<Longrightarrow> keeps (central_of env) (admin_endpoint env r call)"
proof -
  have simple: "keeps (central_of env) (count_action ac st)" "keeps (central_of env) (count_auth_failure role st)"
    "keeps (central_of env) (limit_write bucket env)" "keeps (central_of env) update_engine" for ac st role bucket
    by (simp_all add: keeps_def central_of_def count_action_def count_auth_failure_def limit_write_def update_engine_def
        split: prod.split)
  have audit: "keeps (central_of env) (audit env r p ac st dt)" for p ac st dt
    unfolding audit_def by (intro keeps_intros part_keeps stores_leave [OF assms])
  have entry: "keeps (central_of env) (record_change env ac rid who b c n)" for ac rid who b c n
    unfolding record_change_def by (intro part_keeps stores_leave [OF assms])
  note tables = table_ops_leave [OF assms, THEN part_keeps(2)]
  have guard: "keeps (central_of env) (guard_write_action env r who ac)" for who ac
    unfolding guard_write_action_def Let_def by (intro keeps_intros simple audit)
  have role: "keeps (central_of env) (require_role env role r)" for role
    unfolding require_role_def by (intro keeps_intros simple audit)
  have report: "keeps (central_of env) (reporting_conflicts env r who ac m)" if "keeps (central_of env) m" for who ac m
    unfolding reporting_conflicts_def by (intro keeps_intros simple audit that)
  have look: "keeps (central_of env) (lookup_route rid)" for rid
    unfolding lookup_route_def by (rule keeps_intros)
  have undo: "keeps (central_of env) (rollback_change env b c)" for b c
    unfolding rollback_change_def restore_or_create_def by (intro keeps_intros tables look)
  have change: "keeps (central_of env) (change_of env r call who)" if "waits call" for who
    using that by (cases call) (simp_all add: then_finish_def keeps_intros simple audit entry tables guard report look undo)
  have answer: "keeps (central_of env) (answer_of rep)" for rep
    by (cases rep) (simp_all add: keeps_intros)
  show "keeps (central_of env) (last_turn env r fin)"
    unfolding last_turn_def by (intro keeps_intros simple audit answer stores_leave(5) [OF assms])
  show "keeps (central_of env) (first_turn env r call)" if "waits call"
    unfolding first_turn_def by (intro keeps_intros role change simple that)
  show "keeps (central_of env) (admin_endpoint env r call)" if "\<not> waits call"
  proof -
    have "keeps (central_of env) (handler_of env r call who)" for who
      using that by (cases call) (auto simp: list_admin_keys_handler_def rotate_key_handler_def deactivate_key_handler_def
          intro!: keeps_intros simple audit guard part_keeps stores_leave [OF assms] split: option.splits)
    then show ?thesis unfolding admin_endpoint_def by (cases "required_role call") (simp_all add: keeps_intros role)
  qed
qed

section \<open>Distinct identifiers at every wait\<close>

lemma preserves_routing: "keeps routing m \<Longrightarrow> preserves tbl_ok m"
  by (simp add: keeps_def preserves_def routing_def tbl_ok_def table_ok_def)

definition files_distinct :: "'w loader_deps \<Rightarrow> bool" where
  "files_distinct d = (\<forall>l rs. load_routes d l = Inr rs \<longrightarrow> distinct (map r_id rs))"

lemma table_ops_preserve:
  "preserves tbl_ok (on_loader (create_route d route))" "preserves tbl_ok (on_loader (update_route d rid route))"
  "preserves tbl_ok (on_loader (delete_route d rid))"
  "files_distinct d \<Longrightarrow> preserves tbl_ok (on_loader (reload d))"
proof -
  have op: "preserves tbl_ok (on_loader (table_step d t))" for t
    using table_step_inv [of _ d t] by (simp add: preserves_def tbl_ok_def on_loader_def split_beta)
  from op [of "Create route"] op [of "Update rid route"] op [of "Delete rid"]
  show "preserves tbl_ok (on_loader (create_route d route))" "preserves tbl_ok (on_loader (update_route d rid route))"
    "preserves tbl_ok (on_loader (delete_route d rid))" by simp_all
  show "preserves tbl_ok (on_loader (reload d))" if "files_distinct d"
    using that by (auto simp: preserves_def tbl_ok_def table_ok_def on_loader_def reload_def Let_def files_distinct_def
        split: sum.split)
qed

lemma first_turn_preserves:
  assumes "files_distinct (ae_loader env)" and "waits call"
  shows "preserves tbl_ok (first_turn env r call)"
proof -
  note tables = table_ops_preserve [of "ae_loader env"] table_ops_preserve(4) [OF assms(1)]
  have other: "preserves tbl_ok (guard_write_action env r who ac)" "preserves tbl_ok (audit env r q ac st dt)"
    "preserves tbl_ok (count_action ac st)" "preserves tbl_ok (record_change env ac rid who b c n)"
    "preserves tbl_ok (lookup_route rid)" "preserves tbl_ok (require_role env role r)" "preserves tbl_ok (asks f)"
    "preserves tbl_ok (throw e)" "preserves tbl_ok (ret x)" "preserves tbl_ok update_engine" for who ac q st dt rid b c n role f e x
    by (rule preserves_routing, simp add: keeps_intros record_change_def
        | simp add: preserves_def update_engine_def tbl_ok_def)+
  have report: "preserves tbl_ok (reporting_conflicts env r who ac m)" if "preserves tbl_ok m" for who ac m
    unfolding reporting_conflicts_def by (intro preserves_intros other that)
  have undo: "preserves tbl_ok (rollback_change env b c)" for b c
    unfolding rollback_change_def restore_or_create_def Let_def by (intro preserves_intros tables other)
  have "preserves tbl_ok (change_of env r call who)" for who
    using assms(2) by (cases call) (simp_all add: then_finish_def preserves_intros tables other report undo)
  then show ?thesis unfolding first_turn_def by (intro preserves_intros other)
qed

lemma turn_tbl_ok:
  assumes "files_distinct (ae_loader env)" and "tbl_ok a"
  shows "tbl_ok (snd (admin_turn env r (p, a)))"
proof (cases "\<exists>call. p = Arrived call")
  case True
  then obtain call where p: "p = Arrived call" by blast
  show ?thesis
  proof (cases "waits call")
    case True
    then show ?thesis
      using first_turn_preserves [OF assms(1), of call r] assms(2) p
      by (auto simp: preserves_def split: prod.splits sum.splits)
  next
    case False
    then show ?thesis
      using preserves_routing [OF quick_calls_keep, of call env r] assms(2) p
      by (auto simp: preserves_def split: prod.splits)
  qed
next
  case False
  then have "protected (snd (admin_turn env r (p, a))) = protected a" using turn_keeps by blast
  then show ?thesis using assms(2) by (simp add: protected_def tbl_ok_def table_ok_def)
qed

section \<open>Schedules\<close>

text \<open>The loaders a schedule goes through, from its start.\<close>

fun loaders_seen :: "'w admin_env \<Rightarrow> 'w event list \<Rightarrow> jobs \<times> 'w admin \<Rightarrow> 'w ConfigLoader list" where
  "loaders_seen env [] st = [adm_loader (snd st)]"
| "loaders_seen env (ev # evs) st = adm_loader (snd st) # loaders_seen env evs (admin_event env ev st)"

lemma loaders_seen_snoc: "loaders_seen env (evs @ [ev]) st = loaders_seen env evs st @ [adm_loader (snd (admin_run env (evs @ [ev]) st))]"
  by (induction evs arbitrary: st) simp_all

lemma loaders_seen_last: "adm_loader (snd (admin_run env evs st)) \<in> set (loaders_seen env evs st)"
  by (induction evs arbitrary: st) simp_all

definition unsent :: "jobs \<Rightarrow> redis_cmd list set" where
  "unsent js = {cmds. \<exists>r fin. (r, AtExecute cmds fin) \<in> set js}"

definition world_leaves :: "'w admin_env \<Rightarrow> 'w event list \<Rightarrow> bool" where
  "world_leaves env evs = (\<forall>f. Elsewhere f \<in> set evs \<longrightarrow> (\<forall>w. central (ae_loader env) (f w) = central (ae_loader env) w))"

lemma first_turn_commands:
  "first_turn env r call a = (Inr (cmds, fin), b) \<Longrightarrow> cmds = save_commands (ae_loader env) (adm_loader b)"
  by (auto simp: first_turn_def and_then_cases asks_Inr)

lemma turn_effect:
  assumes "leaves_central env" and "admin_turn env r (p, a) = (q, b)"
  shows "(central_of env b = central_of env a \<or>
      (\<exists>cmds fin. p = AtExecute cmds fin \<and> outside (adm_loader b) = snd (redis_pipeline (ae_loader env) cmds (outside (adm_loader a))))) \<and>
    (\<forall>cmds fin. q = AtExecute cmds fin \<longrightarrow> cmds = save_commands (ae_loader env) (adm_loader b))"
proof (cases p)
  case (Arrived call)
  then show ?thesis
    using assms(2) keepsD [OF turns_leave(1) [OF assms(1)], of call r a] keepsD [OF turns_leave(3) [OF assms(1)], of call r a]
    by (auto split: if_splits prod.splits sum.splits dest: first_turn_commands)
next
  case (AtExecute cmds fin)
  then show ?thesis using assms(2) by (auto simp: on_files_def split: prod.splits sum.splits)
next
  case (AtPublish fin)
  then show ?thesis
    using assms(2) keepsD [OF turns_leave(2) [OF assms(1)], of r fin a] by (auto split: prod.splits)
next
  case (Replied res)
  then show ?thesis using assms(2) by auto
qed

lemma unsent_update: "cmds \<in> unsent (js[i := (r, q)]) \<Longrightarrow> cmds \<in> unsent js \<or> (\<exists>fin. q = AtExecute cmds fin)"
  using set_update_subset_insert [of js i "(r, q)"] unfolding unsent_def by auto

lemma unsent_nth: "i < length js \<Longrightarrow> js ! i = (r, AtExecute cmds fin) \<Longrightarrow> cmds \<in> unsent js"
  unfolding unsent_def by (metis (mono_tags, lifting) mem_Collect_eq nth_mem)

text \<open>One event: what is not sent yet, and what the store holds.\<close>

lemma event_effect:
  assumes "leaves_central env" and "world_leaves env [ev]" and "admin_event env ev (js, a) = (js', b)"
  shows "(central_of env b = central_of env a \<or>
      (\<exists>cmds \<in> unsent js. outside (adm_loader b) = snd (redis_pipeline (ae_loader env) cmds (outside (adm_loader a))))) \<and>
    unsent js' \<subseteq> insert (save_commands (ae_loader env) (adm_loader b)) (unsent js)"
proof (cases ev)
  case (Turn i)
  show ?thesis
  proof (cases "i < length js")
    case True
    obtain r p where job: "js ! i = (r, p)" by fastforce
    with True Turn assms(3) obtain q where q: "admin_turn env r (p, a) = (q, b)" "js' = js[i := (r, q)]"
      by (auto split: prod.splits)
    from turn_effect [OF assms(1) q(1)] q(2) True job show ?thesis
      by (auto dest!: unsent_update intro: unsent_nth)
  qed (use Turn assms(3) in auto)
next
  case (Arrive r call)
  have "unsent (js @ [(r, Arrived call)]) = unsent js" by (auto simp: unsent_def)
  with Arrive assms(3) show ?thesis by auto
qed (use assms(2,3) in \<open>auto simp: central_of_def world_leaves_def\<close>)

lemma event_tbl_ok:
  assumes "files_distinct (ae_loader env)" and "tbl_ok a"
  shows "tbl_ok (snd (admin_event env ev (js, a)))"
proof (cases ev)
  case (Turn i)
  then show ?thesis using turn_tbl_ok [OF assms, of "fst (js ! i)" "snd (js ! i)"] assms(2) by (auto split: prod.splits)
qed (use assms(2) in \<open>simp_all add: tbl_ok_def table_ok_def\<close>)

lemma run_central:
  assumes "leaves_central env" and "transactional (ae_loader env)" and "files_distinct (ae_loader env)" and "tbl_ok a"
  shows "world_leaves env evs \<Longrightarrow> admin_run env evs ([], a) = (js, b) \<Longrightarrow> tbl_ok b \<and>
    (\<forall>cmds \<in> unsent js. \<exists>s \<in> set (loaders_seen env evs ([], a)). table_ok s \<and> cmds = save_commands (ae_loader env) s) \<and>
    (central_of env b = central_of env a \<or> (\<exists>s \<in> set (loaders_seen env evs ([], a)). table_ok s \<and>
       central_holds (ae_loader env) (l_routes s) (l_gateway_cfg s) (outside (adm_loader b))))"
proof (induction evs arbitrary: js b rule: rev_induct)
  case Nil
  then show ?case using assms(4) by (simp add: unsent_def)
next
  case (snoc ev evs)
  obtain js0 b0 where run: "admin_run env evs ([], a) = (js0, b0)" by fastforce
  with snoc.prems have ev: "admin_event env ev (js0, b0) = (js, b)" and w: "world_leaves env evs" "world_leaves env [ev]"
    by (auto simp: world_leaves_def)
  note IH = snoc.IH [OF w(1) run] and eff = event_effect [OF assms(1) w(2) ev]
  have ok: "tbl_ok b" using event_tbl_ok [OF assms(3), of b0 ev js0] IH ev by simp
  have new: "adm_loader b \<in> set (loaders_seen env (evs @ [ev]) ([], a))"
    using loaders_seen_last [of env "evs @ [ev]" "([], a)"] snoc.prems(2) by simp
  have old: "set (loaders_seen env evs ([], a)) \<subseteq> set (loaders_seen env (evs @ [ev]) ([], a))" by (auto simp: loaders_seen_snoc)
  show ?case
  proof (intro conjI ballI)
    show "tbl_ok b" by (rule ok)
  next
    fix cmds assume "cmds \<in> unsent js"
    with eff show "\<exists>s \<in> set (loaders_seen env (evs @ [ev]) ([], a)). table_ok s \<and> cmds = save_commands (ae_loader env) s"
      using IH new old ok unfolding tbl_ok_def by blast
  next
    let ?holds = "\<lambda>w. \<exists>s \<in> set (loaders_seen env (evs @ [ev]) ([], a)). table_ok s \<and>
       central_holds (ae_loader env) (l_routes s) (l_gateway_cfg s) w"
    have past: "central_of env b0 = central_of env a \<or> ?holds (outside (adm_loader b0))" using IH old by blast
    from eff consider "central_of env b = central_of env b0"
      | cmds where "cmds \<in> unsent js0" "outside (adm_loader b) = snd (redis_pipeline (ae_loader env) cmds (outside (adm_loader b0)))"
      by blast
    then show "central_of env b = central_of env a \<or> ?holds (outside (adm_loader b))"
    proof cases
      case 1
      with past show ?thesis
        using central_holds_cong [of "ae_loader env" "outside (adm_loader b)" "outside (adm_loader b0)"] by (simp add: central_of_def)
    next
      case 2
      with IH obtain s where s: "s \<in> set (loaders_seen env evs ([], a))" "table_ok s" "cmds = save_commands (ae_loader env) s" by blast
      from transaction_effect [OF assms(2) s(2), of "outside (adm_loader b0)"] show ?thesis
      proof
        assume "central (ae_loader env) (snd (redis_pipeline (ae_loader env) (save_commands (ae_loader env) s) (outside (adm_loader b0)))) =
          central (ae_loader env) (outside (adm_loader b0))"
        with past s(3) 2(2) show ?thesis
          using central_holds_cong [of "ae_loader env" "outside (adm_loader b)" "outside (adm_loader b0)"] by (simp add: central_of_def)
      next
        assume "central_holds (ae_loader env) (l_routes s) (l_gateway_cfg s)
          (snd (redis_pipeline (ae_loader env) (save_commands (ae_loader env) s) (outside (adm_loader b0))))"
        with s old 2(2) show ?thesis by auto
      qed
    qed
  qed
qed

section \<open>Two creations\<close>

definition loaded :: "'w admin \<Rightarrow> RouteConfig list \<times> GatewayConfig" where
  "loaded a = (l_routes (adm_loader a), l_gateway_cfg (adm_loader a))"

lemma loaded_protected: "keeps protected m \<Longrightarrow> keeps loaded m"
  by (auto simp: keeps_def protected_def loaded_def)

lemma create_loaded:
  "on_loader (create_route d route) a = (Inr u, b) \<Longrightarrow>
     loaded b = (l_routes (adm_loader a) @ [route], l_gateway_cfg (adm_loader a)) \<and> r_id route \<notin> r_id ` set (l_routes (adm_loader a))"
  by (drule on_loader_Inr)
     (auto simp: create_route_def save_routes_def loaded_def list_ex_id split: if_splits prod.splits sum.splits)

lemma first_turn_create:
  assumes "first_turn env r (CreateRoute payload) a = (Inr (cmds, fin), b)"
  shows "\<exists>route. validate_route_payload (ae_loader env) payload = Inr route \<and> r_id route \<notin> r_id ` set (l_routes (adm_loader a)) \<and>
    loaded b = (l_routes (adm_loader a) @ [route], l_gateway_cfg (adm_loader a)) \<and>
    cmds = save_commands (ae_loader env) (adm_loader b)"
proof -
  from assms obtain route who a0 a1 a2 a3 u1 u2 entry where
    p: "require_role env Write r a = (Inr who, a0)" and
    g: "guard_write_action env r who ''route_create'' a0 = (Inr u1, a1)" and
    v: "validate_route_payload (ae_loader env) payload = Inr route" and
    c: "on_loader (create_route (ae_loader env) route) a1 = (Inr u2, a2)" and
    h: "record_change env ''create'' (r_id route) who JNull (route_dump (ae_loader env) route) ''route-created'' a2 = (Inr entry, a3)" and
    b: "update_engine a3 = (Inr (), b)" "cmds = save_commands (ae_loader env) (adm_loader b)"
    by (auto simp: first_turn_def then_finish_def and_then_cases reporting_conflicts_Inr asks_Inr)
  have "loaded a0 = loaded a" "loaded a1 = loaded a0"
    using keepsD [OF loaded_protected [OF require_role_keeps(1)] p] keepsD [OF loaded_protected [OF guard_keeps(1)] g] by simp_all
  moreover have "loaded a3 = loaded a2"
    using h by (auto simp: record_change_def on_history_def loaded_def split: prod.splits)
  moreover have "loaded b = loaded a3" using b(1) by (auto simp: update_engine_def loaded_def)
  ultimately show ?thesis using create_loaded [OF c] v b(2) by (auto simp: loaded_def)
qed

text \<open>The schedule in which the later table reaches Redis first, when both requests end well.\<close>

definition overtaking :: "request \<Rightarrow> admin_call \<Rightarrow> request \<Rightarrow> admin_call \<Rightarrow> 'w event list" where
  "overtaking r1 c1 r2 c2 =
     [Arrive r1 c1, Arrive r2 c2, Turn 0, Turn 1, Turn 1, Turn 0, Turn 1, Turn 0]"

lemma overtaking_run:
  assumes "admin_run env (overtaking r1 c1 r2 c2) ([], a) = ([(r1, Replied (Inr j1)), (r2, Replied (Inr j2))], b)"
    and "waits c1" and "waits c2"
  obtains cmds1 fin1 a1 cmds2 fin2 a2 a3 a4 a5 where
    "first_turn env r1 c1 a = (Inr (cmds1, fin1), a1)" and "first_turn env r2 c2 a1 = (Inr (cmds2, fin2), a2)"
    and "on_files (redis_pipeline (ae_loader env) cmds2) a2 = (Inr (), a3)"
    and "on_files (redis_pipeline (ae_loader env) cmds1) a3 = (Inr (), a4)"
    and "last_turn env r2 fin2 a4 = (Inr j2, a5)" and "last_turn env r1 fin1 a5 = (Inr j1, b)"
  using assms by (auto simp: overtaking_def split: prod.splits sum.splits intro: that)

section \<open>Properties\<close>

text \<open>
  C20. Concurrent requests never change the protected state halfway: whatever the requests of the admin process are
  doing, an event that changes the table, the gateway configuration, the engine, the keys or the
  history is the first turn of a request that an admitted writer made, so everything a request does to
  them happens at once, before it waits for Redis. The turns are the endpoint's: taken one after the other they are what
  \<open>admin_endpoint\<close> does.
\<close>

theorem concurrent_changes_atomic:
  assumes "protected (snd (admin_event env ev (js, a))) \<noteq> protected a"
  shows "(\<exists>i r call p. ev = Turn i \<and> i < length js \<and> js ! i = (r, Arrived call) \<and> required_role call = Some Write \<and>
      admits_writer env r a p \<and>
      admin_turn env r (admin_turn env r (admin_turn env r (Arrived call, a))) =
        (case admin_endpoint env r call a of (res, b) \<Rightarrow> (Replied res, b)))"
  by (rule event_writer [OF assms]) (use alone_is_endpoint in blast)

text \<open>
  C22. Between any two events of any schedule, with all requests at one of their waits, the
  routing engine holds the loader's table, unless a request was answered with an error.
\<close>

theorem concurrent_engine_in_sync:
  assumes "in_sync a" and "admin_run env evs ([], a) = (js, b)"
  shows "in_sync b \<or> answered_error js"
  using assms by (rule run_sync)

text \<open>
  C21. Whatever the interleaving and whichever saves fail, the central store never mixes two tables: it holds what it held
  at the start or one whole table that the admin process had at some time. A node that loads then has this
  table's route for every identifier and its gateway configuration (a hash has no order, so the order of the
  routes may differ), unless the table is empty: without routes it leaves no trace in the hash, and a node
  that loads it falls back to its own files, old routes included. Redis transactions are assumed to happen as a whole or
  not at all, nothing else to write the two keys, the models to read back what they dumped
  (\<open>codec_ok\<close>), and the routes file to hold distinct identifiers when it is reloaded.
\<close>

theorem central_store_never_mixed:
  assumes "leaves_central env" and "transactional (ae_loader env)" and "files_distinct (ae_loader env)"
    and "world_leaves env evs" and "tbl_ok a" and "admin_run env evs ([], a) = (js, b)"
  shows "central_of env b = central_of env a \<or>
    (\<exists>s \<in> set (loaders_seen env evs ([], a)). table_ok s \<and>
       central_holds (ae_loader env) (l_routes s) (l_gateway_cfg s) (outside (adm_loader b)) \<and>
       (\<forall>t. outside t = outside (adm_loader b) \<longrightarrow>
          (if l_routes s = [] then load_config (ae_loader env) t = reload (ae_loader env) t
           else codec_ok (ae_loader env) s \<longrightarrow>
             (\<exists>t'. load_config (ae_loader env) t = (Inr (), t') \<and> table_lookup t' = table_lookup s \<and> l_gateway_cfg t' = l_gateway_cfg s))))"
proof -
  consider "central_of env b = central_of env a" | s where "s \<in> set (loaders_seen env evs ([], a))" "table_ok s"
      "central_holds (ae_loader env) (l_routes s) (l_gateway_cfg s) (outside (adm_loader b))"
    using run_central [OF assms(1-3,5,4,6)] by blast
  then show ?thesis
  proof cases
    case (2 s)
    have "if l_routes s = [] then load_config (ae_loader env) t = reload (ae_loader env) t
        else codec_ok (ae_loader env) s \<longrightarrow>
          (\<exists>t'. load_config (ae_loader env) t = (Inr (), t') \<and> table_lookup t' = table_lookup s \<and> l_gateway_cfg t' = l_gateway_cfg s)"
      if "outside t = outside (adm_loader b)" for t
      using central_loads [of "ae_loader env" s t] central_empty [of "ae_loader env" "l_gateway_cfg s" t] 2 that by auto
    with 2 show ?thesis by blast
  qed blast
qed

text \<open>
  C23. Two saves may overtake each other: when the table of the second of two creations reaches Redis before the table of the
  first, both requests are answered as successful and the admin process has both routes, but
  the central store keeps the table without the second route, and every node that starts, the admin
  process included, loads that table: the acknowledged route is gone.
\<close>

theorem overtaken_save_is_lost:
  assumes "admin_run env (overtaking r1 (CreateRoute p1) r2 (CreateRoute p2)) ([], a) =
      ([(r1, Replied (Inr j1)), (r2, Replied (Inr j2))], b)"
    and "leaves_central env" and "stores_hash (ae_loader env)" and "tbl_ok a" and "codec_ok (ae_loader env) (adm_loader b)"
    and "outside t = outside (adm_loader b)"
  shows "\<exists>route1 route2 t'. validate_route_payload (ae_loader env) p1 = Inr route1 \<and>
    validate_route_payload (ae_loader env) p2 = Inr route2 \<and>
    l_routes (adm_loader b) = l_routes (adm_loader a) @ [route1, route2] \<and>
    load_config (ae_loader env) t = (Inr (), t') \<and> mset (l_routes t') = mset (l_routes (adm_loader a) @ [route1]) \<and>
    table_lookup t' (r_id route2) = None"
proof -
  obtain cmds1 fin1 a1 cmds2 fin2 a2 a3 a4 a5 where
    t1: "first_turn env r1 (CreateRoute p1) a = (Inr (cmds1, fin1), a1)" and
    t2: "first_turn env r2 (CreateRoute p2) a1 = (Inr (cmds2, fin2), a2)" and
    x2: "on_files (redis_pipeline (ae_loader env) cmds2) a2 = (Inr (), a3)" and
    x1: "on_files (redis_pipeline (ae_loader env) cmds1) a3 = (Inr (), a4)" and
    l2: "last_turn env r2 fin2 a4 = (Inr j2, a5)" and l1: "last_turn env r1 fin1 a5 = (Inr j1, b)"
    by (rule overtaking_run [OF assms(1)]) auto
  obtain route1 where 1: "validate_route_payload (ae_loader env) p1 = Inr route1"
    "r_id route1 \<notin> r_id ` set (l_routes (adm_loader a))"
    "loaded a1 = (l_routes (adm_loader a) @ [route1], l_gateway_cfg (adm_loader a))"
    "cmds1 = save_commands (ae_loader env) (adm_loader a1)" using first_turn_create [OF t1] by blast
  obtain route2 where 2: "validate_route_payload (ae_loader env) p2 = Inr route2"
    "r_id route2 \<notin> r_id ` set (l_routes (adm_loader a1))"
    "loaded a2 = (l_routes (adm_loader a1) @ [route2], l_gateway_cfg (adm_loader a1))" using first_turn_create [OF t2] by blast
  let ?s = "adm_loader a1"
  have ok: "table_ok ?s" using assms(4) 1(2,3) by (simp add: tbl_ok_def table_ok_def loaded_def)
  have "redis_pipeline (ae_loader env) (save_commands (ae_loader env) ?s) (outside (adm_loader a3)) = (Inr (), outside (adm_loader a4))"
    using x1 1(4) by (auto simp: on_files_def split: prod.splits)
  from saved_central [OF assms(3) ok this]
  have "central_holds (ae_loader env) (l_routes ?s) (l_gateway_cfg ?s) (outside (adm_loader a4))" .
  moreover have "central_of env b = central_of env a4"
    using keepsD [OF turns_leave(2) [OF assms(2)] l2] keepsD [OF turns_leave(2) [OF assms(2)] l1] by simp
  ultimately have held: "central_holds (ae_loader env) (l_routes ?s) (l_gateway_cfg ?s) (outside t)"
    using central_holds_cong [of "ae_loader env" "outside (adm_loader b)" "outside (adm_loader a4)"] assms(6) by (simp add: central_of_def)
  have "loaded b = loaded a2"
    using keepsD [OF loaded_protected [OF later_turns_keep(1)] x2] keepsD [OF loaded_protected [OF later_turns_keep(1)] x1]
      keepsD [OF loaded_protected [OF later_turns_keep(2)] l2] keepsD [OF loaded_protected [OF later_turns_keep(2)] l1] by simp
  then have b: "l_routes (adm_loader b) = l_routes (adm_loader a) @ [route1, route2]" "l_gateway_cfg (adm_loader b) = l_gateway_cfg ?s"
    using 1(3) 2(3) by (simp_all add: loaded_def)
  have "codec_ok (ae_loader env) ?s" using assms(5) b 1(3) by (simp add: codec_ok_def loaded_def)
  from central_loads [OF held ok _ this] 1(3) obtain t' where "load_config (ae_loader env) t = (Inr (), t')"
    "mset (l_routes t') = mset (l_routes ?s)" "table_lookup t' = table_lookup ?s" by (auto simp: loaded_def)
  moreover have "table_lookup ?s (r_id route2) = None" using 2(2) by (simp add: table_lookup_def find_route_None)
  ultimately show ?thesis using 1(1,3) 2(1) b(1) by (auto simp: loaded_def)
qed

section \<open>The properties at work\<close>

text \<open>A process whose world has a clock that stands still, files that take any text, and a Redis server.\<close>

definition demo_central_deps :: "mem admin_deps" where
  "demo_central_deps =
     \<lparr>ad_now = (\<lambda>w. 0), ad_monotonic = (\<lambda>w. 0), ad_exists = (\<lambda>w p. False), ad_read = (\<lambda>w p. Inl OSError),
      ad_write = (\<lambda>p t w. (Inr (), w)), ad_append = (\<lambda>p t w. (Inr (), w)), ad_token = (\<lambda>w. (Inr ''token'', w)),
      ad_uuid_hex = (\<lambda>w. (Inr ''0'', w)), ad_publish = (\<lambda>c m w. (Inr (), w)), ad_sha256 = (\<lambda>s. s),
      ad_fromiso = (\<lambda>s. Inr (Aware 0)), ad_isoformat = (\<lambda>t. Inr ''now''), ad_repr = (\<lambda>v. ''...''),
      ad_dumps = demo_dumps, ad_line = demo_dumps, ad_loads = demo_loads\<rparr>"

definition demo_conc_env :: "mem admin_env" where
  "demo_conc_env =
     \<lparr>ae_loader = (mem_deps [demo_route ''a'', demo_route ''b''])\<lparr>write_file := \<lambda>p t w. (Inr (), w)\<rparr>, ae_admin = demo_central_deps,
      ae_settings = default_AdminSettings\<lparr>as_max_write_actions_per_minute := 0\<rparr>,
      ae_environment = ''test'', ae_parse_ipv6 = (\<lambda>_. None), ae_missing_key = HTTPException 403 ''Not authenticated'',
      ae_exn_str = (\<lambda>_. ''invalid''), ae_route_full = (\<lambda>r. JStr (r_id r)), ae_unified_diff = (\<lambda>_ _ _ _. []), ae_registry = []\<rparr>"

definition demo_conc :: "mem admin" where
  "demo_conc =
     \<lparr>adm_loader = new_ConfigLoader ''routes.yaml'' ''gateway.yaml'' (\<lambda>_. [], \<lambda>_. None), adm_engine = new_RoutingEngine,
      adm_networks = [], adm_limiter = new_write_limiter 0, adm_keys = demo_store,
      adm_history = \<lparr>hs_path = ''history.json'', hs_max_entries = 300, hs_entries = []\<rparr>, adm_audit_file = ''audit.log'',
      adm_actions = [], adm_auth_failures = []\<rparr>"

lemma demo_conc_simps [simp]:
  "ae_loader demo_conc_env = (mem_deps [demo_route ''a'', demo_route ''b''])\<lparr>write_file := \<lambda>p t w. (Inr (), w)\<rparr>"
  "ae_admin demo_conc_env = demo_central_deps"
  "ae_settings demo_conc_env = default_AdminSettings\<lparr>as_max_write_actions_per_minute := 0\<rparr>"
  by (simp_all add: demo_conc_env_def)

lemma demo_conc_role:
  assumes "adm_keys a = demo_store" and "adm_networks a = []"
  shows "require_role demo_conc_env Write root_request a = (Inr demo_root, a)"
proof -
  have "lower ''X-Admin-Key'' = ''x-admin-key''" by code_simp
  then have "presented_key demo_conc_env root_request = Inr ''root''"
    by (simp add: presented_key_def header_get_def root_request_def)
  moreover have "authenticate demo_central_deps ''root'' demo_store w = Inr (Some demo_root)" for w
    by (simp add: authenticate_def demo_store_def authenticate_record expires_ok_def expired_at_def demo_root_def
        demo_central_deps_def del: authenticate_loop.simps)
  ultimately show ?thesis using assms
    by (simp add: require_role_def and_then_def asks_def is_allowed_def demo_root_def ip_in_allowlist_def)
qed

lemma demo_leaves: "leaves_central demo_conc_env"
  by (simp add: leaves_central_def keeps_def demo_central_deps_def Let_def)

lemma reliable_transactional:
  assumes "stores_hash d" and "\<And>cmds w. fst (redis_pipeline d cmds w) = Inr ()"
  shows "transactional d"
  unfolding transactional_def Let_def
proof (intro allI impI disjI2)
  fix k k2 v w and items :: "(string, string) dict"
  let ?w = "snd (redis_pipeline d (DeleteKey k # map (\<lambda>(f, x). HSet k f x) items @ [SetKey k2 v]) w)"
  assume "distinct (map fst items) \<and> k \<noteq> k2"
  moreover have "redis_pipeline d (DeleteKey k # map (\<lambda>(f, x). HSet k f x) items @ [SetKey k2 v]) w = (Inr (), ?w)"
    using assms(2) by (simp add: prod_eq_iff)
  ultimately show "(\<exists>h. redis_hgetall d ?w k = Inr h \<and> mset h = mset items) \<and> redis_get d ?w k2 = Inr (Some v)"
    using stores_hashD [OF assms(1)] by blast
qed

lemma stores_hash_write: "stores_hash (d\<lparr>write_file := f\<rparr>) = stores_hash d"
  by (simp add: stores_hash_def)

lemma demo_central: "stores_hash (ae_loader demo_conc_env)" "transactional (ae_loader demo_conc_env)"
proof -
  show s: "stores_hash (ae_loader demo_conc_env)"
    by (simp add: stores_hash_write mem_stores_hash)
  show "transactional (ae_loader demo_conc_env)"
    by (rule reliable_transactional [OF s]) (simp add: mem_deps_def)
qed

lemma demo_first_turn:
  assumes "adm_keys a = demo_store" and "adm_networks a = []" and "i \<in> {''a'', ''b''}"
    and "i \<notin> r_id ` set (l_routes (adm_loader a))"
  shows "\<exists>cmds fin b. first_turn demo_conc_env root_request (CreateRoute [(''id'', JStr i)]) a = (Inr (cmds, fin), b) \<and>
    adm_keys b = demo_store \<and> adm_networks b = [] \<and> (\<exists>j. fin_reply fin = Reply j) \<and>
    loaded b = (l_routes (adm_loader a) @ [demo_route i], l_gateway_cfg (adm_loader a))"
  using assms(3,4)
  by (auto simp: first_turn_def and_then_def demo_conc_role [OF assms(1,2)] guard_write_action_def default_AdminSettings_def
      reporting_conflicts_def catching_def asks_def validate_route_payload_def on_loader_def create_route_def save_routes_def
      record_change_def on_history_def append_entry_def new_entry_def persist_history_def then_finish_def update_engine_def
      mem_deps_def demo_central_deps_def loaded_def list_ex_id assms(1,2))

lemma demo_last_turn:
  "fin_reply fin = Reply j \<Longrightarrow> \<exists>b. last_turn demo_conc_env r fin a = (Inr j, b) \<and> loaded b = loaded a"
  by (simp add: last_turn_def and_then_def publish_reload_event_def catching_def on_files_def count_action_def audit_def asks_def
      audit_log_def demo_central_deps_def loaded_def)

lemma demo_execute:
  "\<exists>b. on_files (redis_pipeline (ae_loader demo_conc_env) cmds) a = (Inr (), b) \<and> loaded b = loaded a"
  by (simp add: on_files_def mem_deps_def loaded_def)

lemma demo_overtaking:
  "\<exists>j1 j2 b. admin_run demo_conc_env (overtaking root_request (CreateRoute [(''id'', JStr ''a'')]) root_request
      (CreateRoute [(''id'', JStr ''b'')])) ([], demo_conc) =
     ([(root_request, Replied (Inr j1)), (root_request, Replied (Inr j2))], b) \<and>
    loaded b = ([demo_route ''a'', demo_route ''b''], default_GatewayConfig)"
proof -
  let ?c = "\<lambda>i. CreateRoute [(''id'', JStr i)]"
  obtain cmds1 fin1 a1 j1 where 1: "first_turn demo_conc_env root_request (?c ''a'') demo_conc = (Inr (cmds1, fin1), a1)"
    "adm_keys a1 = demo_store" "adm_networks a1 = []" "fin_reply fin1 = Reply j1" "loaded a1 = ([demo_route ''a''], default_GatewayConfig)"
    using demo_first_turn [of demo_conc "''a''"] by (auto simp: demo_conc_def new_ConfigLoader_def)
  obtain cmds2 fin2 a2 j2 where 2: "first_turn demo_conc_env root_request (?c ''b'') a1 = (Inr (cmds2, fin2), a2)"
    "fin_reply fin2 = Reply j2" "loaded a2 = ([demo_route ''a'', demo_route ''b''], default_GatewayConfig)"
    using demo_first_turn [OF 1(2,3), of "''b''"] 1(5) by (auto simp: loaded_def)
  obtain a3 where 3: "on_files (redis_pipeline (ae_loader demo_conc_env) cmds2) a2 = (Inr (), a3)" "loaded a3 = loaded a2"
    using demo_execute by blast
  obtain a4 where 4: "on_files (redis_pipeline (ae_loader demo_conc_env) cmds1) a3 = (Inr (), a4)" "loaded a4 = loaded a3"
    using demo_execute by blast
  obtain a5 where 5: "last_turn demo_conc_env root_request fin2 a4 = (Inr j2, a5)" "loaded a5 = loaded a4"
    using demo_last_turn [OF 2(2)] by blast
  obtain b where 6: "last_turn demo_conc_env root_request fin1 a5 = (Inr j1, b)" "loaded b = loaded a5"
    using demo_last_turn [OF 1(4)] by blast
  show ?thesis
    using 1(1) 2(1,3) 3 4 5 6 by (simp add: overtaking_def del: demo_conc_simps)
qed

theorem overtaken_save_is_lost_witness:
  "\<exists>b t'. snd (admin_run demo_conc_env (overtaking root_request (CreateRoute [(''id'', JStr ''a'')]) root_request
      (CreateRoute [(''id'', JStr ''b'')])) ([], demo_conc)) = b \<and>
    l_routes (adm_loader b) = [demo_route ''a'', demo_route ''b''] \<and>
    load_config (ae_loader demo_conc_env) (adm_loader b) = (Inr (), t') \<and> l_routes t' = [demo_route ''a'']"
proof -
  let ?env = demo_conc_env
  obtain j1 j2 b where run: "admin_run ?env (overtaking root_request (CreateRoute [(''id'', JStr ''a'')]) root_request
      (CreateRoute [(''id'', JStr ''b'')])) ([], demo_conc) =
     ([(root_request, Replied (Inr j1)), (root_request, Replied (Inr j2))], b)"
    and l: "loaded b = ([demo_route ''a'', demo_route ''b''], default_GatewayConfig)" using demo_overtaking by blast
  have "stores_hash (ae_loader ?env)" by (rule demo_central(1))
  moreover have "tbl_ok demo_conc" by (simp add: tbl_ok_def table_ok_def demo_conc_def new_ConfigLoader_def)
  moreover have "codec_ok (ae_loader ?env) (adm_loader b)"
    using l by (simp add: codec_ok_def loaded_def parse_stored_def mem_deps_def bind_outcome_def default_GatewayConfig_def)
  ultimately obtain route1 route2 t' where
    v: "validate_route_payload (ae_loader ?env) [(''id'', JStr ''a'')] = Inr route1" and
    t': "load_config (ae_loader ?env) (adm_loader b) = (Inr (), t')" "mset (l_routes t') = mset (l_routes (adm_loader demo_conc) @ [route1])"
    using overtaken_save_is_lost [OF run demo_leaves] by blast
  have "route1 = demo_route ''a''" using v by (simp add: validate_route_payload_def mem_deps_def)
  then have "l_routes t' = [demo_route ''a'']" using t'(2) by (simp add: demo_conc_def new_ConfigLoader_def)
  with run t'(1) l show ?thesis by (simp add: loaded_def)
qed

theorem central_store_never_mixed_witness:
  "\<exists>b. snd (admin_run demo_conc_env (overtaking root_request (CreateRoute [(''id'', JStr ''a'')]) root_request
      (CreateRoute [(''id'', JStr ''b'')])) ([], demo_conc)) = b \<and>
    (central_of demo_conc_env b = central_of demo_conc_env demo_conc \<or>
     (\<exists>s :: mem ConfigLoader. table_ok s \<and> central_holds (ae_loader demo_conc_env) (l_routes s) (l_gateway_cfg s) (outside (adm_loader b))))"
proof -
  let ?env = demo_conc_env and ?evs = "overtaking root_request (CreateRoute [(''id'', JStr ''a'')]) root_request (CreateRoute [(''id'', JStr ''b'')])"
  obtain js b where run: "admin_run ?env ?evs ([], demo_conc) = (js, b)" by fastforce
  have "transactional (ae_loader ?env)" by (rule demo_central(2))
  moreover have "files_distinct (ae_loader ?env)"
    by (auto simp: files_distinct_def load_routes_def mem_deps_def bind_outcome_def read_yaml_def dict_get_default_def split: option.splits prod.splits)
  moreover have "world_leaves ?env ?evs" by (simp add: world_leaves_def overtaking_def)
  moreover have "tbl_ok demo_conc" by (simp add: tbl_ok_def table_ok_def demo_conc_def new_ConfigLoader_def)
  ultimately show ?thesis
    using central_store_never_mixed [OF demo_leaves _ _ _ _ run] run by (simp del: demo_conc_simps) blast
qed

theorem concurrent_engine_in_sync_witness:
  "let (js, b) = admin_run demo_conc_env [Arrive root_request (CreateRoute [(''id'', JStr ''a'')]), Turn 0] ([], demo_conc)
   in routes (adm_engine b) = [demo_route ''a'']"
proof -
  obtain cmds fin b where 1: "first_turn demo_conc_env root_request (CreateRoute [(''id'', JStr ''a'')]) demo_conc = (Inr (cmds, fin), b)"
    "loaded b = ([demo_route ''a''], default_GatewayConfig)"
    using demo_first_turn [of demo_conc "''a''"] by (auto simp: demo_conc_def new_ConfigLoader_def)
  then have run: "admin_run demo_conc_env [Arrive root_request (CreateRoute [(''id'', JStr ''a'')]), Turn 0] ([], demo_conc) =
      ([(root_request, AtExecute cmds fin)], b)" by (simp del: demo_conc_simps)
  have "in_sync demo_conc" by (simp add: in_sync_def demo_conc_def new_ConfigLoader_def new_RoutingEngine_def)
  from concurrent_engine_in_sync [OF this run] 1(2) run show ?thesis
    by (simp add: in_sync_def answered_error_def loaded_def del: demo_conc_simps)
qed

theorem concurrent_changes_atomic_witness:
  "\<exists>p. admits_writer demo_conc_env root_request demo_conc p"
proof -
  let ?js = "[(root_request, Arrived (CreateRoute [(''id'', JStr ''a'')]))]"
  obtain cmds fin b where 1: "first_turn demo_conc_env root_request (CreateRoute [(''id'', JStr ''a'')]) demo_conc = (Inr (cmds, fin), b)"
    "loaded b = ([demo_route ''a''], default_GatewayConfig)"
    using demo_first_turn [of demo_conc "''a''"] by (auto simp: demo_conc_def new_ConfigLoader_def)
  then have "protected (snd (admin_event demo_conc_env (Turn 0) (?js, demo_conc))) \<noteq> protected demo_conc"
    by (auto simp: protected_def loaded_def demo_conc_def new_ConfigLoader_def simp del: demo_conc_simps)
  from concurrent_changes_atomic [OF this] show ?thesis by auto
qed

end
