(* ===== verification/AdminTrail.thy ===== *)
theory AdminTrail
  imports AdminConc
begin

text \<open>
  The trail the admin API leaves: every change of the routing table is the first turn of a request of an
  admitted writer, and unless it is a reload or ends in an error it leaves exactly one history entry that
  names the key and the role of that writer.
\<close>

section \<open>Computations that leave an entry\<close>

definition entry_of :: "AdminPrincipal \<Rightarrow> json \<Rightarrow> bool" where
  "entry_of who v = (\<exists>eid ts ac rid before after note.
     v = history_entry eid ts ac rid (p_key_id who) (role_name (p_role who)) before after note)"

definition leaves_entry :: "AdminPrincipal \<Rightarrow> ('w admin, 'b) act \<Rightarrow> bool" where
  "leaves_entry who m = (\<forall>a x b. m a = (Inr x, b) \<longrightarrow>
     (\<exists>v. entry_of who v \<and> hs_entries (adm_history b) = hs_entries (adm_history a) @ [v]))"

lemma leaves_entry_after:
  assumes "keeps adm_history m" and "\<And>x. leaves_entry who (f x)"
  shows "leaves_entry who (and_then m f)"
  unfolding leaves_entry_def
proof (intro allI impI)
  fix a x b
  assume "and_then m f a = (Inr x, b)"
  then obtain y t where "m a = (Inr y, t)" and f: "f y t = (Inr x, b)" by (auto simp: and_then_cases)
  from keepsD [OF assms(1) this(1)] have "adm_history t = adm_history a" .
  with assms(2) f show "\<exists>v. entry_of who v \<and> hs_entries (adm_history b) = hs_entries (adm_history a) @ [v]"
    unfolding leaves_entry_def by metis
qed

lemma leaves_entry_then:
  assumes "leaves_entry who m" and "\<And>x. keeps adm_history (f x)"
  shows "leaves_entry who (and_then m f)"
  unfolding leaves_entry_def
proof (intro allI impI)
  fix a x b
  assume "and_then m f a = (Inr x, b)"
  then obtain y t where m: "m a = (Inr y, t)" and "f y t = (Inr x, b)" by (auto simp: and_then_cases)
  from keepsD [OF assms(2) this(2)] have "adm_history b = adm_history t" .
  with assms(1) m show "\<exists>v. entry_of who v \<and> hs_entries (adm_history b) = hs_entries (adm_history a) @ [v]"
    unfolding leaves_entry_def by metis
qed

lemma leaves_entry_throw: "leaves_entry who (throw e)"
  by (simp add: leaves_entry_def)

lemma leaves_entry_option:
  "leaves_entry who m \<Longrightarrow> (\<And>x. leaves_entry who (f x)) \<Longrightarrow> leaves_entry who (case v of None \<Rightarrow> m | Some x \<Rightarrow> f x)"
  by (cases v) simp_all

lemma leaves_entry_pair: "(\<And>x y. leaves_entry who (f x y)) \<Longrightarrow> leaves_entry who (case p of (x, y) \<Rightarrow> f x y)"
  by (cases p) simp

lemma entry_ofI: "entry_of who (history_entry eid ts ac rid (p_key_id who) (role_name (p_role who)) before after note)"
  unfolding entry_of_def by blast

lemma record_change_recorded: "leaves_entry who (record_change env ac rid who before after note)"
  by (auto simp: leaves_entry_def entry_ofI dest!: record_change_Inr)

text \<open>Everything but appending an entry leaves the history alone.\<close>

lemma protected_history: "keeps protected m \<Longrightarrow> keeps adm_history m"
  by (simp add: keeps_def protected_def)

lemma parts_leave_history:
  "keeps adm_history (on_loader m)" "keeps adm_history (count_action ac s)" "keeps adm_history (audit env r q ac s dt)"
  "keeps adm_history (guard_write_action env r who ac)" "keeps adm_history (lookup_route rid)"
  "keeps adm_history (require_role env role r)" "keeps adm_history update_engine"
  by (simp_all add: protected_history keeps_intros lookup_route_def)
     (simp_all add: keeps_def on_loader_def update_engine_def split: prod.split)

lemma change_recorded:
  assumes "waits call" and "call \<noteq> ReloadConfig"
  shows "leaves_entry who (change_of env r call who)"
proof -
  have report: "keeps adm_history (reporting_conflicts env r w ac m)" if "keeps adm_history m" for w ac m
    unfolding reporting_conflicts_def by (intro keeps_intros parts_leave_history that)
  have undo: "keeps adm_history (rollback_change env b c)" for b c
    unfolding rollback_change_def restore_or_create_def Let_def by (intro keeps_intros parts_leave_history)
  have last: "leaves_entry who (and_then (record_change env ac rid who b c n) (\<lambda>_. then_finish who ac' dt ans))"
    for ac rid b c n ac' dt ans
    by (intro leaves_entry_then record_change_recorded) (simp add: then_finish_def keeps_intros)
  note steps = leaves_entry_after leaves_entry_option leaves_entry_pair leaves_entry_throw last report undo parts_leave_history keeps_intros
  show ?thesis using assms by (cases call) (simp_all add: steps)
qed

section \<open>Properties\<close>

text \<open>
  C4. Accountability: in every schedule of admin requests, whatever changes the routing table is the first turn
  of a request of a writer who was admitted there and then, and the same turn appends exactly one entry
  to the history, with that writer's key identifier and role, unless the request is a reload or is
  answered with an error.
\<close>

theorem table_changes_accounted:
  assumes "admin_event env ev (js, a) = (js', b)" and "l_routes (adm_loader b) \<noteq> l_routes (adm_loader a)"
  shows "\<exists>i r call p. ev = Turn i \<and> i < length js \<and> js ! i = (r, Arrived call) \<and> admits_writer env r a p \<and>
    (call = ReloadConfig \<or> (\<exists>e. js' ! i = (r, Replied (Inl e))) \<or>
     (\<exists>v. entry_of p v \<and> hs_entries (adm_history b) = hs_entries (adm_history a) @ [v]))"
proof -
  from assms have "protected (snd (admin_event env ev (js, a))) \<noteq> protected a" by (auto simp: protected_def)
  then obtain i r call p where ev: "ev = Turn i" "i < length js" "js ! i = (r, Arrived call)"
    and w: "admits_writer env r a p" by (rule event_writer)
  have call: "waits call"
  proof (rule ccontr)
    assume quick: "\<not> waits call"
    with assms(1) ev obtain res where "admin_endpoint env r call a = (res, b)" by (auto split: prod.splits)
    from keepsD [OF quick_calls_keep [OF quick] this] assms(2) show False by (simp add: routing_def)
  qed
  have "(\<exists>e. js' ! i = (r, Replied (Inl e))) \<or>
      (\<exists>v. entry_of p v \<and> hs_entries (adm_history b) = hs_entries (adm_history a) @ [v])" if "call \<noteq> ReloadConfig"
  proof (cases "first_turn env r call a")
    case (Pair res c)
    show ?thesis
    proof (cases res)
      case (Inl e)
      with Pair assms(1) ev call show ?thesis by auto
    next
      case (Inr x)
      with Pair assms(1) ev call have c: "c = b" by (auto split: prod.splits)
      from Pair Inr obtain who fin a1 where role: "require_role env Write r a = (Inr who, a)"
        and ch: "change_of env r call who a = (Inr fin, a1)" and b: "adm_history b = adm_history a1"
        using require_role_Inr keepsD [OF parts_leave_history(7)]
        by (fastforce simp: first_turn_def and_then_cases asks_Inr c)
      have "who = p" using require_role_Inr [OF role] w by (auto simp: admits_writer_def)
      with change_recorded [OF call that, of who env r] ch b show ?thesis by (auto simp: leaves_entry_def)
    qed
  qed
  with ev w show ?thesis by blast
qed

theorem table_changes_accounted_witness:
  "\<exists>js b p v. admin_event demo_admin_env (Turn 0) ([(root_request, Arrived (CreateRoute [(''id'', JStr ''x'')]))], demo_admin) = (js, b) \<and>
     l_routes (adm_loader b) = [demo_route ''x''] \<and> admits_writer demo_admin_env root_request demo_admin p \<and>
     entry_of p v \<and> hs_entries (adm_history b) = [v]"
proof -
  let ?call = "CreateRoute [(''id'', JStr ''x'')]"
  obtain j c where c: "admin_endpoint demo_admin_env root_request ?call demo_admin = (Inr j, c)"
    "l_routes (adm_loader c) = [demo_route ''x'']" using demo_create by blast
  then obtain cmds fin b where f: "first_turn demo_admin_env root_request ?call demo_admin = (Inr (cmds, fin), b)"
    by (auto simp: endpoint_turns and_then_cases split: prod.splits)
  then have t: "admin_turn demo_admin_env root_request (Arrived ?call, demo_admin) = (AtExecute cmds fin, b)" by simp
  with first_turn_protected [of demo_admin_env root_request ?call demo_admin] c
  have b: "l_routes (adm_loader b) = [demo_route ''x'']" by (simp add: protected_def)
  have e: "admin_event demo_admin_env (Turn 0) ([(root_request, Arrived ?call)], demo_admin) =
      ([(root_request, AtExecute cmds fin)], b)" using t by simp
  have "l_routes (adm_loader b) \<noteq> l_routes (adm_loader demo_admin)" using b by (simp add: demo_admin_def new_ConfigLoader_def)
  from table_changes_accounted [OF e this] b e show ?thesis by (auto simp: demo_admin_def)
qed

end
