(* ===== verification/Lifecycle.thy ===== *)
theory Lifecycle
  imports Grpc Watcher Settings Steps
begin

text \<open>
  Start and stop of the gateway process: \<open>_lifespan\<close> of \<open>gateway/app.py\<close> with the Redis client of
  \<open>gateway/core/redis.py\<close>, the gRPC server of \<open>gateway/listeners/grpc_listener.py\<close>, the file watcher
  and the task that listens for reload messages. Connecting, serving and closing are external.
\<close>

section \<open>State\<close>

text \<open>The listening task: not created, created, listening, returned, ended by an exception, cancelled.\<close>

datatype subscription = NoTask | Created | Listening | Returned | Failed exn | Cancelled

record 'w process =
  pr_grpc :: "'w grpc_state"
  pr_watcher :: watcher
  pr_server :: bool
  pr_task :: subscription

record 'w process_deps =
  pd_connect :: "redis_client_args \<Rightarrow> ('w, unit) act"
  pd_ping :: "('w, unit) act"
  pd_aclose :: "('w, unit) act"
  pd_forget :: "'w \<Rightarrow> 'w"
  pd_close_client :: "('w, unit) act"
  pd_serve :: "grpc_server_args \<Rightarrow> ('w, unit) act"
  pd_wait :: "('w, unit) act"
  pd_stop_serving :: "('w, unit) act"
  pd_subscribe :: "('w, unit) act"
  pd_unsubscribe :: "('w, unit) act"
  pd_stat :: "'w \<Rightarrow> stat"
  pd_settings :: Settings

definition pd_cluster_mode :: "'w process_deps \<Rightarrow> bool" where
  "pd_cluster_mode d = rd_cluster_mode (st_redis (pd_settings d))"

definition pr_app :: "'w process \<Rightarrow> 'w app" where
  "pr_app p = gs_app (pr_grpc p)"

declare pr_app_def [part_defs]

definition pr_outside :: "'w process \<Rightarrow> 'w" where
  "pr_outside p = outside (a_loader (pr_app p))"

declare pr_outside_def [part_defs]

definition on_grpc :: "('w grpc_state, 'a) act \<Rightarrow> ('w process, 'a) act" where
  "on_grpc m p = (case m (pr_grpc p) of (r, g) \<Rightarrow> (r, p\<lparr>pr_grpc := g\<rparr>))"

declare on_grpc_def [part_defs]

definition in_app :: "('w app, 'a) act \<Rightarrow> ('w process, 'a) act" where
  "in_app m = on_grpc (on_app m)"

declare in_app_def [part_defs]

definition out_there :: "('w, 'a) act \<Rightarrow> ('w process, 'a) act" where
  "out_there m = in_app (on_outside m)"

section \<open>Redis\<close>

text \<open>The client stays assigned when the first ping fails.\<close>

definition init_redis :: "'w env \<Rightarrow> 'w process_deps \<Rightarrow> ('w, unit) act" where
  "init_redis env d w =
     (if redis_ready env w then (Inr (), w)
      else and_then (pd_connect d (redis_args (st_redis (pd_settings d)))) (\<lambda>_. pd_ping d) w)"

definition close_redis :: "'w env \<Rightarrow> 'w process_deps \<Rightarrow> ('w, unit) act" where
  "close_redis env d w =
     (if redis_ready env w then and_then (pd_aclose d) (\<lambda>_ w'. (Inr (), pd_forget d w')) w
      else (Inr (), w))"

section \<open>The reload subscription\<close>

text \<open>The first step of the task, up to the first message it waits for.\<close>

definition subscribe :: "'w env \<Rightarrow> 'w process_deps \<Rightarrow> 'w process \<Rightarrow> 'w process" where
  "subscribe env d p =
     (if pr_task p \<noteq> Created then p
      else if pd_cluster_mode d then p\<lparr>pr_task := Returned\<rparr>
      else if \<not> redis_ready env (pr_outside p)
        then p\<lparr>pr_task := Failed (RuntimeError ''Redis client is not initialized'')\<rparr>
      else (case out_there (pd_subscribe d) p of
              (Inl e, q) \<Rightarrow> q\<lparr>pr_task := Failed e\<rparr>
            | (Inr _, q) \<Rightarrow> q\<lparr>pr_task := Listening\<rparr>))"

text \<open>One event of the subscription; an exception of the reload ends the task.\<close>

definition on_event :: "'w loader_deps \<Rightarrow> string \<Rightarrow> 'w process \<Rightarrow> 'w process" where
  "on_event ld kind p =
     (if pr_task p \<noteq> Listening \<or> kind \<noteq> ''message'' then p
      else (case in_app (on_config_changed ld) p of
              (Inl e, q) \<Rightarrow> q\<lparr>pr_task := Failed e\<rparr>
            | (Inr _, q) \<Rightarrow> q))"

text \<open>
  Cancelling the task and awaiting it: a task that has ended with an exception raises it here, and
  only a cancellation is suppressed.
\<close>

definition cancel_task :: "'w process_deps \<Rightarrow> ('w process, unit) act" where
  "cancel_task d p =
     (case pr_task p of
        Created \<Rightarrow> (Inr (), p\<lparr>pr_task := Cancelled\<rparr>)
      | Listening \<Rightarrow>
          (case out_there (pd_unsubscribe d) p of
             (Inl e, q) \<Rightarrow> (Inl e, q\<lparr>pr_task := Failed e\<rparr>)
           | (Inr _, q) \<Rightarrow> (Inr (), q\<lparr>pr_task := Returned\<rparr>))
      | Failed e \<Rightarrow> (Inl e, p)
      | _ \<Rightarrow> (Inr (), p))"

section \<open>Start and stop\<close>

definition start_proxy :: "('w app, unit) act" where
  "start_proxy a = (Inr (), a\<lparr>a_proxy_started := True\<rparr>)"

definition stop_proxy :: "'w process_deps \<Rightarrow> ('w app, unit) act" where
  "stop_proxy d a = (if a_proxy_started a then on_outside (pd_close_client d) a else (Inr (), a))"

text \<open>The server object exists before the first thing that may fail.\<close>

definition start_server :: "'w process_deps \<Rightarrow> string \<Rightarrow> int \<Rightarrow> ('w process, unit) act" where
  "start_server d host port p = out_there (pd_serve d (grpc_server host port)) (p\<lparr>pr_server := True\<rparr>)"

definition stop_server :: "'w process_deps \<Rightarrow> 'w grpc_deps \<Rightarrow> ('w process, unit) act" where
  "stop_server d gd p =
     (if pr_server p then and_then (out_there (pd_stop_serving d)) (\<lambda>_. on_grpc (close_channels gd)) p
      else (Inr (), p))"

text \<open>Waiting for the server to end, and a server on its own; the gateway process does neither.\<close>

definition serve :: "'w process_deps \<Rightarrow> ('w process, unit) act" where
  "serve d p = (if pr_server p then out_there (pd_wait d) p else (Inr (), p))"

definition run_grpc_server :: "'w process_deps \<Rightarrow> string \<Rightarrow> int \<Rightarrow> ('w process, unit) act" where
  "run_grpc_server d host port = and_then (start_server d host port) (\<lambda>_. serve d)"

definition on_watcher :: "(watcher, 'a) act \<Rightarrow> ('w process, 'a) act" where
  "on_watcher m p = (case m (pr_watcher p) of (r, w) \<Rightarrow> (r, p\<lparr>pr_watcher := w\<rparr>))"

definition start_watching :: "'w process_deps \<Rightarrow> ('w process, unit) act" where
  "start_watching d p = on_watcher (start_watcher (pd_stat d (pr_outside p))) p"

definition stop_watching :: "('w process, unit) act" where
  "stop_watching = on_watcher stop_watcher"

definition create_task :: "('w process, unit) act" where
  "create_task p = (Inr (), p\<lparr>pr_task := Created\<rparr>)"

definition startup :: "'w env \<Rightarrow> 'w loader_deps \<Rightarrow> 'w process_deps \<Rightarrow> ('w process, unit) act" where
  "startup env ld d =
     and_then (out_there (init_redis env d)) (\<lambda>_.
     and_then (in_app (load_at_startup ld)) (\<lambda>_.
     and_then (in_app start_proxy) (\<lambda>_.
     and_then (start_server d ''0.0.0.0'' (sv_grpc_port (st_server (pd_settings d)))) (\<lambda>_.
     and_then (start_watching d) (\<lambda>_. create_task)))))"

definition shutdown :: "'w env \<Rightarrow> 'w process_deps \<Rightarrow> 'w grpc_deps \<Rightarrow> ('w process, unit) act" where
  "shutdown env d gd =
     and_then (cancel_task d) (\<lambda>_.
     and_then stop_watching (\<lambda>_.
     and_then (stop_server d gd) (\<lambda>_.
     and_then (in_app (stop_proxy d)) (\<lambda>_.
     out_there (close_redis env d)))))"

text \<open>A turn of the watcher's loop runs the same reload and swallows its exceptions.\<close>

definition watch :: "'w loader_deps \<Rightarrow> 'w process_deps \<Rightarrow> 'w process \<Rightarrow> 'w process" where
  "watch ld d p =
     (if \<not> w_running (pr_watcher p) then p
      else (case watch_turn (pd_stat d (pr_outside p)) (Some (in_app (on_config_changed ld))) (pr_watcher p, p) of
              (w, q) \<Rightarrow> q\<lparr>pr_watcher := w\<rparr>))"

section \<open>What happens to a process\<close>

text \<open>
  Between start and stop: the task's first step and its events, a connection that is lost while the task
  waits for a message, turns of the watcher's loop, and anything requests do to the application, the
  channels and the world outside.
\<close>

inductive process_step :: "'w env \<Rightarrow> 'w loader_deps \<Rightarrow> 'w process_deps \<Rightarrow> 'w process \<Rightarrow> 'w process \<Rightarrow> bool"
  for env ld d where
  subscribes: "process_step env ld d p (subscribe env d p)"
| event: "process_step env ld d p (on_event ld kind p)"
| lost: "pr_task p = Listening \<Longrightarrow> process_step env ld d p (p\<lparr>pr_task := Failed e\<rparr>)"
| polls: "process_step env ld d p (watch ld d p)"
| serves: "on_grpc (m :: ('w grpc_state, unit) act) p = (r, q) \<Longrightarrow> process_step env ld d p q"

inductive_cases process_stepE: "process_step env ld d p q"

lemma on_grpc_frame:
  "on_grpc m p = (r, q) \<Longrightarrow> pr_task q = pr_task p \<and> pr_watcher q = pr_watcher p \<and> pr_server q = pr_server p"
  by (auto simp: on_grpc_def split: prod.splits)

lemma in_app_frame:
  "in_app m p = (r, q) \<Longrightarrow> pr_task q = pr_task p \<and> pr_watcher q = pr_watcher p \<and> pr_server q = pr_server p"
  unfolding in_app_def by (rule on_grpc_frame)

lemma out_there_frame:
  "out_there m p = (r, q) \<Longrightarrow> pr_task q = pr_task p \<and> pr_watcher q = pr_watcher p \<and> pr_server q = pr_server p \<and>
     gs_channels (pr_grpc q) = gs_channels (pr_grpc p) \<and> pr_outside q = snd (m (pr_outside p)) \<and> r = fst (m (pr_outside p)) \<and>
     a_engine (pr_app q) = a_engine (pr_app p) \<and> l_routes (a_loader (pr_app q)) = l_routes (a_loader (pr_app p)) \<and>
     a_proxy_started (pr_app q) = a_proxy_started (pr_app p)"
  by (auto simp: out_there_def part_defs split: prod.splits)

lemma watch_frame: "pr_task (watch ld d p) = pr_task p" "pr_server (watch ld d p) = pr_server p"
proof -
  have "pr_task (snd (in_app m p)) = pr_task p \<and> pr_server (snd (in_app m p)) = pr_server p" for m :: "('a app, unit) act"
    using in_app_frame [of m p] by (metis prod.collapse)
  then show "pr_task (watch ld d p) = pr_task p" "pr_server (watch ld d p) = pr_server p"
    by (auto simp: watch_def watch_turn_def split: prod.splits sum.splits if_splits)
qed

lemma failed_step: "process_step env ld d p q \<Longrightarrow> pr_task p = Failed e \<Longrightarrow> pr_task q = Failed e"
proof (induction rule: process_step.induct)
  case (serves m p r q)
  then show ?case using on_grpc_frame by fastforce
qed (simp_all add: subscribe_def on_event_def watch_frame)

interpretation failed: stable "process_step env ld d" "\<lambda>p. pr_task p = Failed e" for env ld d e
  by unfold_locales (rule failed_step)

text \<open>Stopping: every external operation of it succeeds.\<close>

definition stops :: "'w env \<Rightarrow> 'w process_deps \<Rightarrow> 'w grpc_deps \<Rightarrow> bool" where
  "stops env d gd \<longleftrightarrow> (\<forall>w. (\<exists>w'. pd_unsubscribe d w = (Inr (), w')) \<and> (\<exists>w'. pd_stop_serving d w = (Inr (), w')) \<and>
     (\<exists>w'. pd_close_client d w = (Inr (), w')) \<and> (\<exists>w'. pd_aclose d w = (Inr (), w')) \<and>
     (\<forall>ch. \<exists>w'. g_close_channel gd ch w = (Inr (), w')) \<and> \<not> redis_ready env (pd_forget d w))"

lemma out_there_stops:
  assumes "\<exists>w'. m (pr_outside p) = (Inr (), w')"
  shows "\<exists>q. out_there m p = (Inr (), q) \<and> pr_outside q = snd (m (pr_outside p)) \<and> pr_task q = pr_task p \<and>
    pr_watcher q = pr_watcher p \<and> gs_channels (pr_grpc q) = gs_channels (pr_grpc p)"
proof -
  obtain r q where q: "out_there m p = (r, q)" by fastforce
  from out_there_frame [OF q] q assms show ?thesis by auto
qed

lemma close_each_stops:
  assumes "\<forall>ch w. \<exists>w'. g_close_channel gd ch w = (Inr (), w')"
  shows "\<exists>t. close_each gd chs s = (Inr (), t) \<and> gs_channels t = gs_channels s"
proof (induction chs arbitrary: s)
  case (Cons ch chs)
  obtain w where "g_close_channel gd ch (outside (a_loader (gs_app s))) = (Inr (), w)" using assms by blast
  then obtain t where "on_app (on_outside (g_close_channel gd ch)) s = (Inr (), t)" "gs_channels t = gs_channels s"
    by (auto simp: on_app_def on_outside_def)
  with Cons.IH [of t] show ?case by auto
qed simp

lemma cancel_stops:
  assumes "stops env d gd" and "\<forall>e. pr_task p \<noteq> Failed e"
  shows "\<exists>q. cancel_task d p = (Inr (), q) \<and> pr_watcher q = pr_watcher p \<and> pr_task q \<in> {NoTask, Returned, Cancelled}"
proof (cases "pr_task p")
  case Listening
  obtain q where "out_there (pd_unsubscribe d) p = (Inr (), q)" "pr_watcher q = pr_watcher p"
    using out_there_stops [of "pd_unsubscribe d" p] assms(1) unfolding stops_def by blast
  with Listening show ?thesis by (simp add: cancel_task_def)
qed (use assms(2) in \<open>auto simp: cancel_task_def\<close>)

lemma stop_server_stops:
  assumes "stops env d gd"
  shows "\<exists>q. stop_server d gd p = (Inr (), q) \<and> pr_watcher q = pr_watcher p \<and> pr_task q = pr_task p \<and>
    (pr_server p \<longrightarrow> gs_channels (pr_grpc q) = [])"
proof (cases "pr_server p")
  case True
  obtain q where q: "out_there (pd_stop_serving d) p = (Inr (), q)" "pr_watcher q = pr_watcher p" "pr_task q = pr_task p"
    using out_there_stops [of "pd_stop_serving d" p] assms unfolding stops_def by blast
  obtain t where "close_each gd (map snd (gs_channels (pr_grpc q))) (pr_grpc q) = (Inr (), t)"
    using close_each_stops [of gd] assms unfolding stops_def by blast
  with True q show ?thesis by (simp add: stop_server_def close_channels_def on_grpc_def and_then_def)
qed (simp add: stop_server_def)

lemma close_redis_stops:
  assumes "stops env d gd"
  shows "\<exists>w'. close_redis env d w = (Inr (), w') \<and> \<not> redis_ready env w'"
proof -
  obtain w' where "pd_aclose d w = (Inr (), w')" using assms unfolding stops_def by blast
  with assms show ?thesis by (auto simp: close_redis_def and_then_def stops_def)
qed

lemma stop_proxy_stops:
  assumes "stops env d gd"
  shows "\<exists>q. in_app (stop_proxy d) p = (Inr (), q) \<and> pr_watcher q = pr_watcher p \<and> pr_task q = pr_task p \<and>
    gs_channels (pr_grpc q) = gs_channels (pr_grpc p)"
proof -
  obtain w' where "pd_close_client d (outside (a_loader (gs_app (pr_grpc p)))) = (Inr (), w')"
    using assms unfolding stops_def by blast
  then show ?thesis by (simp add: part_defs stop_proxy_def)
qed

section \<open>Properties\<close>

text \<open>
  C25. One reload that fails ends hot reload over Redis for good, and the orderly stop with it: when a
  reload message arrives and reading the files raises, then whatever happens afterwards no later
  event changes anything, and stopping the process raises that old exception at once and leaves everything
  as it is (the watcher, the gRPC server, its channels, the HTTP client and Redis are not stopped).
\<close>

theorem failed_reload_ends_subscription:
  assumes "pr_task p = Listening" and "in_app (on_config_changed ld) p = (Inl e, q)"
    and "(process_step env ld d)\<^sup>*\<^sup>* (on_event ld ''message'' p) u"
  shows "pr_task u = Failed e \<and> (\<forall>kind. on_event ld kind u = u) \<and> shutdown env d gd u = (Inl e, u)"
proof -
  have "pr_task (on_event ld ''message'' p) = Failed e" using assms(1,2) by (simp add: on_event_def)
  then have u: "pr_task u = Failed e" by (rule failed.inv_steps [OF assms(3)])
  then show ?thesis by (simp add: on_event_def shutdown_def cancel_task_def and_then_def)
qed

definition broken_loader :: "demo loader_deps" where
  "broken_loader = \<lparr>yaml_load = (\<lambda>_. Inr JNull), yaml_dump = (\<lambda>_. []), json_loads = (\<lambda>_. Inr JNull),
     route_validate = (\<lambda>_. Inl TypeError), gateway_validate = (\<lambda>_. Inr default_GatewayConfig), route_dump = (\<lambda>_. JNull),
     route_dump_json = (\<lambda>_. []), gateway_dump_json = (\<lambda>_. []), read_file = (\<lambda>_ _. Inl OSError),
     write_file = (\<lambda>_ _ w. (Inr (), w)), getenv = (\<lambda>_ _. None), redis_hgetall = (\<lambda>_ _. Inl RedisError),
     redis_get = (\<lambda>_ _. Inl RedisError), redis_pipeline = (\<lambda>_ w. (Inr (), w))\<rparr>"

definition demo_process :: "subscription \<Rightarrow> demo process" where
  "demo_process task = \<lparr>pr_grpc = demo_grpc, pr_watcher = new_watcher [''routes.yaml''], pr_server = True, pr_task = task\<rparr>"

definition demo_process_deps :: "demo process_deps" where
  "demo_process_deps = \<lparr>pd_connect = (\<lambda>_ w. (Inr (), w)), pd_ping = (\<lambda>w. (Inr (), w)), pd_aclose = (\<lambda>w. (Inr (), w)),
     pd_forget = (\<lambda>w. w\<lparr>d_now := -1\<rparr>), pd_close_client = (\<lambda>w. (Inr (), w)), pd_serve = (\<lambda>_ w. (Inr (), w)), pd_wait = (\<lambda>w. (Inr (), w)),
     pd_stop_serving = (\<lambda>w. (Inr (), w)), pd_subscribe = (\<lambda>w. (Inr (), w)), pd_unsubscribe = (\<lambda>w. (Inr (), w)),
     pd_stat = (\<lambda>_ _. Inr (Some 1)), pd_settings = default_Settings\<rparr>"

theorem failed_reload_ends_subscription_witness:
  "shutdown demo_env demo_process_deps demo_grpc_deps (on_event broken_loader ''message'' (demo_process Listening)) =
     (Inl OSError, on_event broken_loader ''message'' (demo_process Listening))"
proof -
  have "in_app (on_config_changed broken_loader) (demo_process Listening) = (Inl OSError, demo_process Listening)"
    by (simp add: part_defs on_config_changed_def reload_def load_routes_def
        broken_loader_def demo_process_def and_then_def bind_outcome_def)
  from failed_reload_ends_subscription [OF _ this rtranclp.rtrancl_refl] show ?thesis by (simp add: demo_process_def)
qed

lemma and_then_InrE:
  assumes "and_then m f s = (Inr b, u)"
  obtains a t where "m s = (Inr a, t)" and "f a t = (Inr b, u)"
  using assms by (cases "m s"; cases "fst (m s)") (auto simp: and_then_def)

lemma step_keeps:
  "process_step env ld d p q \<Longrightarrow> pr_server q = pr_server p \<and> (pr_task p \<noteq> NoTask \<longrightarrow> pr_task q \<noteq> NoTask)"
proof (induction rule: process_step.induct)
  case (subscribes p)
  obtain r q where "out_there (pd_subscribe d) p = (r, q)" by fastforce
  with out_there_frame [OF this] show ?case by (auto simp: subscribe_def split: sum.split)
next
  case (event p kind)
  obtain r q where "in_app (on_config_changed ld) p = (r, q)" by fastforce
  with in_app_frame [OF this] show ?case by (auto simp: on_event_def split: sum.split)
next
  case (lost p e)
  then show ?case by simp
next
  case (polls p)
  show ?case by (simp add: watch_frame)
next
  case (serves m p r q)
  then show ?case using on_grpc_frame by fastforce
qed

lemma steps_keep:
  "(process_step env ld d)\<^sup>*\<^sup>* p q \<Longrightarrow> pr_server q = pr_server p \<and> (pr_task p \<noteq> NoTask \<longrightarrow> pr_task q \<noteq> NoTask)"
proof (induction rule: rtranclp_induct)
  case (step q u)
  then show ?case using step_keeps by metis
qed simp

lemma startup_state:
  assumes "startup env ld d p = (Inr (), q)"
  shows "routes (a_engine (pr_app q)) = l_routes (a_loader (pr_app q)) \<and> a_proxy_started (pr_app q) \<and>
    w_running (pr_watcher q) \<and> pr_server q \<and> pr_task q = Created"
proof -
  from assms obtain t1 t2 t3 t4 t5 where t:
    "in_app (load_at_startup ld) t1 = (Inr (), t2)" "in_app start_proxy t2 = (Inr (), t3)" "start_server d ''0.0.0.0'' (sv_grpc_port (st_server (pd_settings d))) t3 = (Inr (), t4)"
    "start_watching d t4 = (Inr (), t5)" "q = t5\<lparr>pr_task := Created\<rparr>"
    unfolding startup_def create_task_def
    by (elim and_then_InrE) (auto simp: create_task_def)
  have "routes (a_engine (pr_app t2)) = l_routes (a_loader (pr_app t2))"
    using t(1) by (auto simp: part_defs load_at_startup_def publish_routes_def update_routes_def
        Let_def and_then_def split: prod.splits sum.splits)
  moreover have "pr_app t3 = (pr_app t2)\<lparr>a_proxy_started := True\<rparr>"
    using t(2) by (auto simp: part_defs start_proxy_def split: prod.splits)
  ultimately have "routes (a_engine (pr_app t3)) = l_routes (a_loader (pr_app t3))" "a_proxy_started (pr_app t3)" by simp_all
  moreover have "w_running (pr_watcher t5)" "pr_server t5 = pr_server t4" "pr_app t5 = pr_app t4"
    using t(4) by (auto simp: start_watching_def on_watcher_def start_watcher_def w_running_def pr_app_def and_then_def
        split: prod.splits sum.splits)
  ultimately show ?thesis using out_there_frame [OF t(3) [unfolded start_server_def]] t(5) by (simp add: pr_app_def)
qed

text \<open>Stopping a process whose background tasks did not fail.\<close>

lemma orderly_shutdown:
  assumes "stops env d gd" and "pr_server u" and "pr_task u \<noteq> NoTask" and "\<forall>e. pr_task u \<noteq> Failed e"
    and "\<forall>e. w_task (pr_watcher u) \<noteq> Broken e"
  shows "\<exists>v. shutdown env d gd u = (Inr (), v) \<and> \<not> w_running (pr_watcher v) \<and> gs_channels (pr_grpc v) = [] \<and>
       pr_task v \<in> {Returned, Cancelled} \<and> \<not> redis_ready env (pr_outside v)"
proof -
  obtain v1 where v1: "cancel_task d u = (Inr (), v1)" "pr_watcher v1 = pr_watcher u" "pr_task v1 \<in> {NoTask, Returned, Cancelled}"
    using cancel_stops [OF assms(1,4)] by blast
  have v1': "pr_server v1" "pr_task v1 \<noteq> NoTask"
    using v1(1) assms(2,3) out_there_frame [of "pd_unsubscribe d" u] by (auto simp: cancel_task_def split: subscription.splits prod.splits sum.splits)
  obtain v2 where v2: "stop_watching v1 = (Inr (), v2)" "\<not> w_running (pr_watcher v2)" "pr_server v2" "pr_task v2 = pr_task v1"
    using v1' v1(2) assms(5)
    by (cases "w_task (pr_watcher u)") (simp_all add: stop_watching_def on_watcher_def stop_watcher_def w_running_def)
  obtain v3 where v3: "stop_server d gd v2 = (Inr (), v3)" "pr_watcher v3 = pr_watcher v2" "pr_task v3 = pr_task v2"
    "gs_channels (pr_grpc v3) = []"
    using stop_server_stops [OF assms(1), of v2] v2(3) by blast
  obtain v4 where v4: "in_app (stop_proxy d) v3 = (Inr (), v4)" "pr_watcher v4 = pr_watcher v3" "pr_task v4 = pr_task v3"
    "gs_channels (pr_grpc v4) = gs_channels (pr_grpc v3)"
    using stop_proxy_stops [OF assms(1)] by blast
  obtain r v where v: "out_there (close_redis env d) v4 = (r, v)" by fastforce
  have close: "r = Inr ()" "\<not> redis_ready env (pr_outside v)"
    using close_redis_stops [OF assms(1), of "pr_outside v4"] out_there_frame [OF v] by (metis fst_conv, metis snd_conv)
  with v v1 v2 v3 v4 have "shutdown env d gd u = (Inr (), v)" by (simp add: shutdown_def)
  with v1 v1' v2 v3 v4 out_there_frame [OF v] close(2) show ?thesis by auto
qed

text \<open>
  C40. Starting is complete, and how stopping goes is decided by the two background tasks alone. After a start without an exception the
  routing engine serves the table that was loaded, the HTTP client exists, the watcher runs and the
  subscription is about to begin. Whatever then happens (messages, reloads, lost connections, file changes, requests),
  when the single closing operations succeed, stopping does one of three things. If the subscription had ended
  with an exception (\<open>SUBSCRIBE\<close> failed, the connection was lost while listening, or a reload raised) it raises this exception and
  leaves everything as it is. Else, if the watcher had ended with an exception, it ends the subscription, raises the exception and leaves the server's
  channels as they are. Else it ends task, watcher, every channel and the Redis client.
\<close>

theorem startup_then_shutdown:
  assumes "startup env ld d p = (Inr (), q)" and "(process_step env ld d)\<^sup>*\<^sup>* q u" and "stops env d gd"
  shows "routes (a_engine (pr_app q)) = l_routes (a_loader (pr_app q)) \<and> a_proxy_started (pr_app q) \<and>
    w_running (pr_watcher q) \<and> pr_task q = Created \<and>
    (case (pr_task u, w_task (pr_watcher u)) of
       (Failed e, _) \<Rightarrow> shutdown env d gd u = (Inl e, u)
     | (_, Broken e) \<Rightarrow> \<exists>v. shutdown env d gd u = (Inl e, v) \<and> pr_task v \<in> {Returned, Cancelled} \<and>
         pr_watcher v = pr_watcher u \<and> gs_channels (pr_grpc v) = gs_channels (pr_grpc u)
     | _ \<Rightarrow> \<exists>v. shutdown env d gd u = (Inr (), v) \<and> \<not> w_running (pr_watcher v) \<and> gs_channels (pr_grpc v) = [] \<and>
         pr_task v \<in> {Returned, Cancelled} \<and> \<not> redis_ready env (pr_outside v))"
proof -
  note q = startup_state [OF assms(1)]
  have u: "pr_server u" "pr_task u \<noteq> NoTask" using steps_keep [OF assms(2)] q by simp_all
  consider e where "pr_task u = Failed e" | e where "\<forall>e. pr_task u \<noteq> Failed e" "w_task (pr_watcher u) = Broken e"
    | "\<forall>e. pr_task u \<noteq> Failed e" "\<forall>e. w_task (pr_watcher u) \<noteq> Broken e" by blast
  then show ?thesis
  proof cases
    case (1 e)
    with q show ?thesis by (simp add: shutdown_def cancel_task_def and_then_def)
  next
    case (2 e)
    obtain v where v: "cancel_task d u = (Inr (), v)" "pr_watcher v = pr_watcher u" "pr_task v \<in> {NoTask, Returned, Cancelled}"
      using cancel_stops [OF assms(3) 2(1)] by blast
    have "pr_task v \<noteq> NoTask \<and> gs_channels (pr_grpc v) = gs_channels (pr_grpc u)"
      using v(1) u(2) out_there_frame [of "pd_unsubscribe d" u] by (auto simp: cancel_task_def split: subscription.splits prod.splits sum.splits)
    moreover have "stop_watching v = (Inl e, v)" using v(2) 2(2) by (simp add: stop_watching_def on_watcher_def stop_watcher_def)
    then have "shutdown env d gd u = (Inl e, v)" using v(1) by (simp add: shutdown_def and_then_def)
    ultimately show ?thesis using q 2 v by (auto split: subscription.splits)
  next
    case 3
    from orderly_shutdown [OF assms(3) u 3] show ?thesis
      using q 3 by (auto split: subscription.splits watch_task.splits)
  qed
qed

definition expiring_env :: "demo env" where
  "expiring_env = demo_env\<lparr>redis_ready := (\<lambda>w. d_now w \<ge> 0)\<rparr>"

definition quiet_loader :: "demo loader_deps" where
  "quiet_loader = broken_loader\<lparr>read_file := (\<lambda>_ _. Inr None)\<rparr>"

lemma demo_stops: "stops expiring_env demo_process_deps demo_grpc_deps"
  by (simp add: stops_def expiring_env_def demo_process_deps_def demo_grpc_deps_def)

lemma demo_startup:
  "fst (startup expiring_env quiet_loader demo_process_deps (demo_process NoTask)) = Inr () \<and>
   pr_outside (snd (startup expiring_env quiet_loader demo_process_deps (demo_process NoTask))) = demo_world"
proof -
  have "load_config quiet_loader l = (Inr (), l\<lparr>l_routes := [], l_gateway_cfg := default_GatewayConfig\<rparr>)" for l
    by (simp add: load_config_def load_central_def quiet_loader_def broken_loader_def catching_def and_then_def reload_def
        load_routes_def load_gateway_def bind_outcome_def)
  then show ?thesis
    by (simp add: startup_def and_then_def out_there_def part_defs init_redis_def load_at_startup_def publish_routes_def start_proxy_def start_server_def start_watching_def on_watcher_def start_watcher_def new_watcher_def
        create_task_def demo_process_def demo_grpc_def demo_app_def new_ConfigLoader_def expiring_env_def demo_process_deps_def
        demo_world_def pr_outside_def pr_app_def)
qed

text \<open>An orderly stop, and a stop after the connection of the subscription was lost.\<close>

theorem startup_then_shutdown_witness:
  "let q = snd (startup expiring_env quiet_loader demo_process_deps (demo_process NoTask));
       u = (subscribe expiring_env demo_process_deps q)\<lparr>pr_task := Failed RedisError\<rparr>
   in (\<exists>v. shutdown expiring_env demo_process_deps demo_grpc_deps q = (Inr (), v) \<and>
         \<not> w_running (pr_watcher v) \<and> gs_channels (pr_grpc v) = []) \<and>
      shutdown expiring_env demo_process_deps demo_grpc_deps u = (Inl RedisError, u)"
proof -
  let ?q = "snd (startup expiring_env quiet_loader demo_process_deps (demo_process NoTask))"
  let ?s = "subscribe expiring_env demo_process_deps ?q"
  have start: "startup expiring_env quiet_loader demo_process_deps (demo_process NoTask) = (Inr (), ?q)"
    using demo_startup by (metis prod.collapse)
  have state: "pr_task ?q = Created" "w_running (pr_watcher ?q)" using startup_state [OF start] by blast+
  have "process_step expiring_env quiet_loader demo_process_deps ?q ?s" by (rule process_step.subscribes)
  moreover have "pr_task ?s = Listening"
    using state(1) demo_startup
    by (simp add: subscribe_def out_there_def part_defs expiring_env_def demo_world_def demo_process_deps_def pd_cluster_mode_def
        default_Settings_def default_RedisSettings_def)
  then have "process_step expiring_env quiet_loader demo_process_deps ?s (?s\<lparr>pr_task := Failed RedisError\<rparr>)"
    by (rule process_step.lost)
  ultimately have "(process_step expiring_env quiet_loader demo_process_deps)\<^sup>*\<^sup>* ?q (?s\<lparr>pr_task := Failed RedisError\<rparr>)" by simp
  from startup_then_shutdown [OF start this demo_stops] startup_then_shutdown [OF start rtranclp.rtrancl_refl demo_stops] state
  show ?thesis by (auto simp: w_running_def Let_def split: watch_task.splits)
qed

text \<open>A reload reads the world and leaves it alone.\<close>

lemma reload_outside: "reload d l = (r, l') \<Longrightarrow> outside l' = outside l"
  by (auto simp: reload_def Let_def split: sum.splits)

lemma config_changed_frame:
  assumes "in_app (on_config_changed ld) p = (r, q)"
  shows "pr_outside q = pr_outside p \<and> pr_watcher q = pr_watcher p \<and>
    ((\<exists>e. r = Inl e) \<longrightarrow> a_engine (pr_app q) = a_engine (pr_app p))"
proof -
  obtain res l where l: "reload ld (a_loader (pr_app p)) = (res, l)" by fastforce
  with reload_outside [OF l] assms show ?thesis
    by (cases res) (auto simp: part_defs on_config_changed_def publish_routes_def and_then_def update_routes_def Let_def)
qed

text \<open>
  The watcher uses up a change by the attempt to load it: when a poll sees changed files and the reload
  fails, for example because a file is still being written, the error is swallowed, the routes stay as
  they were, and as long as the files keep their modification times no later turn of the loop tries
  again, however often it runs.
\<close>

theorem failed_reload_not_retried:
  assumes "w_running (pr_watcher p)" and "watching (pr_watcher p)" and "distinct (w_files (pr_watcher p))"
    and "poll_once (pd_stat d (pr_outside p)) (pr_watcher p) = (Inr True, w)"
    and "in_app (on_config_changed ld) p = (Inl e, q)"
  shows "a_engine (pr_app (watch ld d p)) = a_engine (pr_app p) \<and> w_running (pr_watcher (watch ld d p)) \<and>
    (watch ld d ^^ n) (watch ld d p) = watch ld d p"
proof -
  let ?stat = "pd_stat d (pr_outside p)"
  note quiet = poll_detects_changes [OF assms(2,3,4)]
  note frame = config_changed_frame [OF assms(5)]
  have turn: "watch ld d p = q\<lparr>pr_watcher := w\<rparr>"
    using assms(1,4,5) by (simp add: watch_def watch_turn_def)
  have same: "pr_outside (q\<lparr>pr_watcher := w\<rparr>) = pr_outside p" "a_engine (pr_app (q\<lparr>pr_watcher := w\<rparr>)) = a_engine (pr_app p)"
    using frame by (simp_all add: pr_outside_def pr_app_def)
  have running: "w_running w" using assms(1) quiet by (simp add: w_running_def)
  have "watch ld d (q\<lparr>pr_watcher := w\<rparr>) = q\<lparr>pr_watcher := w\<rparr>"
    using running quiet same(1) by (simp add: watch_def watch_turn_def)
  then have "(watch ld d ^^ n) (q\<lparr>pr_watcher := w\<rparr>) = q\<lparr>pr_watcher := w\<rparr>" by (induction n) simp_all
  then show ?thesis using turn same(2) running by simp
qed

theorem failed_reload_not_retried_witness:
  "(watch broken_loader demo_process_deps ^^ 5) (watch broken_loader demo_process_deps
      (demo_process Listening\<lparr>pr_watcher := (new_watcher [''routes.yaml''])\<lparr>w_mtimes := [(''routes.yaml'', 0)], w_task := Polling\<rparr>\<rparr>)) =
    watch broken_loader demo_process_deps
      (demo_process Listening\<lparr>pr_watcher := (new_watcher [''routes.yaml''])\<lparr>w_mtimes := [(''routes.yaml'', 0)], w_task := Polling\<rparr>\<rparr>)"
proof -
  let ?w = "(new_watcher [''routes.yaml''])\<lparr>w_mtimes := [(''routes.yaml'', 0)], w_task := Polling\<rparr>"
  let ?p = "demo_process Listening\<lparr>pr_watcher := ?w\<rparr>"
  have "in_app (on_config_changed broken_loader) ?p = (Inl OSError, ?p)"
    by (simp add: part_defs on_config_changed_def reload_def load_routes_def broken_loader_def demo_process_def and_then_def bind_outcome_def)
  moreover have "poll_once (pd_stat demo_process_deps (pr_outside ?p)) (pr_watcher ?p) = (Inr True, set_mtime ''routes.yaml'' 1 ?w)"
    by (simp add: poll_once_def demo_process_deps_def new_watcher_def)
  moreover have "w_running (pr_watcher ?p)" "watching (pr_watcher ?p)" "distinct (w_files (pr_watcher ?p))"
    by (simp_all add: w_running_def watching_def new_watcher_def)
  ultimately show ?thesis using failed_reload_not_retried [of ?p demo_process_deps _ broken_loader OSError _ 5] by blast
qed

text \<open>
  A watched file that cannot be examined ends the loop, and an orderly stop with it: after the subscription
  was cancelled the old error is raised, and the gRPC server, the HTTP client and Redis stay as they are.
\<close>

lemma unreadable_file_ends_watching:
  assumes "w_running (pr_watcher p)" and "poll_once (pd_stat d (pr_outside p)) (pr_watcher p) = (Inl e, w)"
    and "cancel_task d (watch ld d p) = (Inr (), q)"
  shows "w_task (pr_watcher (watch ld d p)) = Broken e \<and> watch ld d (watch ld d p) = watch ld d p \<and>
    shutdown env d gd (watch ld d p) = (Inl e, q)"
proof -
  have w: "watch ld d p = p\<lparr>pr_watcher := w\<lparr>w_task := Broken e\<rparr>\<rparr>"
    using assms(1,2) by (simp add: watch_def watch_turn_def)
  have "pr_watcher q = pr_watcher (watch ld d p)"
    using assms(3) out_there_frame [of "pd_unsubscribe d" "watch ld d p"]
    by (auto simp: cancel_task_def split: subscription.splits prod.splits sum.splits)
  then have "stop_watching q = (Inl e, q)" using w by (simp add: stop_watching_def on_watcher_def stop_watcher_def)
  with assms(3) w show ?thesis by (simp add: shutdown_def and_then_def watch_def w_running_def)
qed

end
