(* ===== verification/AdminMain.thy ===== *)
theory AdminMain
  imports AdminConc Lifecycle
begin

text \<open>
  Start and stop of the admin process, \<open>lifespan\<close> of \<open>admin/main.py\<close>, around the application of \<open>AdminApp\<close>:
  connect to Redis, load, install the table; and what requests find then.
\<close>

section \<open>Start and stop\<close>

definition admin_start :: "'w env \<Rightarrow> 'w process_deps \<Rightarrow> 'w admin_env \<Rightarrow> ('w admin, unit) act" where
  "admin_start env d aenv =
     and_then (on_files (init_redis env d)) (\<lambda>_.
     and_then (on_loader (load_config (ae_loader aenv))) (\<lambda>_. update_engine))"

definition admin_stop :: "'w env \<Rightarrow> 'w process_deps \<Rightarrow> ('w admin, unit) act" where
  "admin_stop env d = on_files (close_redis env d)"

section \<open>What a start gives\<close>

lemma started_in_sync: "admin_start env d aenv a = (Inr (), b) \<Longrightarrow> in_sync b"
  by (auto simp: admin_start_def and_then_cases update_engine_def in_sync_def update_routes_def Let_def)

text \<open>Every schedule of requests after a start keeps the engine in step, or has an error to show.\<close>

lemma started_requests_in_sync:
  "admin_start env d aenv a = (Inr (), b) \<Longrightarrow> admin_run aenv evs ([], b) = (js, c) \<Longrightarrow> in_sync c \<or> answered_error js"
  by (rule run_sync [OF started_in_sync])

text \<open>A Redis that does not answer keeps the process from starting, with nothing loaded.\<close>

lemma start_needs_redis:
  "init_redis env d (outside (adm_loader a)) = (Inl e, w) \<Longrightarrow>
     admin_start env d aenv a = (Inl e, a\<lparr>adm_loader := (adm_loader a)\<lparr>outside := w\<rparr>\<rparr>)"
  by (simp add: admin_start_def on_files_def)

text \<open>A restarted process serves the table the central store holds, whatever its own files say.\<close>

lemma restart_serves_central:
  assumes "central_holds (ae_loader aenv) (l_routes s) (l_gateway_cfg s) (outside (adm_loader a))"
    and "table_ok s" and "l_routes s \<noteq> []" and "codec_ok (ae_loader aenv) s"
    and "keeps (central (ae_loader aenv)) (init_redis env d)" and "admin_start env d aenv a = (Inr (), b)"
  shows "in_sync b \<and> mset (routes (adm_engine b)) = mset (l_routes s) \<and> tbl b = table_lookup s"
proof -
  from assms(6) obtain a1 a2 where i: "on_files (init_redis env d) a = (Inr (), a1)"
    and l: "on_loader (load_config (ae_loader aenv)) a1 = (Inr (), a2)" and u: "update_engine a2 = (Inr (), b)"
    by (auto simp: admin_start_def and_then_cases)
  have "central_of aenv a1 = central_of aenv a" by (rule keepsD [OF part_keeps(1) [OF assms(5)] i])
  with assms(1) have "central_holds (ae_loader aenv) (l_routes s) (l_gateway_cfg s) (outside (adm_loader a1))"
    using central_holds_cong [of "ae_loader aenv" "outside (adm_loader a1)" "outside (adm_loader a)"] by (simp add: central_of_def)
  from central_loads [OF this assms(2-4)] on_loader_Inr [OF l] obtain t' where
    t': "a2 = a1\<lparr>adm_loader := t'\<rparr>" "mset (l_routes t') = mset (l_routes s)" "table_lookup t' = table_lookup s" by auto
  with u started_in_sync [OF assms(6)] show ?thesis
    by (auto simp: update_engine_def in_sync_def tbl_def)
qed

end
