(* ===== verification/AdminProcess.thy ===== *)
theory AdminProcess
  imports AdminMain
begin

text \<open>
  The admin process as a whole: \<open>admin/main.py\<close> makes a loader, an engine and the application of
  \<open>AdminApp\<close> and starts it; then requests come and go. What the key store promises of its own
  operations holds for every schedule of requests, and what the components promise of their start is
  met by the process as it is built.
\<close>

section \<open>Construction and start\<close>

definition admin_process :: "'w env \<Rightarrow> 'w process_deps \<Rightarrow> 'w admin_env \<Rightarrow> 'w \<Rightarrow> 'w admin outcome" where
  "admin_process env d aenv w =
     bind_outcome (create_admin_app aenv new_RoutingEngine
       (new_ConfigLoader (st_routes_config (pd_settings d)) (st_gateway_config (pd_settings d)) w) None None None) (\<lambda>a. case admin_start env d aenv a of (r, b) \<Rightarrow> map_sum id (\<lambda>_. b) r)"

section \<open>The key store under requests\<close>

text \<open>
  From one state to a later one, keys are only added, and the store with its world went steps of the
  key store, provided the identifiers drawn on the way were fresh.
\<close>

definition stores :: "'w admin \<Rightarrow> key_store \<times> 'w" where
  "stores a = (adm_keys a, outside (adm_loader a))"

definition kids :: "'w admin \<Rightarrow> string list" where
  "kids a = map key_id (ks_keys (adm_keys a))"

definition key_progress :: "'w admin_deps \<Rightarrow> 'w admin \<Rightarrow> 'w admin \<Rightarrow> bool" where
  "key_progress d a b = ((\<exists>more. kids b = kids a @ more) \<and>
     (distinct (kids b) \<longrightarrow> (key_step d)\<^sup>*\<^sup>* (stores a) (stores b)))"

interpretation progress: step_order "key_progress d" for d :: "'w admin_deps"
proof (unfold_locales, goal_cases)
  case (1 s)
  then show ?case by (simp add: key_progress_def)
next
  case (2 s t u)
  then obtain m n where "kids t = kids s @ m" and n: "kids u = kids t @ n" by (auto simp: key_progress_def)
  with 2 show ?case by (auto simp: key_progress_def intro: rtranclp_trans)
qed

lemma same_keys_progress: "adm_keys b = adm_keys a \<Longrightarrow> key_progress d a b"
  by (simp add: key_progress_def kids_def stores_def r_into_rtranclp key_step.elapse)

lemma keeps_keys_progress: "keeps adm_keys m \<Longrightarrow> progress.along d m"
  by (simp add: keeps_def progress.along_def same_keys_progress)

lemma key_id_active: "key_id (JObj (dict_set ''active'' x kvs)) = key_id (JObj kvs)"
  by (simp add: update_conv)

lemma deactivate_loop_ids: "deactivate_loop d kid ks = Inr (ks', ch) \<Longrightarrow> map key_id ks' = map key_id ks"
proof (induction ks arbitrary: ks' ch)
  case (Cons v ks)
  from Cons.prems obtain i where i: "json_dict_get v ''id'' JNull = Inr i" by (auto simp: bind_outcome_def split: sum.splits)
  show ?case
  proof (cases "py_str (ad_repr d) i = kid")
    case False
    with Cons.prems i obtain ks1 where "deactivate_loop d kid ks = Inr (ks1, ch)" "ks' = v # ks1"
      by (cases "deactivate_loop d kid ks") (auto split: prod.splits)
    with Cons.IH show ?thesis by simp
  next
    case True
    with Cons.prems i obtain act where "json_dict_get v ''active'' (JBool False) = Inr act"
      by (auto simp: bind_outcome_def split: sum.splits)
    with Cons.prems i True show ?thesis
      by (cases v) (auto simp: key_id_active simp del: key_id.simps json_dict_get.simps split: if_splits)
  qed
qed simp

lemma create_progress: "progress.along d (on_keys (create_key d role label ttl))"
  unfolding progress.along_def
proof
  fix a
  show "key_progress d a (snd (on_keys (create_key d role label ttl) a))"
  proof -
    obtain r t where Pair: "create_key d role label ttl (stores a) = (r, t)" by (meson surj_pair)
    have "\<exists>more. ks_keys (fst t) = ks_keys (adm_keys a) @ more"
      using Pair by (cases rule: create_key_cases [of d role label ttl "adm_keys a" "outside (adm_loader a)"]) (auto simp: stores_def)
    moreover have "stores (snd (on_keys (create_key d role label ttl) a)) = t"
      using Pair by (simp add: on_keys_def stores_def split: prod.split)
    ultimately show ?thesis
      using key_step.create [OF Pair] by (auto simp: key_progress_def kids_def stores_def)
  qed
qed

lemma deactivate_progress: "progress.along d (on_keys (deactivate_key d kid))"
  unfolding progress.along_def
proof
  fix a
  show "key_progress d a (snd (on_keys (deactivate_key d kid) a))"
  proof -
    obtain r t where Pair: "deactivate_key d kid (stores a) = (r, t)" by (meson surj_pair)
    have "map key_id (ks_keys (fst t)) = kids a"
      using Pair by (auto simp: deactivate_key_def and_then_cases stores_def kids_def deactivate_loop_ids
          dest!: persist_keys_store split: sum.splits if_splits)
    moreover have "stores (snd (on_keys (deactivate_key d kid) a)) = t"
      using Pair by (simp add: on_keys_def stores_def split: prod.split)
    ultimately show ?thesis
      using key_step.deactivate [OF Pair] by (auto simp: key_progress_def kids_def stores_def)
  qed
qed

text \<open>Everything else leaves the keys alone.\<close>

lemma protected_keys: "keeps protected m \<Longrightarrow> keeps adm_keys m"
  by (simp add: keeps_def protected_def)

lemma parts_leave_keys:
  "keeps adm_keys (on_files m1)" "keeps adm_keys (on_loader m2)" "keeps adm_keys (on_history m3)"
  "keeps adm_keys (count_action ac s)" "keeps adm_keys (limit_write bucket env)" "keeps adm_keys update_engine"
  "keeps adm_keys (audit env r q ac s dt)" "keeps adm_keys (guard_write_action env r who ac)"
  "keeps adm_keys (require_role env role r)" "keeps adm_keys (record_change env ac rid who x y n)"
  "keeps adm_keys (lookup_route rid)" "keeps adm_keys (publish_reload_event env)"
  by (simp_all add: protected_keys keeps_intros lookup_route_def)
     (simp_all add: keeps_def on_loader_def on_history_def update_engine_def record_change_def split: prod.split)

lemma changes_leave_keys:
  assumes "waits call"
  shows "keeps adm_keys (first_turn env r call)"
proof -
  have report: "keeps adm_keys (reporting_conflicts env r who ac m)" if "keeps adm_keys m" for who ac m
    unfolding reporting_conflicts_def by (intro keeps_intros parts_leave_keys that)
  have undo: "keeps adm_keys (rollback_change env b c)" for b c
    unfolding rollback_change_def restore_or_create_def Let_def by (intro keeps_intros parts_leave_keys)
  have "keeps adm_keys (change_of env r call who)" for who
    using assms by (cases call) (simp_all add: then_finish_def keeps_intros parts_leave_keys report undo)
  then show ?thesis unfolding first_turn_def by (intro keeps_intros parts_leave_keys)
qed

lemma endpoint_progress:
  assumes "\<not> waits call"
  shows "progress.along (ae_admin env) (admin_endpoint env r call)"
proof -
  note along = keeps_keys_progress [OF parts_leave_keys(8)] keeps_keys_progress [OF parts_leave_keys(4)]
    keeps_keys_progress [OF parts_leave_keys(7)] create_progress deactivate_progress progress.along_shapes
  have asked: "progress.along d (asks f)" for d f
    by (rule progress.along_same) (simp add: asks_def)
  have "progress.along (ae_admin env) (handler_of env r call who)" for who
    using assms by (cases call) (simp_all add: list_admin_keys_handler_def rotate_key_handler_def deactivate_key_handler_def
      along asked split: option.split)
  then show ?thesis
    unfolding admin_endpoint_def by (cases "required_role call")
      (simp_all add: progress.along_and_then keeps_keys_progress [OF parts_leave_keys(9)])
qed

lemma event_progress:
  assumes "admin_event env ev (js, a) = (js', b)"
  shows "key_progress (ae_admin env) a b"
proof (cases ev)
  case (Turn i)
  show ?thesis
  proof (cases "i < length js")
    case True
    obtain r p where job: "js ! i = (r, p)" by fastforce
    with assms Turn True obtain q where q: "admin_turn env r (p, a) = (q, b)" by (auto split: prod.splits)
    show ?thesis
    proof (cases "\<exists>call. p = Arrived call \<and> \<not> waits call")
      case True
      then show ?thesis using q progress.along_run [OF endpoint_progress] by (auto split: prod.splits)
    next
      case False
      have "adm_keys b = adm_keys a"
      proof (cases "\<exists>call. p = Arrived call")
        case True
        with False q show ?thesis using keepsD [OF changes_leave_keys] by (auto split: prod.splits sum.splits)
      next
        case False
        then have "protected (snd (admin_turn env r (p, a))) = protected a" by (intro turn_keeps) blast
        with q show ?thesis by (simp add: protected_def)
      qed
      then show ?thesis by (rule same_keys_progress)
    qed
  qed (use assms Turn in \<open>simp add: progress.rel_refl\<close>)
qed (use assms in \<open>auto intro!: same_keys_progress\<close>)

lemma run_progress: "admin_run env evs (js, a) = (js', b) \<Longrightarrow> key_progress (ae_admin env) a b"
proof (induction evs arbitrary: js' b rule: rev_induct)
  case Nil
  then show ?case by (simp add: progress.rel_refl)
next
  case (snoc ev evs)
  obtain js1 b1 where run: "admin_run env evs (js, a) = (js1, b1)" by fastforce
  with snoc.prems have "admin_event env ev (js1, b1) = (js', b)" by simp
  from progress.rel_trans [OF snoc.IH [OF run] event_progress [OF this]] show ?case .
qed

lemma run_store_ok:
  assumes "admin_run env evs (js, a) = (js', b)" and "store_ok (ae_admin env) (stores a)" and "distinct (kids b)"
  shows "(key_step (ae_admin env))\<^sup>*\<^sup>* (stores a) (stores b)" and "store_ok (ae_admin env) (stores b)"
proof -
  show s: "(key_step (ae_admin env))\<^sup>*\<^sup>* (stores a) (stores b)"
    using run_progress [OF assms(1)] assms(3) by (simp add: key_progress_def)
  show "store_ok (ae_admin env) (stores b)" by (rule keys.inv_steps [OF s assms(2)])
qed

section \<open>What a construction gives\<close>

lemma bootstrap_admits:
  assumes "k \<in> set keys" and "strip k \<noteq> []"
  shows "\<exists>p. authenticate_loop d now (ad_sha256 d (strip k)) (bootstrap_records d created role i keys @ rest) = Inr (Some p) \<and>
    p_role p = role"
  using assms
proof (induction keys arbitrary: i)
  case (Cons key keys)
  then show ?case
    by (cases "strip key = [] \<or> ad_sha256 d (strip key) \<noteq> ad_sha256 d (strip k)")
       (auto simp: Let_def authenticate_record expires_ok_def expired_at_def simp del: authenticate_loop.simps)
qed simp

lemma start_keeps_keys: "keeps adm_keys (admin_start env d aenv)"
  unfolding admin_start_def by (intro keeps_intros parts_leave_keys)

lemma process_built:
  assumes "admin_process env d aenv w = Inr a" and "\<not> ad_exists (ae_admin aenv) w (as_key_store_file (ae_settings aenv))"
  shows "in_sync a \<and> (\<exists>created. ks_keys (adm_keys a) =
    bootstrap_records (ae_admin aenv) created Write 0 (as_api_key (ae_settings aenv) # parse_csv_keys (as_write_api_keys (ae_settings aenv))) @
    bootstrap_records (ae_admin aenv) created Read 0 (parse_csv_keys (as_read_api_keys (ae_settings aenv))))"
proof -
  from assms(1) obtain a0 where c: "create_admin_app aenv new_RoutingEngine
      (new_ConfigLoader (st_routes_config (pd_settings d)) (st_gateway_config (pd_settings d)) w) None None None = Inr a0"
    and s: "admin_start env d aenv a0 = (Inr (), a)"
    by (auto simp: admin_process_def bind_outcome_def map_sum_Inr_iff split: sum.splits prod.splits)
  have "adm_keys a = adm_keys a0" by (rule keepsD [OF start_keeps_keys s])
  moreover from c obtain keys w' where "new_key_store (ae_admin aenv) (as_key_store_file (ae_settings aenv))
      (as_api_key (ae_settings aenv) # parse_csv_keys (as_write_api_keys (ae_settings aenv)))
      (parse_csv_keys (as_read_api_keys (ae_settings aenv))) w = (Inr keys, w')" and "adm_keys a0 = keys"
    by (auto simp: create_admin_app_def Let_def bind_outcome_def or_setting_def new_ConfigLoader_def
        new_history_store_def map_sum_Inr_iff split: sum.splits prod.splits)
  ultimately show ?thesis using new_key_store_fresh [OF _ assms(2)] started_in_sync [OF s] by metis
qed

section \<open>Properties\<close>

text \<open>
  C10. The admin process as it is built keeps its promises through every schedule of requests: first
  started without a key file it admits every configured write key as a writer; from then on, whatever
  requests arrive, in whatever order their turns fall and whatever changes elsewhere, as long as the
  identifiers it draws for new keys are fresh, the key store stays well typed, so that checking a secret
  and listing the keys never raise, and the routing engine holds the table of the loader unless some
  request was answered with an error.
\<close>

theorem admin_process_invariant:
  assumes "iso_laws (ae_admin aenv)" and "\<not> ad_exists (ae_admin aenv) w (as_key_store_file (ae_settings aenv))"
    and "admin_process env d aenv w = Inr a" and "admin_run aenv evs ([], a) = (js, b)" and "distinct (kids b)"
  shows "(\<forall>k \<in> set (as_api_key (ae_settings aenv) # parse_csv_keys (as_write_api_keys (ae_settings aenv))). strip k \<noteq> [] \<longrightarrow>
      (\<exists>p. authenticate (ae_admin aenv) (strip k) (adm_keys a) v = Inr (Some p) \<and> p_role p = Write)) \<and>
    keys_ok (ae_admin aenv) (ks_keys (adm_keys b)) \<and>
    (\<exists>res. authenticate (ae_admin aenv) secret (adm_keys b) v = Inr res) \<and> (\<exists>l. list_keys (ae_admin aenv) (adm_keys b) v = Inr l) \<and>
    (in_sync b \<or> answered_error js)"
proof -
  let ?d = "ae_admin aenv" and ?c = "ae_settings aenv"
  from process_built [OF assms(3,2)] obtain created where sync: "in_sync a" and ks: "ks_keys (adm_keys a) =
      bootstrap_records ?d created Write 0 (as_api_key ?c # parse_csv_keys (as_write_api_keys ?c)) @
      bootstrap_records ?d created Read 0 (parse_csv_keys (as_read_api_keys ?c))" by blast
  have "store_ok ?d (stores a)" using assms(1) bootstrap_ok by (simp add: store_ok_def stores_def ks del: bootstrap_records.simps)
  from run_store_ok(2) [OF assms(4) this assms(5)] have ok: "store_ok ?d (stores b)" .
  have "\<exists>res. authenticate ?d secret (adm_keys b) v = Inr res" "\<exists>l. list_keys ?d (adm_keys b) v = Inr l"
    using checks_total(1) [OF ok, of secret v] checks_total(2) [OF ok, of v] by (simp_all add: stores_def)
  moreover have "\<forall>k \<in> set (as_api_key ?c # parse_csv_keys (as_write_api_keys ?c)). strip k \<noteq> [] \<longrightarrow>
      (\<exists>p. authenticate ?d (strip k) (adm_keys a) v = Inr (Some p) \<and> p_role p = Write)"
    unfolding authenticate_def ks by (intro ballI impI bootstrap_admits)
  ultimately show ?thesis using ok run_sync [OF sync assms(4)] by (simp add: store_ok_def stores_def)
qed

text \<open>
  C9. Deactivation holds for the API: once a request to deactivate a key was answered normally, no request
  in any schedule from then on is admitted as that key, to no endpoint and in no role, whatever
  keys are created, rotated or deactivated meanwhile and whatever other requests were half-way through.
\<close>

theorem deactivated_key_locked_out:
  assumes "store_ok (ae_admin env) (stores a)" and "admin_endpoint env r (DeactivateKey kid) a = (Inr v, b)"
    and "admin_run env evs (js, b) = (js', c)" and "distinct (kids c)"
    and "require_role env role q c = (Inr p, t)"
  shows "p_key_id p \<noteq> kid"
proof -
  from assms(2) obtain who a1 where h: "deactivate_key_handler env r kid who a1 = (Inr v, b)" and a1: "protected a1 = protected a"
    by (auto simp: admin_endpoint_def and_then_cases dest!: require_role_Inr)
  then obtain a2 a3 a4 where g: "guard_write_action env r who ''key_deactivate'' a1 = (Inr (), a2)"
    and k: "on_keys (deactivate_key (ae_admin env) kid) a2 = (Inr True, a3)"
    and "count_action ''key_deactivate'' ''ok'' a3 = (Inr (), a4)"
    and "audit env r (Some who) ''key_deactivate'' ''ok'' [(''key_id'', JStr kid)] a4 = (Inr (), b)"
    by (auto simp: deactivate_key_handler_def and_then_cases split: if_splits)
  then have b: "adm_keys b = adm_keys a3"
    using keepsD [OF parts_leave_keys(4)] keepsD [OF parts_leave_keys(7)] by metis
  have "protected a2 = protected a" using keepsD [OF guard_keeps(1) g] a1 by simp
  then have ok: "store_ok (ae_admin env) (stores a2)" using assms(1) by (simp add: store_ok_def stores_def protected_def)
  from k obtain s3 where s3: "deactivate_key (ae_admin env) kid (stores a2) = (Inr True, s3)" "fst s3 = adm_keys a3"
    by (auto simp: on_keys_def stores_def split: prod.splits)
  have ok3: "store_ok (ae_admin env) s3" by (rule keys.inv_step [OF ok key_step.deactivate [OF s3(1)]])
  have "deactivated kid s3" using deactivate_revokes [OF ok s3(1)] by blast
  then have "deactivated kid (stores b)" and "store_ok (ae_admin env) (stores b)"
    using ok3 s3(2) b by (simp_all add: deactivated_def store_ok_def stores_def)
  then have "\<not> admits_key (ae_admin env) (stores c) kid"
    by (intro keys.never_again [OF run_store_ok(1) [OF assms(3) _ assms(4)]])
  with require_role_Inr [OF assms(5)] show ?thesis by (auto simp: admits_key_def stores_def)
qed

definition demo_revoked :: key_store where
  "demo_revoked = demo_store\<lparr>ks_keys := [key_record ''write-bootstrap-1'' ''bootstrap-write'' Write True ''0'' None ''root'',
     key_record ''write-bootstrap-3'' ''bootstrap-write'' Write False ''0'' None ''ops'']\<rparr>"

lemma demo_deactivate:
  "\<exists>v b. admin_endpoint demo_admin_env root_request (DeactivateKey ''write-bootstrap-3'') demo_admin = (Inr v, b) \<and>
     adm_keys b = demo_revoked \<and> adm_networks b = []"
proof -
  have r: "require_role demo_admin_env Write root_request demo_admin = (Inr demo_root, demo_admin)"
    by (rule demo_require_role) (simp_all add: demo_admin_def)
  have "admin_endpoint demo_admin_env root_request (DeactivateKey ''write-bootstrap-3'') demo_admin =
      deactivate_key_handler demo_admin_env root_request ''write-bootstrap-3'' demo_root demo_admin"
    by (simp add: admin_endpoint_def r)
  then show ?thesis
    by (simp add: deactivate_key_handler_def demo_handler_defs demo_admin_def demo_root_def on_keys_def demo_revoked_def
        deactivate_key_def demo_store_def deactivate_record persist_keys_def del: deactivate_loop.simps)
qed

lemma demo_revoked_role:
  assumes "adm_keys a = demo_revoked" and "adm_networks a = []"
  shows "require_role demo_admin_env Read root_request a = (Inr demo_root, a)"
proof -
  have "lower ''X-Admin-Key'' = ''x-admin-key''" by code_simp
  then have "presented_key demo_admin_env root_request = Inr ''root''"
    by (simp add: presented_key_def header_get_def root_request_def)
  moreover have "authenticate demo_admin_deps ''root'' demo_revoked w = Inr (Some demo_root)" for w
    by (simp add: authenticate_def demo_revoked_def demo_store_def authenticate_record expires_ok_def expired_at_def
        demo_root_def del: authenticate_loop.simps)
  ultimately show ?thesis using assms
    by (simp add: require_role_def and_then_def asks_def demo_admin_env_def is_allowed_def demo_root_def ip_in_allowlist_def)
qed

theorem deactivated_key_locked_out_witness:
  "\<exists>v b. admin_endpoint demo_admin_env root_request (DeactivateKey ''write-bootstrap-3'') demo_admin = (Inr v, b) \<and>
     require_role demo_admin_env Read root_request b = (Inr demo_root, b) \<and> p_key_id demo_root \<noteq> ''write-bootstrap-3''"
proof -
  obtain v b where b: "admin_endpoint demo_admin_env root_request (DeactivateKey ''write-bootstrap-3'') demo_admin = (Inr v, b)"
    "adm_keys b = demo_revoked" "adm_networks b = []" using demo_deactivate by blast
  note q = demo_revoked_role [OF b(2,3)]
  have "store_ok (ae_admin demo_admin_env) (stores demo_admin)"
    using demo_store_ok by (simp add: stores_def demo_admin_def)
  moreover have "distinct (kids b)" by (simp add: kids_def b(2) demo_revoked_def)
  ultimately have "p_key_id demo_root \<noteq> ''write-bootstrap-3''"
    using deactivated_key_locked_out [OF _ b(1) admin_run_simps(1) _ q] by simp
  with b(1) q show ?thesis by blast
qed

text \<open>A Redis that is connected and fails every command.\<close>

definition broken_redis :: "'w env" where
  "broken_redis =
     \<lparr>redis_ready = (\<lambda>_. True), redis_client_id = (\<lambda>_. 0), redis_exists = (\<lambda>_. throw RedisError),
      redis_ttl = (\<lambda>_. throw RedisError), redis_getkey = (\<lambda>_. throw RedisError), redis_set_ex = (\<lambda>_ _ _. throw RedisError),
      redis_set_nx_ex = (\<lambda>_ _ _. throw RedisError), redis_delete = (\<lambda>_. throw RedisError), redis_incr = (\<lambda>_. throw RedisError),
      redis_expire = (\<lambda>_ _. throw RedisError), redis_script_load = (\<lambda>_. throw RedisError),
      redis_evalsha = (\<lambda>_ _ _ _ _. throw RedisError), clock = (\<lambda>_. 0), http_request = (\<lambda>_. throw ConnectError),
      sleep = (\<lambda>_. ret ()), fetch_json = (\<lambda>_. throw ConnectError), jwt_decode = (\<lambda>_ _ _ _ _ _. Inl JWTError),
      config_digest = (\<lambda>_. []), float_str = (\<lambda>_. [])\<rparr>"

definition demo_main_deps :: "admin_demo process_deps" where
  "demo_main_deps =
     \<lparr>pd_connect = (\<lambda>_. ret ()), pd_ping = ret (), pd_aclose = ret (), pd_forget = id, pd_close_client = ret (),
      pd_serve = (\<lambda>_. ret ()), pd_wait = ret (), pd_stop_serving = ret (), pd_subscribe = ret (), pd_unsubscribe = ret (),
      pd_stat = (\<lambda>_ _. Inr None), pd_settings = default_Settings\<rparr>"

lemma demo_load: "load_config demo_route_deps l = (Inr (), l\<lparr>l_routes := [], l_gateway_cfg := default_GatewayConfig\<rparr>)"
  by (simp add: load_config_def load_central_def demo_route_deps_def and_then_def catching_def reload_def Let_def
      load_routes_def load_gateway_def read_yaml_def bind_outcome_def dict_get_default_def)

lemma demo_process_built: "\<exists>a. admin_process broken_redis demo_main_deps demo_admin_env demo_admin_world = Inr a \<and>
    length (kids a) = 1"
proof -
  have s: "strip ''changeme-admin-key'' = ''changeme-admin-key''" "parse_csv_keys [] = []"
    by (simp_all add: strip_def lstrip_def rstrip_chars_def is_space_def parse_csv_keys_def split_on_single)
  show ?thesis
    by (simp add: admin_process_def create_admin_app_def default_AdminSettings_def
      parse_allowed_networks_def new_key_store_def load_or_bootstrap_def and_then_def demo_admin_world_def demo_iso s Let_def
      persist_keys_def new_history_store_def load_entries_def admin_start_def on_files_def init_redis_def
      broken_redis_def on_loader_def demo_load update_engine_def kids_def or_setting_def new_ConfigLoader_def)
qed

theorem admin_process_invariant_witness:
  "\<exists>a js. admin_process broken_redis demo_main_deps demo_admin_env demo_admin_world = Inr a \<and>
     admin_run demo_admin_env [Arrive root_request Health, Turn 0] ([], a) = (js, a) \<and> in_sync a \<and>
     (\<exists>p. authenticate demo_admin_deps ''changeme-admin-key'' (adm_keys a) demo_admin_world = Inr (Some p) \<and> p_role p = Write)"
proof -
  obtain a where a: "admin_process broken_redis demo_main_deps demo_admin_env demo_admin_world = Inr a" "length (kids a) = 1"
    using demo_process_built by blast
  have run: "admin_run demo_admin_env [Arrive root_request Health, Turn 0] ([], a) =
      ([(root_request, Replied (Inr (admin_health a)))], a)"
    by (simp add: admin_endpoint_def asks_def)
  have k: "as_api_key default_AdminSettings = ''changeme-admin-key''" "strip ''changeme-admin-key'' = ''changeme-admin-key''"
    by (simp_all add: default_AdminSettings_def strip_def lstrip_def rstrip_chars_def is_space_def)
  have "distinct (kids a)" using a(2) by (auto simp: length_Suc_conv)
  from admin_process_invariant [OF _ _ a(1) run this, of demo_admin_world] k show ?thesis
    using a(1) run by (auto simp: demo_iso_laws demo_admin_world_def answered_error_def)
qed

end
