(* ===== verification/Spec2Isabelle.thy ===== *)
theory Spec2Isabelle
  imports Loader Router Pipeline Proxy Watcher Gateway Grpc WebSocket BreakerLive BreakerConc RateConc Rest2Grpc Observability PluginOrder AdminTrail AdminProcess
begin

text \<open>
  Verification development of the Open API gateway (Python, \<open>src/gateway\<close> and \<open>src/admin\<close>).

  The program. A gateway process accepts HTTP, WebSocket and gRPC requests, finds the first route of
  its table that accepts the request, selects an upstream target, runs the global and the route's
  plugins around a proxy handler and forwards. An admin process edits the route table over a
  guarded HTTP API, persists it to a YAML file and to Redis, keeps a history that can be rolled back,
  and publishes reload messages. Both build on one configuration loader and one routing engine.

  The model. Every coroutine is a function of the state: \<open>('s, 'a) act\<close> takes a state to a result or
  an exception, and the new state; \<open>and_then\<close> is sequencing, \<open>catching\<close> is \<open>try ... except Exception\<close>
  (theory Prelude). Exceptions are values of \<open>exn\<close>, dictionaries are association lists in insertion
  order. What lies outside \<open>src/\<close> is a field of a record of external operations that act on a world of
  arbitrary type \<open>'w\<close>: \<open>env\<close> for the data plane (Redis, httpx, jose, clocks), \<open>loader_deps\<close> (YAML,
  pydantic validation, files), \<open>admin_deps\<close> (files, SHA-256, tokens, ISO dates), \<open>grpc_deps\<close>, \<open>ws_deps\<close>,
  \<open>rest_deps\<close>, \<open>process_deps\<close>. What the code relies on of them is stated as named conditions
  (\<open>string_server\<close>, \<open>script_server\<close>, \<open>file_laws\<close>, \<open>json_laws\<close>, \<open>writes_read_back\<close>, \<open>iso_laws\<close>, \<open>yaml_laws\<close>, \<open>sleeps\<close>,
  \<open>closes_once\<close>, \<open>stops\<close>), and each is met by a concrete instance (theories DemoWorld and AdminWorld and
  the closed examples after the properties).

  Theories and sources.
  Prelude, Steps, PyStr, Json, Glob: exceptions, dictionaries, what a computation keeps or preserves of its state,
  Python's text operations, decoded JSON values, \<open>fnmatch\<close> patterns.
  Settings: \<open>gateway/config/settings.py\<close>, and what \<open>main.py\<close> of both processes and the listeners take from it.
  Config: the pydantic models of \<open>gateway/config/loader.py\<close>.
  Loader: \<open>ConfigLoader\<close>: placeholder expansion, loading from files and Redis, the route table operations.
  Http: \<open>gateway/core/context.py\<close> and \<open>protocol_utils.py\<close>, requests and responses.
  Router: \<open>gateway/core/router.py\<close>, matching and upstream selection.
  World, DemoWorld: the external operations, the gateway state that plugins share, handlers that call
  the next one at most once; an in-memory instance.
  RateLimit, Breaker, Auth, Logging: the six plugins of \<open>gateway/plugins\<close>. RateConc, BreakerConc: concurrent
  requests in the limiter and in the breaker, one Redis command at a time. BreakerLive: runs of the breaker.
  Observability: \<open>gateway/observability\<close>: the JSON log formatter and the root logger, the declared metrics, what
  metrics and tracing are set up with; the access log's records.
  Pipeline: plugin registry, cache and chain (\<open>plugins/base.py\<close>, \<open>core/pipeline.py\<close>).
  PluginOrder: what the order of the plugins within the chain is worth.
  Proxy: \<open>gateway/core/proxy.py\<close>. Grpc: \<open>adapters/grpc_proxy.py\<close>. Rest2Grpc: \<open>adapters/rest2grpc.py\<close>.
  Gateway: the singletons, the reload callback, the system endpoints and the HTTP catch-all of \<open>gateway/app.py\<close>.
  WebSocket: \<open>listeners/websocket_listener.py\<close> and the WebSocket catch-all of \<open>gateway/app.py\<close>.
  Watcher: \<open>config/watcher.py\<close>. Lifecycle: start, stop and the Redis subscription of \<open>gateway/app.py\<close>,
  \<open>core/redis.py\<close>, the server of \<open>listeners/grpc_listener.py\<close>.
  AdminKeys: \<open>admin/security.py\<close>. AdminHistory: \<open>admin/history.py\<close> and \<open>audit.py\<close>. AdminAccess, AdminViews,
  AdminApp: \<open>admin/app.py\<close>, its write limiter and IP allow list, its read-only views, its state, guards and
  handlers. AdminSafety: all endpoints as one step function and what they keep. AdminConc: the same endpoints
  cut at their awaits and interleaved. AdminMain: start and stop of the admin process (\<open>admin/main.py\<close>).
  AdminTrail: the history as an account of who changed the table. AdminProcess: the process as \<open>main.py\<close> builds
  it, and its key store under every schedule of requests.
  This theory: what spans the two processes.

  Interfaces. Locales state what one part promises another and are interpreted on the model's own
  definitions: a validator that lower-cases (Config), the first-match search of a rule list (Router),
  handlers that wrap the next one (\<open>middleware\<close>, Pipeline), a route table as a finite map with undo
  (\<open>route_store\<close>, Loader), a step relation that never leaves an invariant (\<open>stable\<close>, Steps; instances in
  AdminKeys, BreakerConc, RateConc and Lifecycle), on which a store of keys that can be revoked rests
  (\<open>revocable\<close>, AdminKeys; instances for the running process, \<open>key_step\<close>, and for one that is restarted
  on its file, \<open>key_life\<close>), a guard whose passing is needed to change anything (\<open>gate\<close>, AdminSafety), a
  preorder on states that computations go along (\<open>step_order\<close>, Steps: keeping a view, preserving a
  predicate, the progress of the key store), one direction of a WebSocket session (\<open>pump_direction\<close>,
  WebSocket).

  What the lemmas show. Plugins: each is a function that answers on its own or calls the next handler
  exactly once (\<open>calls_once\<close>), so the chain reaches the proxy at most once and a plugin that lets a
  request not in keeps every upstream untouched, on HTTP, gRPC and WebSocket; such a request does not
  reach Redis either, unless a limiter or breaker is global and the credential asked for on the route.
  Rate limiter: a bound for any run of the script and for any interleaving of requests, that expiry is
  unobservable, and two ways in which the limit is lost: clocks that differ between processes, and a
  Redis server that forgot the script. Breaker: refinement of the four-state machine of its header
  comment (it counts the failures in a window; success does not reset the count), that a failing
  upstream trips it and one success after expiry closes it, and that under every interleaving at most
  one more request probes than the probe lock has expired. Router: first match, fair rotation. Proxy:
  number of attempts and the error mapping. Loader: refinement of a finite map, save then load.
  Lifecycle: complete start and stop, and what a failing reload and a lost connection do to them, over
  Redis and from the watcher; a file that is read while it is rewritten leaves the gateway without
  routes. A compressed reply is forwarded broken. Admin: key lifetime, permanent deactivation (across
  restarts when its write succeeded), round trips of keys and history through their files, the sliding
  window, the allow list setting, that only an admitted writer changes anything, that table and engine
  stay in step, that a rollback undoes one change as long as its identifiers were left alone since; for
  concurrent requests, that each change is made in one uninterrupted turn, that table and engine agree
  at every await, that the central store always holds one whole table (the empty one sends its readers
  to their files), that an overtaken save loses a change, that each change of the table is accounted for
  by one history entry of the writer who made it, that a deactivated key is locked out for good, and
  that the process as it is built meets what these ask of its start. Observability: an access log line
  has exactly its fields, and no line feed or other C0 control character. This theory: what a change of
  the admin process becomes in a gateway that shares the routes file, whose placeholders it replaces
  once more from its own environment (\<open>read_back\<close>).

  Bounds and termination. The retry loop gets \<open>count + 1\<close> attempts as fuel, which is Python's \<open>range\<close>
  (\<open>retry_bounds\<close> shows it never runs dry); a request alone in the limiter gets five steps, which end it
  (\<open>solo_ends\<close>); placeholder expansion and \<open>str.replace\<close> terminate because the rest of the text gets
  shorter; the two WebSocket pumps follow an explicit schedule, whose end stands for both connections
  being gone, and the theorem about them holds for every schedule, on connections that record what
  passes over them; the watcher is one turn of its loop, which may be the last one.

  Conventions. Times and other floats are exact rationals. Text is a list of characters up to 255, bytes
  and text are not told apart except where a decoder is a parameter. One handler runs at a time, except
  where interleaving at the \<open>await\<close>s is modelled: the two pumps of a WebSocket session, the commands of
  the circuit breaker (\<open>crowd_step\<close>, in which the probe lock may expire at any time) and of the rate
  limiter (\<open>limit_crowd\<close>), the requests of the admin process (\<open>admin_event\<close>: one turn runs from one
  await to the next), and arbitrary steps between two events of a process (\<open>process_step\<close>, in which the
  subscription may lose its connection). The clock is a function of the world. Log lines other than the
  access log's are left out.

  Not modelled. What libraries do with what they are given: uvicorn, the exporters of metrics and traces,
  the reading of environment variables by pydantic-settings (the settings are a record, its defaults a
  value), FastAPI's request parsing and the HTTP answers it makes of exceptions, the serving of static
  files under the admin process's user interface.
\<close>

section \<open>From the admin process to the gateway process\<close>

text \<open>
  What a process makes of a table that was saved as the dumps \<open>vs\<close> of its routes: the placeholders
  in all of them are replaced from that process's secrets and environment, then each is validated.
\<close>

definition read_back :: "'w loader_deps \<Rightarrow> 'w \<Rightarrow> string \<Rightarrow> json list \<Rightarrow> RouteConfig list outcome" where
  "read_back d w source vs = bind_outcome (expand_env_list d w source vs) (map_outcome (with_kwargs (route_validate d)))"

lemma load_saved:
  assumes "save_routes d rs s = (Inr u, s')" and "yaml_laws d"
    and "l_routes_path l = l_routes_path s" and "outside l = outside s'"
  shows "load_routes d l = read_back d (outside l) (l_routes_path l) (map (route_dump d) rs)"
proof -
  let ?table = "JObj [(''routes'', JList (map (route_dump d) rs))]"
  have "write_file d (l_routes_path s) (render_routes_yaml d rs) (outside s) = (Inr (), outside s')"
    using assms(1) by (auto simp: save_routes_def split: prod.splits sum.splits)
  then have "read_file d (outside l) (l_routes_path l) = Inr (Some (yaml_dump d ?table))"
    using assms(2-4) unfolding yaml_laws_def render_routes_yaml_def by metis
  moreover have "yaml_load d (yaml_dump d ?table) = Inr ?table" using assms(2) by (simp add: yaml_laws_def)
  ultimately show ?thesis
    by (simp add: load_routes_def read_yaml_def bind_outcome_def dict_get_default_def read_back_def split: sum.split)
qed

lemma read_back_plain:
  assumes "list_all (dumps_plain d) rs"
  shows "read_back d w source (map (route_dump d) rs) = Inr rs"
proof -
  have "expand_env_list d w source (map (route_dump d) rs) = Inr (map (route_dump d) rs)"
    using assms by (intro expand_plain(2)) (simp add: list_all_iff dumps_plain_def)
  moreover have "map_outcome (with_kwargs (route_validate d)) (map (route_dump d) rs) = Inr rs"
    using assms by (intro map_outcome_map) (simp add: list_all_iff dumps_plain_def)
  ultimately show ?thesis by (simp add: read_back_def bind_outcome_def)
qed

lemma load_gateway_table [simp]: "load_gateway d (l\<lparr>l_routes := rs\<rparr>) = load_gateway d l"
  by (simp add: load_gateway_def cong: option.case_cong)

lemma message_reloads:
  assumes "pr_task p = Listening" and "load_gateway d (a_loader (pr_app p)) = Inr g"
  shows "case load_routes d (a_loader (pr_app p)) of
      Inl e \<Rightarrow> pr_task (on_event d ''message'' p) = Failed e \<and> pr_app (on_event d ''message'' p) = pr_app p
    | Inr rs \<Rightarrow> routes (a_engine (pr_app (on_event d ''message'' p))) = rs \<and>
        l_routes (a_loader (pr_app (on_event d ''message'' p))) = rs \<and> pr_task (on_event d ''message'' p) = Listening"
  using assms
  by (simp add: on_event_def part_defs on_config_changed_def publish_routes_def update_routes_def reload_def Let_def and_then_def
      split: sum.split)

text \<open>
  C29. What a change made over the admin API becomes in a gateway process that shares the routes file:
  after a route was created, updated or deleted, the next reload message makes a listening gateway install
  what \<open>read_back\<close> makes of the saved table. Its placeholders are replaced once more, from the gateway's
  own secrets and environment, so a route whose texts contain a placeholder may become another route there,
  and a placeholder that cannot be replaced, or a dump that does not validate, ends the gateway's
  subscription and leaves its table as it was. A table whose dumps contain no dollar sign and validate back
  is installed as it is, in the same order, whatever the gateway's environment holds. Only the file is
  looked at: the central store, which the admin process wrote too and which the documentation says the
  reload takes its table from, may hold anything. Needed are the laws of YAML and files and a
  gateway file that loads.
\<close>

theorem admin_change_reaches_gateway:
  assumes "create_route d route s = (Inr (), s') \<or> update_route d rid route s = (Inr (), s') \<or> delete_route d rid s = (Inr (), s')"
    and "yaml_laws d"
    and "gd = d\<lparr>getenv := environ, redis_hgetall := stored, redis_get := stored_gateway\<rparr>"
    and "pr_task p = Listening" and "l_routes_path (a_loader (pr_app p)) = l_routes_path s" and "pr_outside p = outside s'"
    and "load_gateway gd (a_loader (pr_app p)) = Inr g"
  shows "let q = on_event gd ''message'' p; table = read_back gd (pr_outside p) (l_routes_path s) (map (route_dump d) (l_routes s')) in
    (case table of
       Inl e \<Rightarrow> pr_task q = Failed e \<and> pr_app q = pr_app p
     | Inr rs \<Rightarrow> routes (a_engine (pr_app q)) = rs \<and> l_routes (a_loader (pr_app q)) = rs \<and> pr_task q = Listening) \<and>
    (list_all (dumps_plain d) (l_routes s') \<longrightarrow> table = Inr (l_routes s'))"
proof -
  obtain rs where rs: "save_routes d rs s = (Inr (), s')" using assms(1) table_ops_save by metis
  then have rs': "l_routes s' = rs" by (auto simp: save_routes_def split: prod.splits sum.splits)
  have save: "save_routes gd rs s = (Inr (), s')" using rs by (simp add: save_routes_def render_routes_yaml_def assms(3))
  have laws: "yaml_laws gd" using assms(2) by (simp add: yaml_laws_def assms(3))
  have plain: "list_all (dumps_plain d) rs \<Longrightarrow> list_all (dumps_plain gd) rs" by (simp add: list_all_iff dumps_plain_def assms(3))
  have dump: "route_dump gd = route_dump d" by (simp add: assms(3))
  have "load_routes gd (a_loader (pr_app p)) = read_back gd (pr_outside p) (l_routes_path s) (map (route_dump d) (l_routes s'))"
    using load_saved [OF save laws, of "a_loader (pr_app p)"] assms(5,6) rs' dump by (simp add: pr_outside_def)
  with message_reloads [OF assms(4,7)] show ?thesis
    using read_back_plain [OF plain] rs' dump by (auto simp: Let_def split: sum.splits)
qed

definition shared_file :: "(string option) loader_deps" where
  "shared_file = \<lparr>yaml_load = demo_loads, yaml_dump = demo_dumps, json_loads = demo_loads,
     route_validate = (\<lambda>kvs. case kvs of [(_, JStr i)] \<Rightarrow> Inr (demo_route i) | _ \<Rightarrow> Inl TypeError),
     gateway_validate = (\<lambda>_. Inr default_GatewayConfig), route_dump = (\<lambda>r. JObj [(''id'', JStr (r_id r))]),
     route_dump_json = (\<lambda>_. []), gateway_dump_json = (\<lambda>_. []),
     read_file = (\<lambda>w f. if f = ''routes.yaml'' then Inr w else Inr None), write_file = (\<lambda>f t w. if f = ''routes.yaml'' then (Inr (), Some t) else (Inl OSError, w)),
     getenv = (\<lambda>_ _. None), redis_hgetall = (\<lambda>_ _. Inl RedisError), redis_get = (\<lambda>_ _. Inl RedisError),
     redis_pipeline = (\<lambda>_ w. (Inr (), w))\<rparr>"

definition file_gateway :: "string option \<Rightarrow> (string option) process" where
  "file_gateway w =
     \<lparr>pr_grpc = \<lparr>gs_app = \<lparr>a_loader = new_ConfigLoader ''routes.yaml'' ''gateway.yaml'' w, a_engine = new_RoutingEngine,
        a_proxy_started = True, a_plugin_cache = [], a_sha_cache = [], a_jwks_cache = [], a_log = []\<rparr>, gs_channels = []\<rparr>,
      pr_watcher = new_watcher [''routes.yaml''], pr_server = True, pr_task = Listening\<rparr>"

definition gateway_file :: "(string option) loader_deps" where
  "gateway_file = shared_file\<lparr>getenv := (\<lambda>_ name. if name = ''X'' then Some ''new'' else None), redis_hgetall := (\<lambda>_ _. Inr []), redis_get := (\<lambda>_ _. Inr None)\<rparr>"

definition created :: "string \<Rightarrow> (string option) ConfigLoader" where
  "created i = snd (create_route shared_file (demo_route i) (new_ConfigLoader ''routes.yaml'' ''gateway.yaml'' None))"

lemma shared_file_laws: "yaml_laws shared_file"
  by (simp add: yaml_laws_def shared_file_def demo_dumps_def demo_loads_def nat_of_digits_str_nat)

lemma created_table: "l_routes (created i) = [demo_route i]"
  by (simp add: created_def create_route_def save_routes_def new_ConfigLoader_def shared_file_def)

theorem admin_change_reaches_gateway_witness:
  "routes (a_engine (pr_app (on_event gateway_file ''message'' (file_gateway (outside (created ''a'')))))) = [demo_route ''a''] \<and>
   routes (a_engine (pr_app (on_event gateway_file ''message'' (file_gateway (outside (created ''${X}'')))))) = [demo_route ''new''] \<and>
   pr_task (on_event gateway_file ''message'' (file_gateway (outside (created ''${Y}'')))) \<noteq> Listening"
proof -
  let ?l = "new_ConfigLoader ''routes.yaml'' ''gateway.yaml'' None :: (string option) ConfigLoader"
  let ?p = "\<lambda>i. file_gateway (outside (created i))"
  let ?table = "\<lambda>i. read_back gateway_file (pr_outside (?p i)) (l_routes_path ?l) (map (route_dump shared_file) (l_routes (created i)))"
  have create: "create_route shared_file (demo_route i) ?l = (Inr (), created i)" for i
    by (simp add: created_def create_route_def save_routes_def new_ConfigLoader_def shared_file_def)
  have at: "l_routes_path (a_loader (pr_app (?p i))) = l_routes_path ?l" "pr_outside (?p i) = outside (created i)"
    "pr_task (?p i) = Listening" "load_gateway gateway_file (a_loader (pr_app (?p i))) = Inr default_GatewayConfig" for i
    by (simp_all add: file_gateway_def pr_app_def pr_outside_def new_ConfigLoader_def load_gateway_def gateway_file_def shared_file_def bind_outcome_def)
  have reaches: "let q = on_event gateway_file ''message'' (?p i); table = ?table i in
    (case table of
       Inl e \<Rightarrow> pr_task q = Failed e \<and> pr_app q = pr_app (?p i)
     | Inr rs \<Rightarrow> routes (a_engine (pr_app q)) = rs \<and> l_routes (a_loader (pr_app q)) = rs \<and> pr_task q = Listening) \<and>
    (list_all (dumps_plain shared_file) (l_routes (created i)) \<longrightarrow> table = Inr (l_routes (created i)))" for i
    by (rule admin_change_reaches_gateway [OF disjI1 [OF create] shared_file_laws gateway_file_def at(3,1,2,4)])
  have read: "?table i = (case expand_env_text gateway_file (pr_outside (?p i)) (l_routes_path ?l) i of Inl e \<Rightarrow> Inl e | Inr t \<Rightarrow> Inr [demo_route t])" for i
    by (simp add: read_back_def created_table bind_outcome_def shared_file_def gateway_file_def split: sum.split)
  have "list_all (dumps_plain shared_file) (l_routes (created ''a''))" by (simp add: created_table dumps_plain_def shared_file_def)
  then have "?table ''a'' = Inr (l_routes (created ''a''))" using reaches [of "''a''"] unfolding Let_def by blast
  moreover have "?table ''${X}'' = Inr [demo_route ''new'']" and "\<exists>e. ?table ''${Y}'' = Inl e"
    using match_placeholder_simple [of "''X''" "[]"] match_placeholder_simple [of "''Y''" "[]"]
    unfolding read by (simp_all add: resolve_placeholder_def gateway_file_def shared_file_def startswith_def is_name_start_def is_name_char_def)
  ultimately show ?thesis
    using reaches [of "''a''"] reaches [of "''${X}''"] reaches [of "''${Y}''"] created_table [of "''a''"] by (auto simp: Let_def)
qed

end
